theory Spec2Isabelle
  imports Main
begin

section \<open>Tensors, as far as the cache looks at them\<close>

text \<open>
  The cache in \<^verbatim>\<open>flexible_quantized_cache.py\<close> never reads the numbers of a tensor.
  It asks for \<^verbatim>\<open>dim()\<close>, for \<^verbatim>\<open>shape[-2]\<close> (the sequence axis), in per-head mode for the
  size of the head axis, and it slices and concatenates along axis \<^verbatim>\<open>-2\<close>. A tensor is
  therefore its number of dimensions, its head count, and its content cut along axis
  \<^verbatim>\<open>-2\<close>: one row per position, and in each row one cell per head (a cell stands for the
  \<^verbatim>\<open>[batch, head_dim]\<close> numbers of that head at that position). A per-head slice
  \<^verbatim>\<open>x.transpose(0, 1)[h]\<close> has one cell per row.

  Assumptions on what is given to one cache: blocks have the axis \<^verbatim>\<open>-2\<close> (they are the
  \<^verbatim>\<open>[batch, heads, seq, head_dim]\<close> arrays of the call contract), and they agree on
  every axis but \<^verbatim>\<open>-2\<close>, so that \<^verbatim>\<open>torch.cat\<close> and \<^verbatim>\<open>torch.stack\<close> do not reject them.
\<close>

datatype 'a tensor = Tensor (dim: nat) (n_heads: nat) (rows: "'a list list")

text \<open>\<^verbatim>\<open>torch.zeros(0, dtype=..., device=...)\<close>: one dimension, of size 0.\<close>

definition zeros0 :: "'a tensor" where
  "zeros0 = Tensor 1 0 []"

text \<open>\<^verbatim>\<open>x.shape[-2]\<close>, a Python int.\<close>

definition shape_m2 :: "'a tensor \<Rightarrow> int" where
  "shape_m2 t = int (length (rows t))"

text \<open>
  A bound \<open>i\<close> of a Python slice, resolved against a length \<open>n\<close>: a negative bound
  counts from the end, and both sides are clamped. \<open>- 0\<close> is \<open>0\<close>.
\<close>

definition slice_index :: "int \<Rightarrow> nat \<Rightarrow> nat" where
  "slice_index i n =
     (if i < 0 then (if int n + i < 0 then 0 else nat (int n + i))
      else (if int n < i then n else nat i))"

text \<open>\<^verbatim>\<open>x[..., :i, :]\<close> and \<^verbatim>\<open>x[..., i:, :]\<close>.\<close>

definition slice_to :: "'a tensor \<Rightarrow> int \<Rightarrow> 'a tensor" where
  "slice_to t i = Tensor (dim t) (n_heads t) (take (slice_index i (length (rows t))) (rows t))"

definition slice_from :: "'a tensor \<Rightarrow> int \<Rightarrow> 'a tensor" where
  "slice_from t i = Tensor (dim t) (n_heads t) (drop (slice_index i (length (rows t))) (rows t))"

text \<open>
  \<^verbatim>\<open>torch.cat(ts, dim=-2)\<close>. \<^verbatim>\<open>torch.cat\<close> skips every operand that has one dimension
  and no element (this is what lets the code concatenate the \<^verbatim>\<open>torch.zeros(0)\<close>
  placeholder with 4-D blocks); the others are joined along axis \<^verbatim>\<open>-2\<close>.
\<close>

definition skipped :: "'a tensor \<Rightarrow> bool" where
  "skipped t = (dim t = 1 \<and> rows t = [])"

definition cat_m2 :: "'a tensor list \<Rightarrow> 'a tensor" where
  "cat_m2 ts =
     (case filter (\<lambda>t. \<not> skipped t) ts of
        [] \<Rightarrow> zeros0
      | t # us \<Rightarrow> Tensor (dim t) (n_heads t) (concat (map rows (t # us))))"

section \<open>Errors and the state of a call\<close>

text \<open>
  The source raises \<^verbatim>\<open>ValueError\<close> twice in \<^verbatim>\<open>update\<close>: for a skipped layer (line 168;
  the specification calls it \<open>SequentialAccessError\<close>) and for a head count that is not
  the configured one (line 224; \<open>ConfigError\<close>, as are the \<^verbatim>\<open>ValueError\<close>s of the
  constructors). The remaining errors are the ones Python raises by itself: a failed
  \<^verbatim>\<open>assert\<close>, a missing dictionary key, a list index out of range, and an operation on
  an object of the wrong kind.
\<close>

datatype error =
    SequentialAccessError
  | ConfigError
  | AssertionError
  | KeyError
  | IndexError
  | TypeError
  | RuntimeError

text \<open>
  A method body is a function from the object's state to a result, or the exception
  raised, and the state as it is left: an exception does not undo the assignments made
  before it.
\<close>

type_synonym ('s, 'r) prog = "'s \<Rightarrow> (error + 'r) \<times> 's"

definition done_with :: "'r \<Rightarrow> ('s, 'r) prog" where
  "done_with x = (\<lambda>s. (Inr x, s))"

definition raise :: "error \<Rightarrow> ('s, 'r) prog" where
  "raise e = (\<lambda>s. (Inl e, s))"

definition and_then :: "('s, 'r) prog \<Rightarrow> ('r \<Rightarrow> ('s, 't) prog) \<Rightarrow> ('s, 't) prog" where
  "and_then m f = (\<lambda>s. case m s of (Inl e, s') \<Rightarrow> (Inl e, s') | (Inr x, s') \<Rightarrow> f x s')"

definition reading :: "('s \<Rightarrow> 'r) \<Rightarrow> ('s, 'r) prog" where
  "reading f = (\<lambda>s. (Inr (f s), s))"

definition writing :: "('s \<Rightarrow> 's) \<Rightarrow> ('s, unit) prog" where
  "writing f = (\<lambda>s. (Inr (), f s))"

definition lift :: "error + 'r \<Rightarrow> ('s, 'r) prog" where
  "lift r = (case r of Inl e \<Rightarrow> raise e | Inr x \<Rightarrow> done_with x)"

text \<open>\<^verbatim>\<open>xs[i]\<close> for a list and an index that is not negative.\<close>

definition item :: "'x list \<Rightarrow> nat \<Rightarrow> error + 'x" where
  "item xs i = (if i < length xs then Inr (xs ! i) else Inl IndexError)"

section \<open>Configuration, backend and cache\<close>

text \<open>
  An entry of \<^verbatim>\<open>per_layer_config\<close>, or of a layer of \<^verbatim>\<open>per_head_config\<close>:
  \<^verbatim>\<open>{'nbits_key': ..., 'nbits_value': ...}\<close>.
\<close>

record bits =
  bits_key :: int
  bits_value :: int

text \<open>
  The fields of \<^verbatim>\<open>FlexibleQuantizedCacheConfig\<close> that \<^verbatim>\<open>FlexibleQuantizedCache.__init__\<close>
  copies and \<^verbatim>\<open>update\<close> or a backend constructor reads. The per-head table of a layer is
  a dictionary keyed by the head indices \<open>0, 1, ...\<close> in this order (the comment at the
  top of the source file); it is kept as the list of its values. Layer indices are
  natural numbers.
\<close>

record config =
  nbits :: int
  nbits_key :: int
  nbits_value :: int
  residual_length :: int
  axis_key :: int
  axis_value :: int
  force_quant :: bool
  per_layer_quant :: bool
  per_layer_config :: "nat \<rightharpoonup> bits"
  per_head_quant :: bool
  per_head_config :: "nat \<rightharpoonup> bits list"

text \<open>
  \<^verbatim>\<open>_quantize(tensor, axis, nbits)\<close> and \<^verbatim>\<open>_dequantize(q_tensor)\<close> raise
  \<^verbatim>\<open>NotImplementedError\<close> in \<^verbatim>\<open>FlexibleQuantizedCache\<close>; each subclass implements them with
  a library outside the repository. They are parameters of the model.
\<close>

record ('a, 'q) backend =
  quantize :: "'a tensor \<Rightarrow> int \<Rightarrow> int \<Rightarrow> 'q"
  dequantize :: "'q \<Rightarrow> 'a tensor"

text \<open>
  An element of one of the four lists of the cache: the object of a whole layer, or in
  per-head mode the list of the objects of its heads.
\<close>

datatype 'x slot = Layer 'x | Heads "'x list"

record ('a, 'q) cache =
  seen_tokens :: int
  key_cache :: "'a tensor slot list"
  value_cache :: "'a tensor slot list"
  quantized_key_cache :: "'q slot list"
  quantized_value_cache :: "'q slot list"

text \<open>The cache after \<^verbatim>\<open>__init__\<close>.\<close>

definition empty_cache :: "('a, 'q) cache" where
  "empty_cache = \<lparr>seen_tokens = 0, key_cache = [], value_cache = [],
     quantized_key_cache = [], quantized_value_cache = []\<rparr>"

text \<open>
  \<^verbatim>\<open>xs[layer_idx]\<close> used as one object, and used as a list of per-head objects. A cache has
  one mode for its whole life, so the wrong kind is never met on a cache built by
  \<^verbatim>\<open>update\<close>.
\<close>

definition layer_item :: "'x slot list \<Rightarrow> nat \<Rightarrow> error + 'x" where
  "layer_item xs l =
     (case item xs l of
        Inl e \<Rightarrow> Inl e
      | Inr (Layer x) \<Rightarrow> Inr x
      | Inr (Heads _) \<Rightarrow> Inl TypeError)"

definition heads_item :: "'x slot list \<Rightarrow> nat \<Rightarrow> error + 'x list" where
  "heads_item xs l =
     (case item xs l of
        Inl e \<Rightarrow> Inl e
      | Inr (Heads hs) \<Rightarrow> Inr hs
      | Inr (Layer _) \<Rightarrow> Inl TypeError)"

text \<open>Chaining two computations that can fail without touching the state.\<close>

definition attempt :: "error + 'r \<Rightarrow> ('r \<Rightarrow> error + 't) \<Rightarrow> error + 't" where
  "attempt r f = (case r of Inl e \<Rightarrow> Inl e | Inr x \<Rightarrow> f x)"

text \<open>
  \<^verbatim>\<open>xs[layer_idx][head_idx]\<close>, \<^verbatim>\<open>xs[layer_idx][-1]\<close>, \<^verbatim>\<open>xs[layer_idx].append(x)\<close> and
  \<^verbatim>\<open>xs[layer_idx][head_idx] = x\<close>. Python evaluates the target \<^verbatim>\<open>xs[layer_idx]\<close> before
  the argument \<open>x\<close>, which may fail itself.
\<close>

definition head_item :: "'x slot list \<Rightarrow> nat \<Rightarrow> nat \<Rightarrow> error + 'x" where
  "head_item xs l h = attempt (heads_item xs l) (\<lambda>hs. item hs h)"

definition last_head :: "'x slot list \<Rightarrow> nat \<Rightarrow> error + 'x" where
  "last_head xs l = attempt (heads_item xs l) (\<lambda>hs. if hs = [] then Inl IndexError else Inr (last hs))"

definition push_head :: "'x slot list \<Rightarrow> nat \<Rightarrow> error + 'x \<Rightarrow> error + 'x slot list" where
  "push_head xs l arg =
     attempt (heads_item xs l) (\<lambda>hs. attempt arg (\<lambda>x. Inr (xs[l := Heads (hs @ [x])])))"

definition set_head :: "'x slot list \<Rightarrow> nat \<Rightarrow> nat \<Rightarrow> 'x \<Rightarrow> error + 'x slot list" where
  "set_head xs l h x =
     attempt (heads_item xs l)
       (\<lambda>hs. if h < length hs then Inr (xs[l := Heads (hs[h := x])]) else Inl IndexError)"

text \<open>Reading one of the four lists, and replacing it by the outcome of a statement on it.\<close>

definition fetch :: "(('a, 'q) cache \<Rightarrow> 'x) \<Rightarrow> ('x \<Rightarrow> error + 'r) \<Rightarrow> (('a, 'q) cache, 'r) prog" where
  "fetch field f = and_then (reading field) (\<lambda>xs. lift (f xs))"

definition on_key_cache ::
  "('a tensor slot list \<Rightarrow> error + 'a tensor slot list) \<Rightarrow> (('a, 'q) cache, unit) prog" where
  "on_key_cache f = and_then (fetch key_cache f) (\<lambda>ys. writing (\<lambda>s. s\<lparr>key_cache := ys\<rparr>))"

definition on_value_cache ::
  "('a tensor slot list \<Rightarrow> error + 'a tensor slot list) \<Rightarrow> (('a, 'q) cache, unit) prog" where
  "on_value_cache f = and_then (fetch value_cache f) (\<lambda>ys. writing (\<lambda>s. s\<lparr>value_cache := ys\<rparr>))"

definition on_quantized_key_cache ::
  "('q slot list \<Rightarrow> error + 'q slot list) \<Rightarrow> (('a, 'q) cache, unit) prog" where
  "on_quantized_key_cache f =
     and_then (fetch quantized_key_cache f) (\<lambda>ys. writing (\<lambda>s. s\<lparr>quantized_key_cache := ys\<rparr>))"

definition on_quantized_value_cache ::
  "('q slot list \<Rightarrow> error + 'q slot list) \<Rightarrow> (('a, 'q) cache, unit) prog" where
  "on_quantized_value_cache f =
     and_then (fetch quantized_value_cache f) (\<lambda>ys. writing (\<lambda>s. s\<lparr>quantized_value_cache := ys\<rparr>))"

text \<open>
  \<^verbatim>\<open>x.transpose(0, 1)[h]\<close> for a 4-D block: the slice of head \<open>h\<close>, one dimension less.
  \<^verbatim>\<open>torch.stack(ts).transpose(0, 1)\<close> puts the slices back side by side;
  \<^verbatim>\<open>torch.stack\<close> rejects an empty list. What the cache stacks are the histories of the
  heads of one layer, which have one shape when the codec gives back the shape it was
  given; \<^verbatim>\<open>torch.stack\<close> rejecting slices of different shapes is not modelled.
\<close>

definition select_head :: "'a tensor \<Rightarrow> nat \<Rightarrow> error + 'a tensor" where
  "select_head t h =
     (if h < n_heads t then Inr (Tensor (dim t - 1) 1 (map (\<lambda>r. take 1 (drop h r)) (rows t)))
      else Inl IndexError)"

definition stack_heads :: "'a tensor list \<Rightarrow> error + 'a tensor" where
  "stack_heads ts =
     (case ts of
        [] \<Rightarrow> Inl RuntimeError
      | t # _ \<Rightarrow> Inr (Tensor (dim t + 1) (length ts) (map concat (transpose (map rows ts)))))"

section \<open>\<^verbatim>\<open>FlexibleQuantizedCache.update\<close>\<close>

subsection \<open>Per-layer and global mode (lines 171 to 218)\<close>

text \<open>
  Lines 174 to 197: the layer has no entry yet. \<open>b\<close> holds \<^verbatim>\<open>nbits_key\<close> and
  \<^verbatim>\<open>nbits_value\<close> of lines 171 and 172. \<^verbatim>\<open>.contiguous()\<close> changes no value.
\<close>

definition first_layer ::
  "config \<Rightarrow> ('a, 'q) backend \<Rightarrow> bits \<Rightarrow> 'a tensor \<Rightarrow> 'a tensor \<Rightarrow> nat
   \<Rightarrow> (('a, 'q) cache, 'a tensor \<times> 'a tensor) prog" where
  "first_layer cfg be b key_states value_states layer_idx =
     (if force_quant cfg then
        and_then
          (if residual_length cfg \<noteq> 0 then
             (let tokens_to_keep = shape_m2 key_states mod residual_length cfg in
              writing (\<lambda>s. s\<lparr>
                quantized_key_cache := quantized_key_cache s @
                  [Layer (quantize be (slice_to key_states (- tokens_to_keep)) (axis_key cfg) (bits_key b))],
                quantized_value_cache := quantized_value_cache s @
                  [Layer (quantize be (slice_to value_states (- tokens_to_keep)) (axis_value cfg) (bits_value b))],
                key_cache := key_cache s @ [Layer (slice_from key_states (- tokens_to_keep))],
                value_cache := value_cache s @ [Layer (slice_from value_states (- tokens_to_keep))]\<rparr>))
           else
              writing (\<lambda>s. s\<lparr>
                quantized_key_cache := quantized_key_cache s @
                  [Layer (quantize be key_states (axis_key cfg) (bits_key b))],
                quantized_value_cache := quantized_value_cache s @
                  [Layer (quantize be value_states (axis_value cfg) (bits_value b))],
                key_cache := key_cache s @ [Layer zeros0],
                value_cache := value_cache s @ [Layer zeros0]\<rparr>))
          (\<lambda>_. and_then (fetch quantized_key_cache (\<lambda>xs. layer_item xs layer_idx)) (\<lambda>qk.
                and_then (fetch key_cache (\<lambda>xs. layer_item xs layer_idx)) (\<lambda>rk.
                and_then (fetch quantized_value_cache (\<lambda>xs. layer_item xs layer_idx)) (\<lambda>qv.
                and_then (fetch value_cache (\<lambda>xs. layer_item xs layer_idx)) (\<lambda>rv.
                done_with (cat_m2 [dequantize be qk, rk], cat_m2 [dequantize be qv, rv]))))))
      else
        and_then
          (writing (\<lambda>s. s\<lparr>
             quantized_key_cache := quantized_key_cache s @
               [Layer (quantize be key_states (axis_key cfg) (bits_key b))],
             quantized_value_cache := quantized_value_cache s @
               [Layer (quantize be value_states (axis_value cfg) (bits_value b))],
             key_cache := key_cache s @ [Layer zeros0],
             value_cache := value_cache s @ [Layer zeros0]\<rparr>))
          (\<lambda>_. done_with (key_states, value_states)))"

text \<open>
  The test of lines 206 to 209, and of lines 259 to 262 for the slice of a head: the
  residual is an array of \<open>d\<close> dimensions (not the \<^verbatim>\<open>torch.zeros(0)\<close> placeholder), and one
  position more would bring it to the residual length.
\<close>

definition merge_due :: "nat \<Rightarrow> config \<Rightarrow> 'a tensor \<Rightarrow> bool" where
  "merge_due d cfg residual = (dim residual = d \<and> shape_m2 residual + 1 \<ge> residual_length cfg)"

text \<open>Lines 199 to 218: the layer has an entry.\<close>

definition next_layer ::
  "config \<Rightarrow> ('a, 'q) backend \<Rightarrow> bits \<Rightarrow> 'a tensor \<Rightarrow> 'a tensor \<Rightarrow> nat
   \<Rightarrow> (('a, 'q) cache, 'a tensor \<times> 'a tensor) prog" where
  "next_layer cfg be b key_states value_states layer_idx =
     and_then (fetch quantized_key_cache (\<lambda>xs. layer_item xs layer_idx)) (\<lambda>qk.
     and_then (fetch quantized_value_cache (\<lambda>xs. layer_item xs layer_idx)) (\<lambda>qv.
     and_then (fetch key_cache (\<lambda>xs. layer_item xs layer_idx)) (\<lambda>rk.
     and_then (fetch value_cache (\<lambda>xs. layer_item xs layer_idx)) (\<lambda>rv.
       (let keys_to_return = cat_m2 [dequantize be qk, rk, key_states];
            values_to_return = cat_m2 [dequantize be qv, rv, value_states]
        in and_then
             (if merge_due 4 cfg rk then
                writing (\<lambda>s. s\<lparr>
                  quantized_key_cache := (quantized_key_cache s)
                    [layer_idx := Layer (quantize be keys_to_return (axis_key cfg) (bits_key b))],
                  quantized_value_cache := (quantized_value_cache s)
                    [layer_idx := Layer (quantize be values_to_return (axis_value cfg) (bits_value b))],
                  key_cache := (key_cache s)[layer_idx := Layer zeros0],
                  value_cache := (value_cache s)[layer_idx := Layer zeros0]\<rparr>)
              else
                writing (\<lambda>s. s\<lparr>
                  key_cache := (key_cache s)[layer_idx := Layer (cat_m2 [rk, key_states])],
                  value_cache := (value_cache s)[layer_idx := Layer (cat_m2 [rv, value_states])]\<rparr>))
             (\<lambda>_. done_with (keys_to_return, values_to_return)))))))"

text \<open>
  Lines 171 and 172: the bit widths of the layer, from the per-layer table when per-layer
  mode is on (a layer missing from the dictionary is a \<^verbatim>\<open>KeyError\<close>).
\<close>

definition layer_bits :: "config \<Rightarrow> nat \<Rightarrow> error + bits" where
  "layer_bits cfg layer_idx =
     (if \<not> per_layer_quant cfg
      then Inr \<lparr>bits_key = nbits_key cfg, bits_value = nbits_value cfg\<rparr>
      else (case per_layer_config cfg layer_idx of None \<Rightarrow> Inl KeyError | Some b \<Rightarrow> Inr b))"

definition update_layer ::
  "config \<Rightarrow> ('a, 'q) backend \<Rightarrow> 'a tensor \<Rightarrow> 'a tensor \<Rightarrow> nat
   \<Rightarrow> (('a, 'q) cache, 'a tensor \<times> 'a tensor) prog" where
  "update_layer cfg be key_states value_states layer_idx =
     and_then (lift (layer_bits cfg layer_idx))
       (\<lambda>b. and_then (reading key_cache) (\<lambda>kc.
          if length kc = layer_idx
          then first_layer cfg be b key_states value_states layer_idx
          else next_layer cfg be b key_states value_states layer_idx))"

subsection \<open>Per-head mode (lines 220 to 271)\<close>

text \<open>
  One turn of the loop of lines 231 to 252, for the head \<open>head_idx\<close> with its entry
  \<open>c\<close> of the table: the layer has just been given four empty lists.
  \<^verbatim>\<open>key_states\<close> and \<^verbatim>\<open>value_states\<close> are the blocks after \<^verbatim>\<open>transpose(0, 1)\<close>, which
  leaves \<^verbatim>\<open>shape[-2]\<close> as it was.
\<close>

definition first_head ::
  "config \<Rightarrow> ('a, 'q) backend \<Rightarrow> 'a tensor \<Rightarrow> 'a tensor \<Rightarrow> nat \<Rightarrow> nat \<Rightarrow> bits
   \<Rightarrow> (('a, 'q) cache, 'a tensor \<times> 'a tensor) prog" where
  "first_head cfg be key_states value_states layer_idx head_idx c =
     (if force_quant cfg then
        and_then
          (if residual_length cfg \<noteq> 0 then
             (let tokens_to_keep = shape_m2 key_states mod residual_length cfg in
              and_then (on_quantized_key_cache (\<lambda>xs. push_head xs layer_idx
                (attempt (select_head key_states head_idx)
                   (\<lambda>k. Inr (quantize be (slice_to k (- tokens_to_keep)) (axis_key cfg) (bits_key c)))))) (\<lambda>_.
              and_then (on_quantized_value_cache (\<lambda>xs. push_head xs layer_idx
                (attempt (select_head value_states head_idx)
                   (\<lambda>v. Inr (quantize be (slice_to v (- tokens_to_keep)) (axis_value cfg) (bits_value c)))))) (\<lambda>_.
              and_then (on_key_cache (\<lambda>xs. push_head xs layer_idx
                (attempt (select_head key_states head_idx)
                   (\<lambda>k. Inr (slice_from k (- tokens_to_keep)))))) (\<lambda>_.
              on_value_cache (\<lambda>xs. push_head xs layer_idx
                (attempt (select_head value_states head_idx)
                   (\<lambda>v. Inr (slice_from v (- tokens_to_keep)))))))))
           else
              and_then (on_quantized_key_cache (\<lambda>xs. push_head xs layer_idx
                (attempt (select_head key_states head_idx)
                   (\<lambda>k. Inr (quantize be k (axis_key cfg) (bits_key c)))))) (\<lambda>_.
              and_then (on_quantized_value_cache (\<lambda>xs. push_head xs layer_idx
                (attempt (select_head value_states head_idx)
                   (\<lambda>v. Inr (quantize be v (axis_value cfg) (bits_value c)))))) (\<lambda>_.
              and_then (on_key_cache (\<lambda>xs. push_head xs layer_idx (Inr zeros0))) (\<lambda>_.
              on_value_cache (\<lambda>xs. push_head xs layer_idx (Inr zeros0))))))
          (\<lambda>_. and_then (fetch quantized_key_cache (\<lambda>xs. last_head xs layer_idx)) (\<lambda>qk.
                and_then (fetch key_cache (\<lambda>xs. last_head xs layer_idx)) (\<lambda>rk.
                and_then (fetch quantized_value_cache (\<lambda>xs. last_head xs layer_idx)) (\<lambda>qv.
                and_then (fetch value_cache (\<lambda>xs. last_head xs layer_idx)) (\<lambda>rv.
                done_with (cat_m2 [dequantize be qk, rk], cat_m2 [dequantize be qv, rv]))))))
      else
        and_then (on_quantized_key_cache (\<lambda>xs. push_head xs layer_idx
          (attempt (select_head key_states head_idx)
             (\<lambda>k. Inr (quantize be k (axis_key cfg) (bits_key c)))))) (\<lambda>_.
        and_then (on_quantized_value_cache (\<lambda>xs. push_head xs layer_idx
          (attempt (select_head value_states head_idx)
             (\<lambda>v. Inr (quantize be v (axis_value cfg) (bits_value c)))))) (\<lambda>_.
        and_then (on_key_cache (\<lambda>xs. push_head xs layer_idx (Inr zeros0))) (\<lambda>_.
        and_then (on_value_cache (\<lambda>xs. push_head xs layer_idx (Inr zeros0))) (\<lambda>_.
        and_then (lift (select_head key_states head_idx)) (\<lambda>k.
        and_then (lift (select_head value_states head_idx)) (\<lambda>v.
        done_with (k, v))))))))"

text \<open>
  One turn of the loop of lines 254 to 269: the layer has its per-head entries.
  \<open>ks\<close> and \<open>vs\<close> are \<^verbatim>\<open>keys_to_return\<close> and \<^verbatim>\<open>values_to_return\<close> as the turn finds them;
  the turn returns them with its own history appended.
\<close>

definition next_head ::
  "config \<Rightarrow> ('a, 'q) backend \<Rightarrow> 'a tensor \<Rightarrow> 'a tensor \<Rightarrow> nat \<Rightarrow> nat \<Rightarrow> bits
   \<Rightarrow> 'a tensor list \<times> 'a tensor list
   \<Rightarrow> (('a, 'q) cache, 'a tensor list \<times> 'a tensor list) prog" where
  "next_head cfg be key_states value_states layer_idx head_idx c acc =
     and_then (fetch quantized_key_cache (\<lambda>xs. head_item xs layer_idx head_idx)) (\<lambda>qk.
     and_then (fetch quantized_value_cache (\<lambda>xs. head_item xs layer_idx head_idx)) (\<lambda>qv.
     and_then (fetch key_cache (\<lambda>xs. head_item xs layer_idx head_idx)) (\<lambda>rk.
     and_then (lift (select_head key_states head_idx)) (\<lambda>k.
     and_then (fetch value_cache (\<lambda>xs. head_item xs layer_idx head_idx)) (\<lambda>rv.
     and_then (lift (select_head value_states head_idx)) (\<lambda>v.
       (let keys_to_return = fst acc @ [cat_m2 [dequantize be qk, rk, k]];
            values_to_return = snd acc @ [cat_m2 [dequantize be qv, rv, v]]
        in and_then
             (if merge_due 3 cfg rk then
                and_then (on_quantized_key_cache (\<lambda>xs. attempt (item keys_to_return head_idx)
                  (\<lambda>kr. set_head xs layer_idx head_idx (quantize be kr (axis_key cfg) (bits_key c))))) (\<lambda>_.
                and_then (on_quantized_value_cache (\<lambda>xs. attempt (item values_to_return head_idx)
                  (\<lambda>vr. set_head xs layer_idx head_idx (quantize be vr (axis_value cfg) (bits_value c))))) (\<lambda>_.
                and_then (on_key_cache (\<lambda>xs. set_head xs layer_idx head_idx zeros0)) (\<lambda>_.
                on_value_cache (\<lambda>xs. set_head xs layer_idx head_idx zeros0))))
              else
                and_then (on_key_cache (\<lambda>xs. set_head xs layer_idx head_idx (cat_m2 [rk, k]))) (\<lambda>_.
                on_value_cache (\<lambda>xs. set_head xs layer_idx head_idx (cat_m2 [rv, v]))))
             (\<lambda>_. done_with (keys_to_return, values_to_return)))))))))"

text \<open>
  The two \<^verbatim>\<open>for head_idx, config in self.per_head_config[layer_idx].items()\<close> loops, over
  the heads still to visit.
\<close>

fun first_heads ::
  "config \<Rightarrow> ('a, 'q) backend \<Rightarrow> 'a tensor \<Rightarrow> 'a tensor \<Rightarrow> nat \<Rightarrow> (nat \<times> bits) list
   \<Rightarrow> 'a tensor list \<times> 'a tensor list
   \<Rightarrow> (('a, 'q) cache, 'a tensor list \<times> 'a tensor list) prog" where
  "first_heads cfg be key_states value_states layer_idx [] acc = done_with acc"
| "first_heads cfg be key_states value_states layer_idx ((head_idx, c) # todo) acc =
     and_then (first_head cfg be key_states value_states layer_idx head_idx c)
       (\<lambda>r. first_heads cfg be key_states value_states layer_idx todo
               (fst acc @ [fst r], snd acc @ [snd r]))"

fun next_heads ::
  "config \<Rightarrow> ('a, 'q) backend \<Rightarrow> 'a tensor \<Rightarrow> 'a tensor \<Rightarrow> nat \<Rightarrow> (nat \<times> bits) list
   \<Rightarrow> 'a tensor list \<times> 'a tensor list
   \<Rightarrow> (('a, 'q) cache, 'a tensor list \<times> 'a tensor list) prog" where
  "next_heads cfg be key_states value_states layer_idx [] acc = done_with acc"
| "next_heads cfg be key_states value_states layer_idx ((head_idx, c) # todo) acc =
     and_then (next_head cfg be key_states value_states layer_idx head_idx c acc)
       (\<lambda>acc'. next_heads cfg be key_states value_states layer_idx todo acc')"

definition update_heads ::
  "config \<Rightarrow> ('a, 'q) backend \<Rightarrow> 'a tensor \<Rightarrow> 'a tensor \<Rightarrow> nat
   \<Rightarrow> (('a, 'q) cache, 'a tensor \<times> 'a tensor) prog" where
  "update_heads cfg be key_states value_states layer_idx =
     (if \<not> (dim key_states = 4 \<and> dim value_states = 4) then raise AssertionError
      else if n_heads key_states \<noteq> n_heads value_states then raise AssertionError
      else
        and_then (lift (case per_head_config cfg layer_idx of
                          None \<Rightarrow> Inl KeyError | Some table \<Rightarrow> Inr table)) (\<lambda>table.
        if n_heads key_states \<noteq> length table then raise ConfigError
        else
          and_then (reading key_cache) (\<lambda>kc.
          and_then
            (if length kc = layer_idx then
               and_then
                 (writing (\<lambda>s. s\<lparr>
                    quantized_key_cache := quantized_key_cache s @ [Heads []],
                    quantized_value_cache := quantized_value_cache s @ [Heads []],
                    key_cache := key_cache s @ [Heads []],
                    value_cache := value_cache s @ [Heads []]\<rparr>))
                 (\<lambda>_. first_heads cfg be key_states value_states layer_idx
                         (enumerate 0 table) ([], []))
             else
               next_heads cfg be key_states value_states layer_idx (enumerate 0 table) ([], []))
            (\<lambda>r. and_then (lift (stack_heads (fst r))) (\<lambda>keys_to_return.
                  and_then (lift (stack_heads (snd r))) (\<lambda>values_to_return.
                  done_with (keys_to_return, values_to_return)))))))"

subsection \<open>The method (lines 156 to 272) and \<^verbatim>\<open>get_seq_length\<close> (lines 274 to 281)\<close>

text \<open>Lines 165 and 166: the counter moves on a call for layer 0 only.\<close>

definition counted :: "nat \<Rightarrow> 'a tensor \<Rightarrow> ('a, 'q) cache \<Rightarrow> ('a, 'q) cache" where
  "counted layer_idx key_states s =
     (if layer_idx = 0 then s\<lparr>seen_tokens := seen_tokens s + shape_m2 key_states\<rparr> else s)"

definition update ::
  "config \<Rightarrow> ('a, 'q) backend \<Rightarrow> 'a tensor \<Rightarrow> 'a tensor \<Rightarrow> nat
   \<Rightarrow> (('a, 'q) cache, 'a tensor \<times> 'a tensor) prog" where
  "update cfg be key_states value_states layer_idx =
     and_then (writing (counted layer_idx key_states))
       (\<lambda>_. and_then (reading key_cache) (\<lambda>kc.
          if length kc < layer_idx then raise SequentialAccessError
          else if \<not> per_head_quant cfg
          then update_layer cfg be key_states value_states layer_idx
          else update_heads cfg be key_states value_states layer_idx))"

definition get_seq_length :: "('a, 'q) cache \<Rightarrow> nat \<Rightarrow> int" where
  "get_seq_length s layer_idx =
     (if length (key_cache s) \<le> layer_idx then 0
      else if layer_idx = 0 then seen_tokens s else seen_tokens s - 1)"

section \<open>\<^verbatim>\<open>FlexibleQuantoQuantizedCache\<close>\<close>

text \<open>
  The checks of \<^verbatim>\<open>__init__\<close> (lines 336 to 345), in their order, on the fields copied from
  the configuration; and \<^verbatim>\<open>get_qtype\<close> (lines 350 to 360), whose \<^verbatim>\<open>if\<close> chain has no
  \<^verbatim>\<open>else\<close>: Python returns \<^verbatim>\<open>None\<close> at the end of the body.
\<close>

definition quanto_init :: "config \<Rightarrow> error + unit" where
  "quanto_init cfg =
     (if nbits cfg \<notin> set [2, 4, 8] then Inl ConfigError
      else if axis_key cfg \<notin> set [0, - 1] then Inl ConfigError
      else if axis_value cfg \<notin> set [0, - 1] then Inl ConfigError
      else Inr ())"

datatype qtype = qint2 | qint4 | qint8

definition get_qtype :: "int \<Rightarrow> qtype option" where
  "get_qtype n =
     (if n = 2 then Some qint2
      else if n = 4 then Some qint4
      else if n = 8 then Some qint8
      else None)"

section \<open>Sequences of calls\<close>

text \<open>
  The caller's loop: the calls \<open>(key_states, value_states, layer_idx)\<close> are made in
  order on one cache, and an exception ends the loop. The results of the calls are
  collected.
\<close>

fun updates ::
  "config \<Rightarrow> ('a, 'q) backend \<Rightarrow> ('a tensor \<times> 'a tensor \<times> nat) list
   \<Rightarrow> (('a, 'q) cache, ('a tensor \<times> 'a tensor) list) prog" where
  "updates cfg be [] = done_with []"
| "updates cfg be (c # cs) =
     and_then (update cfg be (fst c) (fst (snd c)) (snd (snd c)))
       (\<lambda>r. and_then (updates cfg be cs) (\<lambda>rs. done_with (r # rs)))"

section \<open>Well-formed caches and the entry of a layer\<close>

text \<open>
  \<^verbatim>\<open>update\<close> extends the four lists together, so on a cache built by it they have one
  length. The entry of a layer is what the four lists hold at its index.
\<close>

definition aligned :: "('a, 'q) cache \<Rightarrow> bool" where
  "aligned s =
     (length (value_cache s) = length (key_cache s)
      \<and> length (quantized_key_cache s) = length (key_cache s)
      \<and> length (quantized_value_cache s) = length (key_cache s))"

definition entry ::
  "('a, 'q) cache \<Rightarrow> nat \<Rightarrow> 'q \<Rightarrow> 'q \<Rightarrow> 'a tensor \<Rightarrow> 'a tensor \<Rightarrow> bool" where
  "entry s l qk qv rk rv =
     (layer_item (quantized_key_cache s) l = Inr qk
      \<and> layer_item (quantized_value_cache s) l = Inr qv
      \<and> layer_item (key_cache s) l = Inr rk
      \<and> layer_item (value_cache s) l = Inr rv)"

section \<open>The two tiers of an entry\<close>

text \<open>
  An entry is what the cache keeps for a layer in per-layer and global mode, and for one
  head of a layer in per-head mode: the quantized keys and values, and the residual keys
  and values. Lines 199 to 218 do to the entry of a layer what lines 255 to 269 do to the
  entry of a head, and lines 174 to 197 what lines 232 to 252 do; only the number of
  dimensions the merge test asks of the residual differs (4 for a layer, 3 for a head).
  The functions below are these statements on one entry, without the lists around it;
  the lemmas \<open>step_first\<close> and \<open>step_next\<close> prove that \<^verbatim>\<open>update\<close> does exactly this to the
  entry of the layer, and to the entry of each head.
\<close>

record ('a, 'q) tiers =
  q_key :: 'q
  q_value :: 'q
  r_key :: "'a tensor"
  r_value :: "'a tensor"

text \<open>
  Lines 199 to 205 (255 to 258): what a call returns for an entry that exists, from the
  block \<open>k\<close>, \<open>v\<close> it appends.
\<close>

definition next_history :: "('a, 'q) backend \<Rightarrow> 'a tensor \<Rightarrow> 'a tensor \<Rightarrow> ('a, 'q) tiers
    \<Rightarrow> 'a tensor \<times> 'a tensor" where
  "next_history be k v t =
     (cat_m2 [dequantize be (q_key t), r_key t, k], cat_m2 [dequantize be (q_value t), r_value t, v])"

text \<open>
  Lines 206 to 218 (259 to 269): the entry after that call. \<open>d\<close> is the number of
  dimensions of the merge test.
\<close>

definition next_tiers :: "nat \<Rightarrow> config \<Rightarrow> ('a, 'q) backend \<Rightarrow> bits \<Rightarrow> 'a tensor \<Rightarrow> 'a tensor
    \<Rightarrow> ('a, 'q) tiers \<Rightarrow> ('a, 'q) tiers" where
  "next_tiers d cfg be b k v t =
     (if merge_due d cfg (r_key t) then
        \<lparr>q_key = quantize be (fst (next_history be k v t)) (axis_key cfg) (bits_key b),
         q_value = quantize be (snd (next_history be k v t)) (axis_value cfg) (bits_value b),
         r_key = zeros0, r_value = zeros0\<rparr>
      else t\<lparr>r_key := cat_m2 [r_key t, k], r_value := cat_m2 [r_value t, v]\<rparr>)"

text \<open>Lines 174 to 197 (232 to 252): the entry a first call makes, and what it returns.\<close>

definition first_tiers :: "config \<Rightarrow> ('a, 'q) backend \<Rightarrow> bits \<Rightarrow> 'a tensor \<Rightarrow> 'a tensor
    \<Rightarrow> ('a, 'q) tiers" where
  "first_tiers cfg be b k v =
     (if force_quant cfg \<and> residual_length cfg \<noteq> 0 then
        \<lparr>q_key = quantize be (slice_to k (- (shape_m2 k mod residual_length cfg)))
                  (axis_key cfg) (bits_key b),
         q_value = quantize be (slice_to v (- (shape_m2 k mod residual_length cfg)))
                  (axis_value cfg) (bits_value b),
         r_key = slice_from k (- (shape_m2 k mod residual_length cfg)),
         r_value = slice_from v (- (shape_m2 k mod residual_length cfg))\<rparr>
      else
        \<lparr>q_key = quantize be k (axis_key cfg) (bits_key b),
         q_value = quantize be v (axis_value cfg) (bits_value b),
         r_key = zeros0, r_value = zeros0\<rparr>)"

definition first_history :: "config \<Rightarrow> ('a, 'q) backend \<Rightarrow> 'a tensor \<Rightarrow> 'a tensor
    \<Rightarrow> ('a, 'q) tiers \<Rightarrow> 'a tensor \<times> 'a tensor" where
  "first_history cfg be k v t =
     (if force_quant cfg
      then (cat_m2 [dequantize be (q_key t), r_key t], cat_m2 [dequantize be (q_value t), r_value t])
      else (k, v))"

text \<open>
  An entry over a sequence of blocks: the entry after the last block, for each block
  whether the merge test held, and what was returned for each block.
\<close>

fun tiers_run :: "nat \<Rightarrow> config \<Rightarrow> ('a, 'q) backend \<Rightarrow> bits \<Rightarrow> ('a tensor \<times> 'a tensor) list
    \<Rightarrow> ('a, 'q) tiers \<Rightarrow> ('a, 'q) tiers" where
  "tiers_run d cfg be b [] t = t"
| "tiers_run d cfg be b (x # xs) t = tiers_run d cfg be b xs (next_tiers d cfg be b (fst x) (snd x) t)"

fun tiers_log :: "nat \<Rightarrow> config \<Rightarrow> ('a, 'q) backend \<Rightarrow> bits \<Rightarrow> ('a tensor \<times> 'a tensor) list
    \<Rightarrow> ('a, 'q) tiers \<Rightarrow> bool list" where
  "tiers_log d cfg be b [] t = []"
| "tiers_log d cfg be b (x # xs) t =
     merge_due d cfg (r_key t) # tiers_log d cfg be b xs (next_tiers d cfg be b (fst x) (snd x) t)"

fun tiers_histories :: "nat \<Rightarrow> config \<Rightarrow> ('a, 'q) backend \<Rightarrow> bits
    \<Rightarrow> ('a tensor \<times> 'a tensor) list \<Rightarrow> ('a, 'q) tiers \<Rightarrow> ('a tensor \<times> 'a tensor) list" where
  "tiers_histories d cfg be b [] t = []"
| "tiers_histories d cfg be b (x # xs) t =
     next_history be (fst x) (snd x) t
       # tiers_histories d cfg be b xs (next_tiers d cfg be b (fst x) (snd x) t)"

text \<open>The number of positions in a list of blocks.\<close>

definition sizes :: "'a tensor list \<Rightarrow> int" where
  "sizes ts = sum_list (map shape_m2 ts)"

text \<open>The first \<open>m\<close> positions of a block, and the positions after them.\<close>

definition take_m2 :: "nat \<Rightarrow> 'a tensor \<Rightarrow> 'a tensor" where
  "take_m2 m t = Tensor (dim t) (n_heads t) (take m (rows t))"

definition drop_m2 :: "nat \<Rightarrow> 'a tensor \<Rightarrow> 'a tensor" where
  "drop_m2 m t = Tensor (dim t) (n_heads t) (drop m (rows t))"

section \<open>Entries by address\<close>

text \<open>
  The slice \<^verbatim>\<open>x.transpose(0, 1)[h]\<close> of a block that has the head \<open>h\<close>, and
  \<^verbatim>\<open>torch.stack(ts).transpose(0, 1)\<close> of a list that is not empty.
\<close>

definition head_of :: "'a tensor \<Rightarrow> nat \<Rightarrow> 'a tensor" where
  "head_of t h = Tensor (dim t - 1) 1 (map (\<lambda>r. take 1 (drop h r)) (rows t))"

definition stacked :: "'a tensor list \<Rightarrow> 'a tensor" where
  "stacked ts = Tensor (dim (hd ts) + 1) (length ts) (map concat (transpose (map rows ts)))"

text \<open>The four lists hold, for the layer \<open>l\<close>, the entries \<open>f 0, ..., f (n - 1)\<close> of \<open>n\<close> heads.\<close>

definition heads_entry :: "('a, 'q) cache \<Rightarrow> nat \<Rightarrow> nat \<Rightarrow> (nat \<Rightarrow> ('a, 'q) tiers) \<Rightarrow> bool" where
  "heads_entry s l n f =
     (heads_item (quantized_key_cache s) l = Inr (map (\<lambda>h. q_key (f h)) [0..<n])
      \<and> heads_item (quantized_value_cache s) l = Inr (map (\<lambda>h. q_value (f h)) [0..<n])
      \<and> heads_item (key_cache s) l = Inr (map (\<lambda>h. r_key (f h)) [0..<n])
      \<and> heads_item (value_cache s) l = Inr (map (\<lambda>h. r_value (f h)) [0..<n]))"

text \<open>
  An address names an entry of a layer: \<open>None\<close> is the entry of the layer itself
  (per-layer and global mode), \<open>Some h\<close> is the entry of the head \<open>h\<close> (per-head mode).
  For an address: the part of a block of the call that goes to the entry, the number of
  dimensions its merge test asks for, the bits configured for it, and the entry as the
  four lists of the cache hold it.
\<close>

definition block_at :: "'a tensor \<Rightarrow> nat option \<Rightarrow> 'a tensor" where
  "block_at t a = (case a of None \<Rightarrow> t | Some h \<Rightarrow> head_of t h)"

definition dims_at :: "nat option \<Rightarrow> nat" where
  "dims_at a = (case a of None \<Rightarrow> 4 | Some h \<Rightarrow> 3)"

definition bits_at :: "config \<Rightarrow> nat \<Rightarrow> nat option \<Rightarrow> error + bits" where
  "bits_at cfg l a =
     (case a of
        None \<Rightarrow> layer_bits cfg l
      | Some h \<Rightarrow> (case per_head_config cfg l of None \<Rightarrow> Inl KeyError | Some table \<Rightarrow> item table h))"

definition bits_of :: "config \<Rightarrow> nat \<Rightarrow> nat option \<Rightarrow> bits" where
  "bits_of cfg l a =
     (case bits_at cfg l a of Inl e \<Rightarrow> \<lparr>bits_key = 0, bits_value = 0\<rparr> | Inr b \<Rightarrow> b)"

definition slot_item :: "'x slot list \<Rightarrow> nat \<Rightarrow> nat option \<Rightarrow> error + 'x" where
  "slot_item xs l a = (case a of None \<Rightarrow> layer_item xs l | Some h \<Rightarrow> head_item xs l h)"

definition tiers_at :: "('a, 'q) cache \<Rightarrow> nat \<Rightarrow> nat option \<Rightarrow> error + ('a, 'q) tiers" where
  "tiers_at s l a =
     attempt (slot_item (quantized_key_cache s) l a) (\<lambda>qk.
     attempt (slot_item (quantized_value_cache s) l a) (\<lambda>qv.
     attempt (slot_item (key_cache s) l a) (\<lambda>rk.
     attempt (slot_item (value_cache s) l a) (\<lambda>rv.
       Inr \<lparr>q_key = qk, q_value = qv, r_key = rk, r_value = rv\<rparr>))))"

text \<open>
  The address \<open>a\<close> is one the configuration serves at layer \<open>l\<close>, with the bits \<open>b\<close>:
  the address of the layer when per-head mode is off, the address of a head of the table
  when it is on.
\<close>

definition served :: "config \<Rightarrow> nat \<Rightarrow> nat option \<Rightarrow> bits \<Rightarrow> bool" where
  "served cfg l a b =
     ((case a of None \<Rightarrow> \<not> per_head_quant cfg | Some h \<Rightarrow> per_head_quant cfg)
      \<and> bits_at cfg l a = Inr b)"

text \<open>
  The configuration serves the layer \<open>l\<close>: it has bits for it, or a table of heads that
  is not empty (\<^verbatim>\<open>torch.stack\<close> rejects an empty list).
\<close>

definition ready :: "config \<Rightarrow> nat \<Rightarrow> bool" where
  "ready cfg l =
     (if per_head_quant cfg
      then (case per_head_config cfg l of None \<Rightarrow> False | Some table \<Rightarrow> table \<noteq> [])
      else (case layer_bits cfg l of Inl e \<Rightarrow> False | Inr b \<Rightarrow> True))"

text \<open>
  A call \<open>c\<close> is for the layer \<open>l\<close> and passes the tests of lines 220 to 224: in
  per-head mode its blocks are 4-D and have as many heads as the table.
\<close>

definition fits :: "config \<Rightarrow> nat \<Rightarrow> 'a tensor \<times> 'a tensor \<times> nat \<Rightarrow> bool" where
  "fits cfg l c =
     (snd (snd c) = l
      \<and> (if per_head_quant cfg
          then dim (fst c) = 4 \<and> dim (fst (snd c)) = 4
            \<and> (case per_head_config cfg l of
                  None \<Rightarrow> False
                | Some table \<Rightarrow> n_heads (fst c) = length table \<and> n_heads (fst (snd c)) = length table)
          else True))"

text \<open>
  What a call returns, from what it computed for each address: in per-head mode the
  stack of the histories of the heads (lines 270 and 271).
\<close>

definition joined :: "config \<Rightarrow> nat \<Rightarrow> (nat option \<Rightarrow> 'a tensor) \<Rightarrow> 'a tensor" where
  "joined cfg l f =
     (if per_head_quant cfg
      then (case per_head_config cfg l of
              None \<Rightarrow> zeros0
            | Some table \<Rightarrow> stacked (map (\<lambda>h. f (Some h)) [0..<length table]))
      else f None)"

text \<open>The layer \<open>l\<close> of the cache holds the entry \<open>T a\<close> at every address \<open>a\<close> served.\<close>

definition holds ::
  "config \<Rightarrow> ('a, 'q) cache \<Rightarrow> nat \<Rightarrow> (nat option \<Rightarrow> ('a, 'q) tiers) \<Rightarrow> bool" where
  "holds cfg s l T =
     (if per_head_quant cfg
      then (case per_head_config cfg l of
              None \<Rightarrow> False
            | Some table \<Rightarrow> heads_entry s l (length table) (\<lambda>h. T (Some h)))
      else tiers_at s l None = Inr (T None))"

text \<open>The blocks that a sequence of calls brings to an address.\<close>

definition blocks_at ::
  "('a tensor \<times> 'a tensor \<times> nat) list \<Rightarrow> nat option \<Rightarrow> ('a tensor \<times> 'a tensor) list" where
  "blocks_at calls a = map (\<lambda>c. (block_at (fst c) a, block_at (fst (snd c)) a)) calls"

section \<open>Merges\<close>

text \<open>
  The full history of an entry at a call: the concatenation of lines 199 to 205 when the
  entry exists, the incoming block when the call makes the entry.
\<close>

definition full_history ::
  "('a, 'q) backend \<Rightarrow> ('a, 'q) cache \<Rightarrow> nat \<Rightarrow> nat option \<Rightarrow> 'a tensor \<Rightarrow> 'a tensor
   \<Rightarrow> 'a tensor \<times> 'a tensor" where
  "full_history be s l a k v =
     (case tiers_at s l a of
        Inl e \<Rightarrow> (block_at k a, block_at v a)
      | Inr t \<Rightarrow> next_history be (block_at k a) (block_at v a) t)"

text \<open>
  What a merge leaves behind in an entry: both quantized tiers are the quantization of
  the full history of the call, and both residuals are the empty placeholder.
\<close>

definition merged_at ::
  "config \<Rightarrow> ('a, 'q) backend \<Rightarrow> nat \<Rightarrow> nat option \<Rightarrow> 'a tensor \<Rightarrow> 'a tensor
   \<Rightarrow> ('a, 'q) cache \<Rightarrow> ('a, 'q) cache \<Rightarrow> bool" where
  "merged_at cfg be l a k v s s' =
     (case bits_at cfg l a of
        Inl e \<Rightarrow> False
      | Inr b \<Rightarrow>
          tiers_at s' l a =
            Inr \<lparr>q_key = quantize be (fst (full_history be s l a k v)) (axis_key cfg) (bits_key b),
                 q_value = quantize be (snd (full_history be s l a k v)) (axis_value cfg) (bits_value b),
                 r_key = zeros0, r_value = zeros0\<rparr>)"

text \<open>For each call of a sequence that returns, whether it left a merge behind at an address.\<close>

fun merge_log_at ::
  "config \<Rightarrow> ('a, 'q) backend \<Rightarrow> nat option \<Rightarrow> ('a tensor \<times> 'a tensor \<times> nat) list
   \<Rightarrow> ('a, 'q) cache \<Rightarrow> bool list" where
  "merge_log_at cfg be a [] s = []"
| "merge_log_at cfg be a (c # cs) s =
     (case update cfg be (fst c) (fst (snd c)) (snd (snd c)) s of
        (Inl e, s') \<Rightarrow> []
      | (Inr r, s') \<Rightarrow>
          merged_at cfg be (snd (snd c)) a (fst c) (fst (snd c)) s s' # merge_log_at cfg be a cs s')"

section \<open>A backend and configurations to evaluate the model on\<close>

text \<open>
  A lossy codec on integer cells: quantizing halves a cell and rounds down,
  dequantizing doubles it, and shape and order are kept. The configuration is the
  global mode with 4 bits for keys and values; the residual length and \<^verbatim>\<open>force_quant\<close>
  are left open.
\<close>

definition halving :: "(int, int tensor) backend" where
  "halving =
     \<lparr>quantize = (\<lambda>t axis nbits. Tensor (dim t) (n_heads t) (map (map (\<lambda>x. x div 2)) (rows t))),
      dequantize = (\<lambda>q. Tensor (dim q) (n_heads q) (map (map (\<lambda>x. 2 * x)) (rows q)))\<rparr>"

definition global_config :: "int \<Rightarrow> bool \<Rightarrow> config" where
  "global_config R f =
     \<lparr>nbits = 4, nbits_key = 4, nbits_value = 4, residual_length = R,
      axis_key = 0, axis_value = 0, force_quant = f,
      per_layer_quant = False, per_layer_config = Map.empty,
      per_head_quant = False, per_head_config = Map.empty\<rparr>"

text \<open>Per-head mode with two heads configured for layer 0.\<close>

definition two_heads_config :: "int \<Rightarrow> bool \<Rightarrow> config" where
  "two_heads_config R f =
     (global_config R f)\<lparr>per_head_quant := True,
        per_head_config := [0 \<mapsto> [\<lparr>bits_key = 4, bits_value = 4\<rparr>, \<lparr>bits_key = 2, bits_value = 2\<rparr>]]\<rparr>"

text \<open>A 4-D block with one head, given by the cell of each position.\<close>

definition block :: "int list \<Rightarrow> int tensor" where
  "block xs = Tensor 4 1 (map (\<lambda>x. [x]) xs)"

text \<open>The calls that append the cells \<open>xs\<close> one position at a time at layer \<open>l\<close>.\<close>

definition one_by_one :: "nat \<Rightarrow> int list \<Rightarrow> (int tensor \<times> int tensor \<times> nat) list" where
  "one_by_one l xs = map (\<lambda>x. (block [x], block [x + 100], l)) xs"

text \<open>The number of positions the calls of a sequence present at layer 0.\<close>

definition layer0_positions :: "('a tensor \<times> 'a tensor \<times> nat) list \<Rightarrow> int" where
  "layer0_positions calls =
     sum_list (map (\<lambda>c. shape_m2 (fst c)) (filter (\<lambda>c. snd (snd c) = 0) calls))"

text \<open>The number of positions the calls of a sequence present, in their key blocks.\<close>

definition positions :: "('a tensor \<times> 'a tensor \<times> nat) list \<Rightarrow> int" where
  "positions calls = sum_list (map (\<lambda>c. shape_m2 (fst c)) calls)"

text \<open>A 4-D block with two heads, and the calls that append such positions one at a time.\<close>

definition block2 :: "(int \<times> int) list \<Rightarrow> int tensor" where
  "block2 xs = Tensor 4 2 (map (\<lambda>p. [fst p, snd p]) xs)"

definition one_by_one2 :: "nat \<Rightarrow> (int \<times> int) list \<Rightarrow> (int tensor \<times> int tensor \<times> nat) list" where
  "one_by_one2 l xs = map (\<lambda>p. (block2 [p], block2 [(fst p + 100, snd p + 100)], l)) xs"

section \<open>The contract of a codec\<close>

text \<open>
  The specification asks of every backend that \<^verbatim>\<open>dequantize(quantize(x))\<close> approximates
  \<open>x\<close> and keeps shape and order of the positions. With \<open>approx\<close> relating a position
  to what the codec may make of it: the reconstruction has the rows of the input, each
  approximated, in the same order.
\<close>

definition keeps_positions ::
  "('a, 'q) backend \<Rightarrow> ('a list \<Rightarrow> 'a list \<Rightarrow> bool) \<Rightarrow> bool" where
  "keeps_positions be approx =
     (\<forall>t axis nbits. list_all2 approx (rows t) (rows (dequantize be (quantize be t axis nbits))))"

text \<open>
  The two tiers \<open>q\<close> and \<open>r\<close> of an entry hold the positions \<open>ps\<close>: the residual holds
  the latest ones as they were given, and the quantized tier holds the older ones, in
  order, each within the loss of the codec.
\<close>

definition covers ::
  "('a list \<Rightarrow> 'a list \<Rightarrow> bool) \<Rightarrow> ('a, 'q) backend \<Rightarrow> 'a list list \<Rightarrow> 'q \<Rightarrow> 'a tensor \<Rightarrow> bool" where
  "covers approx be ps q r =
     (\<exists>old. ps = old @ rows r \<and> list_all2 approx old (rows (dequantize be q)))"

text \<open>What \<open>halving\<close> may make of a row: each cell is kept or rounded down to an even number.\<close>

definition near :: "int list \<Rightarrow> int list \<Rightarrow> bool" where
  "near xs ys = list_all2 (\<lambda>x y. y = x \<or> y = 2 * (x div 2)) xs ys"

section \<open>The counter of seen tokens\<close>

text \<open>Nothing but the first statement of \<^verbatim>\<open>update\<close> assigns \<^verbatim>\<open>_seen_tokens\<close>.\<close>

lemma and_then_keeps:
  assumes "\<And>s. seen_tokens (snd (m s)) = seen_tokens s"
    and "\<And>x s. seen_tokens (snd (f x s)) = seen_tokens s"
  shows "seen_tokens (snd (and_then m f s)) = seen_tokens s"
proof (cases "m s")
  case (Pair r s')
  with assms(1)[of s] have s': "seen_tokens s' = seen_tokens s" by simp
  show ?thesis
  proof (cases r)
    case (Inl e)
    with Pair s' show ?thesis by (simp add: and_then_def)
  next
    case (Inr x)
    with Pair s' assms(2)[of x s'] show ?thesis by (simp add: and_then_def)
  qed
qed

lemma done_with_keeps: "seen_tokens (snd (done_with x s)) = seen_tokens s"
  by (simp add: done_with_def)

lemma raise_keeps: "seen_tokens (snd (raise e s)) = seen_tokens s"
  by (simp add: raise_def)

lemma lift_keeps: "seen_tokens (snd (lift r s)) = seen_tokens s"
  by (cases r) (simp_all add: lift_def raise_def done_with_def)

lemma reading_keeps: "seen_tokens (snd (reading f s)) = seen_tokens s"
  by (simp add: reading_def)

lemma fetch_keeps: "seen_tokens (snd (fetch field f s)) = seen_tokens s"
  unfolding fetch_def by (intro and_then_keeps reading_keeps lift_keeps)

lemma writing_keeps:
  "(\<And>s. seen_tokens (g s) = seen_tokens s) \<Longrightarrow> seen_tokens (snd (writing g s)) = seen_tokens s"
  by (simp add: writing_def)

lemma on_keeps:
  "seen_tokens (snd (on_key_cache f s)) = seen_tokens s"
  "seen_tokens (snd (on_value_cache f' s)) = seen_tokens s"
  "seen_tokens (snd (on_quantized_key_cache g s)) = seen_tokens s"
  "seen_tokens (snd (on_quantized_value_cache g' s)) = seen_tokens s"
  unfolding on_key_cache_def on_value_cache_def on_quantized_key_cache_def
    on_quantized_value_cache_def
  by (intro and_then_keeps fetch_keeps writing_keeps; simp)+

lemmas keeps =
  and_then_keeps done_with_keeps raise_keeps lift_keeps reading_keeps fetch_keeps on_keeps

lemma first_layer_keeps:
  "seen_tokens (snd (first_layer cfg be b k v l s)) = seen_tokens s"
  unfolding first_layer_def Let_def
  by (auto intro!: keeps writing_keeps)

lemma next_layer_keeps:
  "seen_tokens (snd (next_layer cfg be b k v l s)) = seen_tokens s"
  unfolding next_layer_def Let_def
  by (auto intro!: keeps writing_keeps)

lemma update_layer_keeps:
  "seen_tokens (snd (update_layer cfg be k v l s)) = seen_tokens s"
  unfolding update_layer_def
  by (auto intro!: keeps first_layer_keeps next_layer_keeps)

lemma first_head_keeps:
  "seen_tokens (snd (first_head cfg be k v l h c s)) = seen_tokens s"
  unfolding first_head_def Let_def
  by (auto intro!: keeps)

lemma next_head_keeps:
  "seen_tokens (snd (next_head cfg be k v l h c acc s)) = seen_tokens s"
  unfolding next_head_def Let_def
  by (auto intro!: keeps)

lemma first_heads_keeps:
  "seen_tokens (snd (first_heads cfg be k v l todo acc s)) = seen_tokens s"
  by (induction todo arbitrary: acc s) (auto intro!: keeps first_head_keeps)

lemma next_heads_keeps:
  "seen_tokens (snd (next_heads cfg be k v l todo acc s)) = seen_tokens s"
  by (induction todo arbitrary: acc s) (auto intro!: keeps next_head_keeps)

lemma update_heads_keeps:
  "seen_tokens (snd (update_heads cfg be k v l s)) = seen_tokens s"
  unfolding update_heads_def
  by (auto intro!: keeps writing_keeps first_heads_keeps next_heads_keeps)

section \<open>Running the statements of \<^verbatim>\<open>update\<close>\<close>

lemmas run_defs = and_then_def done_with_def raise_def reading_def writing_def lift_def fetch_def

lemma counted_fields [simp]:
  "key_cache (counted l k s) = key_cache s"
  "value_cache (counted l k s) = value_cache s"
  "quantized_key_cache (counted l k s) = quantized_key_cache s"
  "quantized_value_cache (counted l k s) = quantized_value_cache s"
  by (simp_all add: counted_def)

lemma seen_tokens_counted:
  "seen_tokens (counted l k s) = (if l = 0 then seen_tokens s + shape_m2 k else seen_tokens s)"
  by (simp add: counted_def)

lemma update_counted:
  "update cfg be k v l s =
     (if length (key_cache s) < l then (Inl SequentialAccessError, counted l k s)
      else if \<not> per_head_quant cfg then update_layer cfg be k v l (counted l k s)
      else update_heads cfg be k v l (counted l k s))"
  by (simp add: update_def run_defs)

lemma layer_item_append_last [simp]:
  "length xs = l \<Longrightarrow> layer_item (xs @ [Layer x]) l = Inr x"
  by (auto simp: layer_item_def item_def)

lemma layer_item_update [simp]:
  "l < length xs \<Longrightarrow> layer_item (xs[l := Layer x]) l = Inr x"
  by (simp add: layer_item_def item_def)

lemma layer_item_less: "layer_item xs l = Inr x \<Longrightarrow> l < length xs"
  by (simp add: layer_item_def item_def split: if_splits)

lemma update_first_plain:
  assumes "\<not> per_head_quant cfg" "\<not> force_quant cfg" "layer_bits cfg l = Inr b"
    "length (key_cache s) = l"
  shows "update cfg be k v l s =
    (Inr (k, v),
     (counted l k s)\<lparr>
       quantized_key_cache := quantized_key_cache s @ [Layer (quantize be k (axis_key cfg) (bits_key b))],
       quantized_value_cache := quantized_value_cache s @ [Layer (quantize be v (axis_value cfg) (bits_value b))],
       key_cache := key_cache s @ [Layer zeros0],
       value_cache := value_cache s @ [Layer zeros0]\<rparr>)"
  using assms by (simp add: update_counted update_layer_def first_layer_def run_defs)

lemma update_first_force:
  assumes "\<not> per_head_quant cfg" "force_quant cfg" "residual_length cfg \<noteq> 0"
    "layer_bits cfg l = Inr b" "aligned s" "length (key_cache s) = l"
  shows "update cfg be k v l s =
    (Inr (cat_m2 [dequantize be (quantize be (slice_to k (- (shape_m2 k mod residual_length cfg)))
                    (axis_key cfg) (bits_key b)),
                  slice_from k (- (shape_m2 k mod residual_length cfg))],
          cat_m2 [dequantize be (quantize be (slice_to v (- (shape_m2 k mod residual_length cfg)))
                    (axis_value cfg) (bits_value b)),
                  slice_from v (- (shape_m2 k mod residual_length cfg))]),
     (counted l k s)\<lparr>
       quantized_key_cache := quantized_key_cache s @
         [Layer (quantize be (slice_to k (- (shape_m2 k mod residual_length cfg))) (axis_key cfg) (bits_key b))],
       quantized_value_cache := quantized_value_cache s @
         [Layer (quantize be (slice_to v (- (shape_m2 k mod residual_length cfg))) (axis_value cfg) (bits_value b))],
       key_cache := key_cache s @ [Layer (slice_from k (- (shape_m2 k mod residual_length cfg)))],
       value_cache := value_cache s @ [Layer (slice_from v (- (shape_m2 k mod residual_length cfg)))]\<rparr>)"
  using assms
  by (simp add: update_counted update_layer_def first_layer_def run_defs aligned_def Let_def)

lemma update_first_force0:
  assumes "\<not> per_head_quant cfg" "force_quant cfg" "residual_length cfg = 0"
    "layer_bits cfg l = Inr b" "aligned s" "length (key_cache s) = l"
  shows "update cfg be k v l s =
    (Inr (cat_m2 [dequantize be (quantize be k (axis_key cfg) (bits_key b)), zeros0],
          cat_m2 [dequantize be (quantize be v (axis_value cfg) (bits_value b)), zeros0]),
     (counted l k s)\<lparr>
       quantized_key_cache := quantized_key_cache s @ [Layer (quantize be k (axis_key cfg) (bits_key b))],
       quantized_value_cache := quantized_value_cache s @ [Layer (quantize be v (axis_value cfg) (bits_value b))],
       key_cache := key_cache s @ [Layer zeros0],
       value_cache := value_cache s @ [Layer zeros0]\<rparr>)"
  using assms
  by (simp add: update_counted update_layer_def first_layer_def run_defs aligned_def Let_def)

lemma update_next:
  assumes "\<not> per_head_quant cfg" "layer_bits cfg l = Inr b" "entry s l qk qv rk rv"
  shows "update cfg be k v l s =
    (Inr (cat_m2 [dequantize be qk, rk, k], cat_m2 [dequantize be qv, rv, v]),
     if merge_due 4 cfg rk then
       (counted l k s)\<lparr>
         quantized_key_cache := (quantized_key_cache s)
           [l := Layer (quantize be (cat_m2 [dequantize be qk, rk, k]) (axis_key cfg) (bits_key b))],
         quantized_value_cache := (quantized_value_cache s)
           [l := Layer (quantize be (cat_m2 [dequantize be qv, rv, v]) (axis_value cfg) (bits_value b))],
         key_cache := (key_cache s)[l := Layer zeros0],
         value_cache := (value_cache s)[l := Layer zeros0]\<rparr>
     else
       (counted l k s)\<lparr>
         key_cache := (key_cache s)[l := Layer (cat_m2 [rk, k])],
         value_cache := (value_cache s)[l := Layer (cat_m2 [rv, v])]\<rparr>)"
proof -
  from assms(3) have lt: "l < length (key_cache s)"
    by (auto simp: entry_def dest: layer_item_less)
  with assms show ?thesis
    by (simp add: update_counted update_layer_def next_layer_def run_defs entry_def Let_def)
qed

text \<open>The entry of the layer after the call.\<close>

lemma next_entry:
  assumes "\<not> per_head_quant cfg" "layer_bits cfg l = Inr b" "entry s l qk qv rk rv"
  shows "fst (update cfg be k v l s)
           = Inr (cat_m2 [dequantize be qk, rk, k], cat_m2 [dequantize be qv, rv, v])"
    and "merge_due 4 cfg rk \<Longrightarrow> entry (snd (update cfg be k v l s)) l
           (quantize be (cat_m2 [dequantize be qk, rk, k]) (axis_key cfg) (bits_key b))
           (quantize be (cat_m2 [dequantize be qv, rv, v]) (axis_value cfg) (bits_value b))
           zeros0 zeros0"
    and "\<not> merge_due 4 cfg rk \<Longrightarrow> entry (snd (update cfg be k v l s)) l
           qk qv (cat_m2 [rk, k]) (cat_m2 [rv, v])"
proof -
  from assms(3) have lt: "l < length (key_cache s)" "l < length (value_cache s)"
    "l < length (quantized_key_cache s)" "l < length (quantized_value_cache s)"
    by (auto simp: entry_def dest: layer_item_less)
  note u = update_next [OF assms, of be k v]
  show "fst (update cfg be k v l s)
           = Inr (cat_m2 [dequantize be qk, rk, k], cat_m2 [dequantize be qv, rv, v])"
    by (simp add: u)
  show "merge_due 4 cfg rk \<Longrightarrow> entry (snd (update cfg be k v l s)) l
           (quantize be (cat_m2 [dequantize be qk, rk, k]) (axis_key cfg) (bits_key b))
           (quantize be (cat_m2 [dequantize be qv, rv, v]) (axis_value cfg) (bits_value b))
           zeros0 zeros0"
    using lt by (simp add: u merge_due_def entry_def)
  show "\<not> merge_due 4 cfg rk \<Longrightarrow> entry (snd (update cfg be k v l s)) l
           qk qv (cat_m2 [rk, k]) (cat_m2 [rv, v])"
    using lt assms(3) by (auto simp add: u merge_due_def entry_def)
qed

lemma first_entry_plain:
  assumes "\<not> per_head_quant cfg" "\<not> force_quant cfg" "layer_bits cfg l = Inr b"
    "aligned s" "length (key_cache s) = l"
  shows "fst (update cfg be k v l s) = Inr (k, v)"
    and "entry (snd (update cfg be k v l s)) l
           (quantize be k (axis_key cfg) (bits_key b)) (quantize be v (axis_value cfg) (bits_value b))
           zeros0 zeros0"
  using assms(4,5) by (simp_all add: update_first_plain [OF assms(1,2,3,5)] entry_def aligned_def)

lemma first_entry_force:
  assumes "\<not> per_head_quant cfg" "force_quant cfg" "residual_length cfg \<noteq> 0"
    "layer_bits cfg l = Inr b" "aligned s" "length (key_cache s) = l"
  shows "fst (update cfg be k v l s) =
    Inr (cat_m2 [dequantize be (quantize be (slice_to k (- (shape_m2 k mod residual_length cfg)))
                    (axis_key cfg) (bits_key b)),
                  slice_from k (- (shape_m2 k mod residual_length cfg))],
          cat_m2 [dequantize be (quantize be (slice_to v (- (shape_m2 k mod residual_length cfg)))
                    (axis_value cfg) (bits_value b)),
                  slice_from v (- (shape_m2 k mod residual_length cfg))])"
    and "entry (snd (update cfg be k v l s)) l
       (quantize be (slice_to k (- (shape_m2 k mod residual_length cfg))) (axis_key cfg) (bits_key b))
       (quantize be (slice_to v (- (shape_m2 k mod residual_length cfg))) (axis_value cfg) (bits_value b))
       (slice_from k (- (shape_m2 k mod residual_length cfg)))
       (slice_from v (- (shape_m2 k mod residual_length cfg)))"
  using assms(5,6) by (simp_all add: update_first_force [OF assms] entry_def aligned_def)

lemma first_entry_force0:
  assumes "\<not> per_head_quant cfg" "force_quant cfg" "residual_length cfg = 0"
    "layer_bits cfg l = Inr b" "aligned s" "length (key_cache s) = l"
  shows "fst (update cfg be k v l s) =
    Inr (cat_m2 [dequantize be (quantize be k (axis_key cfg) (bits_key b)), zeros0],
          cat_m2 [dequantize be (quantize be v (axis_value cfg) (bits_value b)), zeros0])"
    and "entry (snd (update cfg be k v l s)) l
           (quantize be k (axis_key cfg) (bits_key b)) (quantize be v (axis_value cfg) (bits_value b))
           zeros0 zeros0"
  using assms(5,6) by (simp_all add: update_first_force0 [OF assms] entry_def aligned_def)

lemma rows_cat_m2: "rows (cat_m2 ts) = concat (map rows ts)"
proof -
  have "concat (map rows (filter (\<lambda>t. \<not> skipped t) ts)) = concat (map rows ts)"
    by (induction ts) (auto simp: skipped_def)
  then show ?thesis
    by (auto simp: cat_m2_def zeros0_def split: list.splits)
qed

lemma skipped_zeros0 [simp]: "skipped zeros0"
  by (simp add: skipped_def zeros0_def)

lemma dim_zeros0 [simp]: "dim zeros0 = 1" and rows_zeros0 [simp]: "rows zeros0 = []"
  by (simp_all add: zeros0_def)

lemma slice_from_last_of_one:
  "length (rows k) = 1 \<Longrightarrow> slice_from k (- 1) = k"
  by (cases k) (simp add: slice_from_def slice_index_def)

lemma slice_index_back:
  "0 < t \<Longrightarrow> t \<le> int n \<Longrightarrow> slice_index (- t) n = n - nat t"
  by (auto simp: slice_index_def)

lemma slice_back:
  assumes "0 < t" "t \<le> int (length (rows x))"
  shows "slice_to x (- t) = Tensor (dim x) (n_heads x) (take (length (rows x) - nat t) (rows x))"
    and "slice_from x (- t) = Tensor (dim x) (n_heads x) (drop (length (rows x) - nat t) (rows x))"
  using assms by (simp_all add: slice_to_def slice_from_def slice_index_back)

lemma update_seen_tokens:
  "seen_tokens (snd (update cfg be k v l s))
     = seen_tokens s + (if l = 0 then shape_m2 k else 0)"
  by (simp add: update_counted seen_tokens_counted update_layer_keeps update_heads_keeps)

lemma updates_seen_tokens:
  "updates cfg be calls s = (Inr rs, s') \<Longrightarrow>
   seen_tokens s' = seen_tokens s + layer0_positions calls"
proof (induction calls arbitrary: s rs)
  case Nil
  then show ?case by (simp add: done_with_def layer0_positions_def)
next
  case (Cons c cs)
  obtain r1 s1 where u: "update cfg be (fst c) (fst (snd c)) (snd (snd c)) s = (r1, s1)"
    by (cases "update cfg be (fst c) (fst (snd c)) (snd (snd c)) s")
  with Cons.prems obtain x rs' where r1: "r1 = Inr x" and rest: "updates cfg be cs s1 = (Inr rs', s')"
    by (auto simp: and_then_def done_with_def split: sum.splits prod.splits)
  have "seen_tokens s1 = seen_tokens s + (if snd (snd c) = 0 then shape_m2 (fst c) else 0)"
    using update_seen_tokens [of cfg be "fst c" "fst (snd c)" "snd (snd c)" s] u by simp
  with Cons.IH [OF rest] show ?case
    by (simp add: layer0_positions_def)
qed

section \<open>The positions held by an entry\<close>

lemma rows_slices: "rows (slice_to x i) @ rows (slice_from x i) = rows x"
  by (simp add: slice_to_def slice_from_def)

lemma list_all2_reflp: "reflp approx \<Longrightarrow> list_all2 approx xs xs"
  by (simp add: list_all2_same reflp_def)

lemma covers_first:
  "keeps_positions be approx \<Longrightarrow> covers approx be (rows x) (quantize be x ax nb) zeros0"
  by (simp add: covers_def keeps_positions_def)

lemma covers_first_sliced:
  "keeps_positions be approx \<Longrightarrow>
   covers approx be (rows x) (quantize be (slice_to x i) ax nb) (slice_from x i)"
  unfolding covers_def keeps_positions_def
  by (rule exI [of _ "rows (slice_to x i)"]) (simp add: rows_slices)

lemma covers_history:
  assumes "covers approx be ps q r" "reflp approx"
  shows "list_all2 approx (ps @ rows x) (rows (cat_m2 [dequantize be q, r, x]))"
proof -
  from assms(1) obtain old where ps: "ps = old @ rows r"
    and old: "list_all2 approx old (rows (dequantize be q))"
    by (auto simp: covers_def)
  have "list_all2 approx (old @ (rows r @ rows x)) (rows (dequantize be q) @ (rows r @ rows x))"
    using old list_all2_reflp [OF assms(2)] by (rule list_all2_appendI)
  then show ?thesis by (simp add: ps rows_cat_m2)
qed

lemma covers_history_first:
  assumes "covers approx be ps q r" "reflp approx"
  shows "list_all2 approx ps (rows (cat_m2 [dequantize be q, r]))"
proof -
  from assms(1) obtain old where ps: "ps = old @ rows r"
    and old: "list_all2 approx old (rows (dequantize be q))"
    by (auto simp: covers_def)
  have "list_all2 approx (old @ rows r) (rows (dequantize be q) @ rows r)"
    using old list_all2_reflp [OF assms(2)] by (rule list_all2_appendI)
  then show ?thesis by (simp add: ps rows_cat_m2)
qed

lemma covers_merge:
  assumes "keeps_positions be approx" "transp approx" "list_all2 approx ps (rows h)"
  shows "covers approx be ps (quantize be h ax nb) zeros0"
proof -
  have "list_all2 approx (rows h) (rows (dequantize be (quantize be h ax nb)))"
    using assms(1) by (simp add: keeps_positions_def)
  with assms(3) have "list_all2 approx ps (rows (dequantize be (quantize be h ax nb)))"
    by (rule list_all2_trans [rotated 1]) (use assms(2) in \<open>auto dest: transpD\<close>)
  then show ?thesis by (simp add: covers_def)
qed

lemma covers_grow:
  "covers approx be ps q r \<Longrightarrow> covers approx be (ps @ rows x) q (cat_m2 [r, x])"
  by (auto simp: covers_def rows_cat_m2)

lemma positions_Cons: "positions (c # cs) = shape_m2 (fst c) + positions cs"
  by (simp add: positions_def)

lemma near_refl: "reflp near"
  by (simp add: reflp_def near_def list_all2_same)

lemma near_trans: "transp near"
proof (rule transpI)
  fix xs ys zs :: "int list"
  assume "near xs ys" "near ys zs"
  then show "near xs zs"
    unfolding near_def by (rule list_all2_trans [rotated 1]) auto
qed

lemma halving_keeps_positions: "keeps_positions halving near"
  by (simp add: keeps_positions_def halving_def near_def list_all2_map2 list_all2_same)

section \<open>Per-head mode, head by head\<close>

lemma select_head_of: "h < n_heads t \<Longrightarrow> select_head t h = Inr (head_of t h)"
  by (simp add: select_head_def head_of_def)

lemma and_then_Inr: "m s = (Inr x, s') \<Longrightarrow> and_then m f s = f x s'"
  by (simp add: and_then_def)

lemma and_then_Inl: "m s = (Inl e, s') \<Longrightarrow> and_then m f s = (Inl e, s')"
  by (simp add: and_then_def)

lemma fetch_Inr: "f (field s) = Inr x \<Longrightarrow> fetch field f s = (Inr x, s)"
  by (simp add: run_defs)

lemma lift_Inr: "lift (Inr x) s = (Inr x, s)"
  by (simp add: run_defs)

lemma on_Inr:
  "f (key_cache s) = Inr ys \<Longrightarrow> on_key_cache f s = (Inr (), s\<lparr>key_cache := ys\<rparr>)"
  "f' (value_cache s) = Inr ys \<Longrightarrow> on_value_cache f' s = (Inr (), s\<lparr>value_cache := ys\<rparr>)"
  "g (quantized_key_cache s) = Inr zs \<Longrightarrow>
     on_quantized_key_cache g s = (Inr (), s\<lparr>quantized_key_cache := zs\<rparr>)"
  "g' (quantized_value_cache s) = Inr zs \<Longrightarrow>
     on_quantized_value_cache g' s = (Inr (), s\<lparr>quantized_value_cache := zs\<rparr>)"
  by (simp_all add: on_key_cache_def on_value_cache_def on_quantized_key_cache_def
      on_quantized_value_cache_def run_defs)

lemma heads_item_less: "heads_item xs l = Inr hs \<Longrightarrow> l < length xs"
  by (simp add: heads_item_def item_def split: if_splits)

lemma heads_item_append_last: "length xs = l \<Longrightarrow> heads_item (xs @ [Heads hs]) l = Inr hs"
  by (auto simp: heads_item_def item_def)

lemma heads_item_update: "l < length xs \<Longrightarrow> heads_item (xs[l := Heads hs]) l = Inr hs"
  by (simp add: heads_item_def item_def)

lemma head_item_map:
  "heads_item xs l = Inr (map F [0..<n]) \<Longrightarrow> h < n \<Longrightarrow> head_item xs l h = Inr (F h)"
  by (simp add: head_item_def attempt_def item_def)

lemma map_upt_update: "h < n \<Longrightarrow> (map F [0..<n])[h := x] = map (F(h := x)) [0..<n]"
  by (auto simp: list_eq_iff_nth_eq nth_list_update)

lemma set_head_map:
  "heads_item xs l = Inr (map F [0..<n]) \<Longrightarrow> h < n \<Longrightarrow>
   set_head xs l h x = Inr (xs[l := Heads (map (F(h := x)) [0..<n])])"
  by (simp add: set_head_def attempt_def map_upt_update)

text \<open>One turn of the loop of lines 254 to 269, on a layer whose heads hold the tiers \<open>f\<close>.\<close>

lemma next_head_turn:
  assumes e: "heads_entry s l n f" and h: "h < n" "n_heads k = n" "n_heads v = n"
    and acc: "length (fst acc) = h" "length (snd acc) = h"
  shows "\<exists>s'. next_head cfg be k v l h c acc s =
           (Inr (fst acc @ [fst (next_history be (head_of k h) (head_of v h) (f h))],
                 snd acc @ [snd (next_history be (head_of k h) (head_of v h) (f h))]), s')
         \<and> heads_entry s' l n (f(h := next_tiers 3 cfg be c (head_of k h) (head_of v h) (f h)))
         \<and> seen_tokens s' = seen_tokens s"
proof -
  from e have it: "heads_item (quantized_key_cache s) l = Inr (map (\<lambda>h. q_key (f h)) [0..<n])"
    "heads_item (quantized_value_cache s) l = Inr (map (\<lambda>h. q_value (f h)) [0..<n])"
    "heads_item (key_cache s) l = Inr (map (\<lambda>h. r_key (f h)) [0..<n])"
    "heads_item (value_cache s) l = Inr (map (\<lambda>h. r_value (f h)) [0..<n])"
    by (simp_all add: heads_entry_def)
  note lt = it [THEN heads_item_less]
  note rd = it [THEN head_item_map, OF h(1)]
  note wr = it [THEN set_head_map, OF h(1)]
  have sel: "select_head k h = Inr (head_of k h)" "select_head v h = Inr (head_of v h)"
    using h by (simp_all add: select_head_of)
  have last: "\<And>xs x. length xs = h \<Longrightarrow> item (xs @ [x]) h = Inr x"
    by (auto simp: item_def)
  show ?thesis
  proof (cases "merge_due 3 cfg (r_key (f h))")
    case True
    then show ?thesis
      using lt acc
      by (simp add: next_head_def run_defs rd sel Let_def on_key_cache_def on_value_cache_def
          on_quantized_key_cache_def on_quantized_value_cache_def attempt_def last wr
          heads_entry_def heads_item_update next_tiers_def next_history_def it fun_upd_def
          cong: map_cong)
  next
    case False
    then show ?thesis
      using lt acc
      by (simp add: next_head_def run_defs rd sel Let_def on_key_cache_def on_value_cache_def
          on_quantized_key_cache_def on_quantized_value_cache_def attempt_def last wr
          heads_entry_def heads_item_update next_tiers_def next_history_def it fun_upd_def
          cong: map_cong)
  qed
qed

lemma heads_entry_cong:
  "heads_entry s l n f \<Longrightarrow> (\<And>h. h < n \<Longrightarrow> f h = g h) \<Longrightarrow> heads_entry s l n g"
  by (simp add: heads_entry_def cong: map_cong)

lemma next_heads_loop:
  assumes n: "n_heads k = n" "n_heads v = n" "length table = n"
  shows "n - i = m \<Longrightarrow> i \<le> n \<Longrightarrow>
     heads_entry s l n (\<lambda>h. if h < i
        then next_tiers 3 cfg be (table ! h) (head_of k h) (head_of v h) (f h) else f h) \<Longrightarrow>
     length (fst acc) = i \<Longrightarrow> length (snd acc) = i \<Longrightarrow>
     \<exists>s'. next_heads cfg be k v l (enumerate i (drop i table)) acc s =
        (Inr (fst acc @ map (\<lambda>h. fst (next_history be (head_of k h) (head_of v h) (f h))) [i..<n],
              snd acc @ map (\<lambda>h. snd (next_history be (head_of k h) (head_of v h) (f h))) [i..<n]), s')
      \<and> heads_entry s' l n (\<lambda>h. next_tiers 3 cfg be (table ! h) (head_of k h) (head_of v h) (f h))
      \<and> seen_tokens s' = seen_tokens s"
proof (induction m arbitrary: i s acc)
  case 0
  then have i: "i = n" by simp
  have "heads_entry s l n (\<lambda>h. next_tiers 3 cfg be (table ! h) (head_of k h) (head_of v h) (f h))"
    by (rule heads_entry_cong [OF "0.prems"(3)]) (simp add: i)
  then show ?case
    using n by (simp add: i done_with_def)
next
  case (Suc m)
  then have i: "i < n" by simp
  let ?G = "\<lambda>h. next_tiers 3 cfg be (table ! h) (head_of k h) (head_of v h) (f h)"
  let ?H = "\<lambda>h. next_history be (head_of k h) (head_of v h) (f h)"
  let ?f' = "\<lambda>h. if h < i then ?G h else f h"
  have dr: "enumerate i (drop i table) = (i, table ! i) # enumerate (Suc i) (drop (Suc i) table)"
    using i n(3) by (simp add: Cons_nth_drop_Suc [symmetric])
  have ii: "\<And>a b :: ('a, 'b) tiers. (if i < i then a else b) = b" by simp
  from next_head_turn [OF Suc.prems(3) i n(1,2) Suc.prems(4,5), of cfg be "table ! i",
      unfolded ii]
  obtain s1 where t: "next_head cfg be k v l i (table ! i) acc s =
        (Inr (fst acc @ [fst (?H i)], snd acc @ [snd (?H i)]), s1)"
    and e1: "heads_entry s1 l n (?f'(i := ?G i))"
    and st: "seen_tokens s1 = seen_tokens s"
    by blast
  have e1': "heads_entry s1 l n (\<lambda>h. if h < Suc i then ?G h else f h)"
    by (rule heads_entry_cong [OF e1]) (auto simp: less_Suc_eq)
  have m: "n - Suc i = m" "Suc i \<le> n" using Suc.prems(1) i by simp_all
  have ln: "length (fst (fst acc @ [fst (?H i)], snd acc @ [snd (?H i)])) = Suc i"
    "length (snd (fst acc @ [fst (?H i)], snd acc @ [snd (?H i)])) = Suc i"
    using Suc.prems(4,5) by simp_all
  from Suc.IH [OF m e1' ln]
  obtain s' where r: "next_heads cfg be k v l (enumerate (Suc i) (drop (Suc i) table))
        (fst acc @ [fst (?H i)], snd acc @ [snd (?H i)]) s1 =
        (Inr ((fst acc @ [fst (?H i)]) @ map (\<lambda>h. fst (?H h)) [Suc i..<n],
              (snd acc @ [snd (?H i)]) @ map (\<lambda>h. snd (?H h)) [Suc i..<n]), s')"
    and e': "heads_entry s' l n ?G" and st': "seen_tokens s' = seen_tokens s1"
    unfolding fst_conv snd_conv by blast
  have up: "[i..<n] = i # [Suc i..<n]" using i by (simp add: upt_rec)
  show ?case
    using t r e' st st' by (simp add: dr and_then_Inr up)
qed

lemma shape_m2_head_of [simp]: "shape_m2 (head_of t h) = shape_m2 t"
  by (simp add: shape_m2_def head_of_def)

lemma push_head_Inr:
  "heads_item xs l = Inr hs \<Longrightarrow> push_head xs l (Inr x) = Inr (xs[l := Heads (hs @ [x])])"
  by (simp add: push_head_def attempt_def)

lemma last_head_pushed:
  "l < length xs \<Longrightarrow> last_head (xs[l := Heads (hs @ [x])]) l = Inr x"
  by (simp add: last_head_def attempt_def heads_item_update)

lemma stack_heads_stacked: "ts \<noteq> [] \<Longrightarrow> stack_heads ts = Inr (stacked ts)"
  by (cases ts) (simp_all add: stack_heads_def stacked_def)

text \<open>One turn of the loop of lines 231 to 252, on a layer whose first \<open>h\<close> heads are in.\<close>

lemma first_head_turn:
  assumes e: "heads_entry s l h f" and h: "h < n_heads k" "h < n_heads v"
  shows "\<exists>s'. first_head cfg be k v l h c s =
           (Inr (first_history cfg be (head_of k h) (head_of v h)
                   (first_tiers cfg be c (head_of k h) (head_of v h))), s')
         \<and> heads_entry s' l (Suc h) (f(h := first_tiers cfg be c (head_of k h) (head_of v h)))
         \<and> seen_tokens s' = seen_tokens s"
proof -
  from e have it: "heads_item (quantized_key_cache s) l = Inr (map (\<lambda>h. q_key (f h)) [0..<h])"
    "heads_item (quantized_value_cache s) l = Inr (map (\<lambda>h. q_value (f h)) [0..<h])"
    "heads_item (key_cache s) l = Inr (map (\<lambda>h. r_key (f h)) [0..<h])"
    "heads_item (value_cache s) l = Inr (map (\<lambda>h. r_value (f h)) [0..<h])"
    by (simp_all add: heads_entry_def)
  note lt = it [THEN heads_item_less]
  note wr = it [THEN push_head_Inr]
  have sel: "select_head k h = Inr (head_of k h)" "select_head v h = Inr (head_of v h)"
    using h by (simp_all add: select_head_of)
  show ?thesis
    using lt
    by (simp add: first_head_def run_defs sel Let_def on_key_cache_def on_value_cache_def
        on_quantized_key_cache_def on_quantized_value_cache_def attempt_def wr last_head_pushed
        heads_entry_def heads_item_update first_tiers_def first_history_def
        cong: map_cong)
qed

lemma first_heads_loop:
  assumes n: "n_heads k = n" "n_heads v = n" "length table = n"
  shows "n - i = m \<Longrightarrow> i \<le> n \<Longrightarrow>
     heads_entry s l i (\<lambda>h. first_tiers cfg be (table ! h) (head_of k h) (head_of v h)) \<Longrightarrow>
     \<exists>s'. first_heads cfg be k v l (enumerate i (drop i table)) acc s =
        (Inr (fst acc @ map (\<lambda>h. fst (first_history cfg be (head_of k h) (head_of v h)
                 (first_tiers cfg be (table ! h) (head_of k h) (head_of v h)))) [i..<n],
              snd acc @ map (\<lambda>h. snd (first_history cfg be (head_of k h) (head_of v h)
                 (first_tiers cfg be (table ! h) (head_of k h) (head_of v h)))) [i..<n]), s')
      \<and> heads_entry s' l n (\<lambda>h. first_tiers cfg be (table ! h) (head_of k h) (head_of v h))
      \<and> seen_tokens s' = seen_tokens s"
proof (induction m arbitrary: i s acc)
  case 0
  then have i: "i = n" by simp
  with "0.prems"(3) n show ?case by (simp add: done_with_def)
next
  case (Suc m)
  then have i: "i < n" by simp
  let ?G = "\<lambda>h. first_tiers cfg be (table ! h) (head_of k h) (head_of v h)"
  let ?H = "\<lambda>h. first_history cfg be (head_of k h) (head_of v h) (?G h)"
  have dr: "enumerate i (drop i table) = (i, table ! i) # enumerate (Suc i) (drop (Suc i) table)"
    using i n(3) by (simp add: Cons_nth_drop_Suc [symmetric])
  have hk: "i < n_heads k" "i < n_heads v" using i n by simp_all
  from first_head_turn [OF Suc.prems(3) hk, of cfg be "table ! i"]
  obtain s1 where t: "first_head cfg be k v l i (table ! i) s = (Inr (?H i), s1)"
    and e1: "heads_entry s1 l (Suc i) (?G(i := ?G i))"
    and st: "seen_tokens s1 = seen_tokens s"
    by blast
  have e1': "heads_entry s1 l (Suc i) ?G"
    by (rule heads_entry_cong [OF e1]) simp
  have m: "n - Suc i = m" "Suc i \<le> n" using Suc.prems(1) i by simp_all
  from Suc.IH [OF m e1', of "(fst acc @ [fst (?H i)], snd acc @ [snd (?H i)])"]
  obtain s' where r: "first_heads cfg be k v l (enumerate (Suc i) (drop (Suc i) table))
        (fst acc @ [fst (?H i)], snd acc @ [snd (?H i)]) s1 =
        (Inr ((fst acc @ [fst (?H i)]) @ map (\<lambda>h. fst (?H h)) [Suc i..<n],
              (snd acc @ [snd (?H i)]) @ map (\<lambda>h. snd (?H h)) [Suc i..<n]), s')"
    and e': "heads_entry s' l n ?G" and st': "seen_tokens s' = seen_tokens s1"
    unfolding fst_conv snd_conv by blast
  have up: "[i..<n] = i # [Suc i..<n]" using i by (simp add: upt_rec)
  show ?case
    using t r e' st st' by (simp add: dr and_then_Inr up)
qed

text \<open>A whole call in per-head mode, for a layer with per-head entries and for a new layer.\<close>

lemma heads_next_update:
  assumes g: "per_head_quant cfg" "per_head_config cfg l = Some table" "table \<noteq> []"
    and k: "dim k = 4" "dim v = 4" "n_heads k = length table" "n_heads v = length table"
    and e: "heads_entry s l (length table) f"
  shows "\<exists>s'. update cfg be k v l s =
        (Inr (stacked (map (\<lambda>h. fst (next_history be (head_of k h) (head_of v h) (f h)))
                 [0..<length table]),
              stacked (map (\<lambda>h. snd (next_history be (head_of k h) (head_of v h) (f h)))
                 [0..<length table])), s')
      \<and> heads_entry s' l (length table)
           (\<lambda>h. next_tiers 3 cfg be (table ! h) (head_of k h) (head_of v h) (f h))
      \<and> seen_tokens s' = seen_tokens s + (if l = 0 then shape_m2 k else 0)"
proof -
  let ?n = "length table"
  let ?s0 = "counted l k s"
  have lt: "l < length (key_cache s)"
    using e by (auto simp: heads_entry_def dest: heads_item_less)
  have e0: "heads_entry ?s0 l ?n (\<lambda>h. if h < 0
      then next_tiers 3 cfg be (table ! h) (head_of k h) (head_of v h) (f h) else f h)"
    using e by (simp add: heads_entry_def)
  from next_heads_loop [OF k(3,4) refl, of 0 ?n ?s0 l cfg be f "([], [])"] e0
  obtain s' where r: "next_heads cfg be k v l (enumerate 0 table) ([], []) ?s0 =
        (Inr (map (\<lambda>h. fst (next_history be (head_of k h) (head_of v h) (f h))) [0..<?n],
              map (\<lambda>h. snd (next_history be (head_of k h) (head_of v h) (f h))) [0..<?n]), s')"
    and e': "heads_entry s' l ?n
        (\<lambda>h. next_tiers 3 cfg be (table ! h) (head_of k h) (head_of v h) (f h))"
    and st: "seen_tokens s' = seen_tokens ?s0"
    by auto
  have ne: "map (\<lambda>h. fst (next_history be (head_of k h) (head_of v h) (f h))) [0..<?n] \<noteq> []"
    "map (\<lambda>h. snd (next_history be (head_of k h) (head_of v h) (f h))) [0..<?n] \<noteq> []"
    using g(3) by simp_all
  have "update cfg be k v l s =
        (Inr (stacked (map (\<lambda>h. fst (next_history be (head_of k h) (head_of v h) (f h))) [0..<?n]),
              stacked (map (\<lambda>h. snd (next_history be (head_of k h) (head_of v h) (f h))) [0..<?n])),
         s')"
    using g k lt r ne
    by (simp add: update_counted update_heads_def run_defs stack_heads_stacked)
  with e' st show ?thesis
    by (simp add: seen_tokens_counted)
qed

lemma heads_first_update:
  assumes g: "per_head_quant cfg" "per_head_config cfg l = Some table" "table \<noteq> []"
    and k: "dim k = 4" "dim v = 4" "n_heads k = length table" "n_heads v = length table"
    and s: "aligned s" "length (key_cache s) = l"
  shows "\<exists>s'. update cfg be k v l s =
        (Inr (stacked (map (\<lambda>h. fst (first_history cfg be (head_of k h) (head_of v h)
                 (first_tiers cfg be (table ! h) (head_of k h) (head_of v h)))) [0..<length table]),
              stacked (map (\<lambda>h. snd (first_history cfg be (head_of k h) (head_of v h)
                 (first_tiers cfg be (table ! h) (head_of k h) (head_of v h)))) [0..<length table])),
         s')
      \<and> heads_entry s' l (length table)
           (\<lambda>h. first_tiers cfg be (table ! h) (head_of k h) (head_of v h))
      \<and> seen_tokens s' = seen_tokens s + (if l = 0 then shape_m2 k else 0)"
proof -
  let ?n = "length table"
  let ?G = "\<lambda>h. first_tiers cfg be (table ! h) (head_of k h) (head_of v h)"
  let ?H = "\<lambda>h. first_history cfg be (head_of k h) (head_of v h) (?G h)"
  let ?s0 = "(counted l k s)\<lparr>
      quantized_key_cache := quantized_key_cache s @ [Heads []],
      quantized_value_cache := quantized_value_cache s @ [Heads []],
      key_cache := key_cache s @ [Heads []],
      value_cache := value_cache s @ [Heads []]\<rparr>"
  have e0: "heads_entry ?s0 l 0 ?G"
    using s by (simp add: heads_entry_def heads_item_append_last aligned_def)
  from first_heads_loop [OF k(3,4) refl, of 0 ?n ?s0 l cfg be "([], [])"] e0
  obtain s' where r: "first_heads cfg be k v l (enumerate 0 table) ([], []) ?s0 =
        (Inr (map (\<lambda>h. fst (?H h)) [0..<?n], map (\<lambda>h. snd (?H h)) [0..<?n]), s')"
    and e': "heads_entry s' l ?n ?G"
    and st: "seen_tokens s' = seen_tokens ?s0"
    by auto
  have ne: "map (\<lambda>h. fst (?H h)) [0..<?n] \<noteq> []" "map (\<lambda>h. snd (?H h)) [0..<?n] \<noteq> []"
    using g(3) by simp_all
  have "update cfg be k v l s =
        (Inr (stacked (map (\<lambda>h. fst (?H h)) [0..<?n]), stacked (map (\<lambda>h. snd (?H h)) [0..<?n])), s')"
    using g k s r ne
    by (simp add: update_counted update_heads_def run_defs stack_heads_stacked)
  with e' st show ?thesis
    by (simp add: seen_tokens_counted)
qed

section \<open>An entry over a sequence of blocks\<close>

lemma grown_residual:
  assumes "dim k = d" "d \<noteq> 1" "r = zeros0 \<or> dim r = d"
  shows "dim (cat_m2 [r, k]) = d" and "cat_m2 [r, k] \<noteq> zeros0"
    and "rows (cat_m2 [r, k]) = rows r @ rows k"
proof -
  show d: "dim (cat_m2 [r, k]) = d"
    using assms by (auto simp: cat_m2_def skipped_def zeros0_def)
  then show "cat_m2 [r, k] \<noteq> zeros0" using assms(2) by (auto simp: zeros0_def)
  show "rows (cat_m2 [r, k]) = rows r @ rows k" by (simp add: rows_cat_m2)
qed

lemma next_tiers_merge:
  "merge_due d cfg (r_key t) \<Longrightarrow> r_key (next_tiers d cfg be b k v t) = zeros0"
  "merge_due d cfg (r_key t) \<Longrightarrow> r_value (next_tiers d cfg be b k v t) = zeros0"
  "\<not> merge_due d cfg (r_key t) \<Longrightarrow> r_key (next_tiers d cfg be b k v t) = cat_m2 [r_key t, k]"
  "\<not> merge_due d cfg (r_key t) \<Longrightarrow> r_value (next_tiers d cfg be b k v t) = cat_m2 [r_value t, v]"
  "\<not> merge_due d cfg (r_key t) \<Longrightarrow> q_key (next_tiers d cfg be b k v t) = q_key t"
  "\<not> merge_due d cfg (r_key t) \<Longrightarrow> q_value (next_tiers d cfg be b k v t) = q_value t"
  "merge_due d cfg (r_key t) \<Longrightarrow> q_key (next_tiers d cfg be b k v t)
      = quantize be (fst (next_history be k v t)) (axis_key cfg) (bits_key b)"
  "merge_due d cfg (r_key t) \<Longrightarrow> q_value (next_tiers d cfg be b k v t)
      = quantize be (snd (next_history be k v t)) (axis_value cfg) (bits_value b)"
  by (simp_all add: next_tiers_def)

text \<open>Single positions: the phase \<open>j\<close> is the number of positions in the residual.\<close>

lemma tiers_log_phase:
  fixes P :: nat
  assumes P: "P = max 2 (nat (residual_length cfg))" and d: "d \<noteq> 1"
  shows "\<forall>x\<in>set xs. dim (fst x) = d \<and> length (rows (fst x)) = 1 \<Longrightarrow>
    (if j = 0 then r_key t = zeros0 else dim (r_key t) = d \<and> length (rows (r_key t)) = j) \<Longrightarrow>
    j < P \<Longrightarrow>
    tiers_log d cfg be b xs t = map (\<lambda>i. (j + 1 + i) mod P = 0) [0..<length xs]"
proof (induction xs arbitrary: t j)
  case Nil
  then show ?case by simp
next
  case (Cons x xs)
  obtain k v where x: "x = (k, v)" by (cases x)
  with Cons.prems(1) have k: "dim k = d" "length (rows k) = 1" by simp_all
  let ?t' = "next_tiers d cfg be b k v t"
  have m: "merge_due d cfg (r_key t) \<longleftrightarrow> (j + 1) mod P = 0"
  proof (cases "j = 0")
    case True
    with Cons.prems(2) P d show ?thesis by (simp add: merge_due_def)
  next
    case False
    with Cons.prems(2) have rk: "dim (r_key t) = d" "length (rows (r_key t)) = j" by simp_all
    show ?thesis
    proof (cases "residual_length cfg \<le> int j + 1")
      case True
      with False Cons.prems(3) P have "P = j + 1" by auto
      with True rk show ?thesis by (simp add: merge_due_def shape_m2_def)
    next
      case False
      with P have "j + 1 < P" by auto
      with False rk show ?thesis by (simp add: merge_due_def shape_m2_def)
    qed
  qed
  have unf: "tiers_log d cfg be b (x # xs) t = merge_due d cfg (r_key t) # tiers_log d cfg be b xs ?t'"
    by (simp add: x)
  have upt: "\<And>f :: nat \<Rightarrow> bool. map f [0..<length (x # xs)] = f 0 # map (\<lambda>i. f (Suc i)) [0..<length xs]"
    by (simp add: map_upt_Suc del: upt_Suc)
  have xs: "\<forall>x\<in>set xs. dim (fst x) = d \<and> length (rows (fst x)) = 1"
    using Cons.prems(1) by simp
  have hd: "merge_due d cfg (r_key t) = ((j + 1 + 0) mod P = 0)" using m by simp
  show ?case
  proof (cases "merge_due d cfg (r_key t)")
    case True
    have ph: "if (0::nat) = 0 then r_key ?t' = zeros0
              else dim (r_key ?t') = d \<and> length (rows (r_key ?t')) = 0"
      using True by (simp add: next_tiers_merge)
    have ih: "tiers_log d cfg be b xs ?t' = map (\<lambda>i. (0 + 1 + i) mod P = 0) [0..<length xs]"
      using Cons.IH [OF xs ph] P by simp
    have eq: "\<And>i. ((0 + 1 + i) mod P = 0) = ((j + 1 + Suc i) mod P = 0)"
    proof -
      fix i
      have "(j + 1 + Suc i) mod P = ((j + 1) mod P + Suc i) mod P"
        by (simp only: mod_add_left_eq)
      with True m show "((0 + 1 + i) mod P = 0) = ((j + 1 + Suc i) mod P = 0)" by simp
    qed
    show ?thesis
      by (simp only: unf upt ih eq hd)
  next
    case False
    have r: "r_key t = zeros0 \<or> dim (r_key t) = d"
      using Cons.prems(2) by (auto split: if_splits)
    note gr = grown_residual [OF k(1) d r]
    have j1: "j + 1 < P"
      using False m Cons.prems(3) by (cases "j + 1 = P") auto
    have ph: "if j + 1 = 0 then r_key ?t' = zeros0
              else dim (r_key ?t') = d \<and> length (rows (r_key ?t')) = j + 1"
      using False gr k Cons.prems(2) by (auto simp: next_tiers_merge split: if_splits)
    have ih: "tiers_log d cfg be b xs ?t' = map (\<lambda>i. (j + 1 + 1 + i) mod P = 0) [0..<length xs]"
      using Cons.IH [OF xs ph j1] by simp
    have eq: "\<And>i. ((j + 1 + 1 + i) mod P = 0) = ((j + 1 + Suc i) mod P = 0)"
      by simp
    show ?thesis
      by (simp only: unf upt ih eq hd)
  qed
qed

lemma length_tiers_histories [simp]: "length (tiers_histories d cfg be b xs t) = length xs"
  by (induction xs arbitrary: t) simp_all

lemma length_tiers_log [simp]: "length (tiers_log d cfg be b xs t) = length xs"
  by (induction xs arbitrary: t) simp_all

text \<open>The positions held by the tiers.\<close>

lemma next_tiers_covers:
  assumes c: "keeps_positions be approx" "reflp approx" "transp approx"
    and k: "covers approx be ks (q_key t) (r_key t)"
    and v: "covers approx be vs (q_value t) (r_value t)"
  shows "covers approx be (ks @ rows k) (q_key (next_tiers d cfg be b k v t))
           (r_key (next_tiers d cfg be b k v t))"
    and "covers approx be (vs @ rows v) (q_value (next_tiers d cfg be b k v t))
           (r_value (next_tiers d cfg be b k v t))"
    and "list_all2 approx (ks @ rows k) (rows (fst (next_history be k v t)))"
    and "list_all2 approx (vs @ rows v) (rows (snd (next_history be k v t)))"
proof -
  show hk: "list_all2 approx (ks @ rows k) (rows (fst (next_history be k v t)))"
    using covers_history [OF k c(2)] by (simp add: next_history_def)
  show hv: "list_all2 approx (vs @ rows v) (rows (snd (next_history be k v t)))"
    using covers_history [OF v c(2)] by (simp add: next_history_def)
  show "covers approx be (ks @ rows k) (q_key (next_tiers d cfg be b k v t))
           (r_key (next_tiers d cfg be b k v t))"
    using covers_merge [OF c(1,3) hk] covers_grow [OF k]
    by (cases "merge_due d cfg (r_key t)") (simp_all add: next_tiers_merge)
  show "covers approx be (vs @ rows v) (q_value (next_tiers d cfg be b k v t))
           (r_value (next_tiers d cfg be b k v t))"
    using covers_merge [OF c(1,3) hv] covers_grow [OF v]
    by (cases "merge_due d cfg (r_key t)") (simp_all add: next_tiers_merge)
qed

lemma tiers_run_covers:
  assumes c: "keeps_positions be approx" "reflp approx" "transp approx"
  shows "covers approx be ks (q_key t) (r_key t) \<Longrightarrow>
     covers approx be vs (q_value t) (r_value t) \<Longrightarrow>
     covers approx be (ks @ concat (map (\<lambda>x. rows (fst x)) xs))
        (q_key (tiers_run d cfg be b xs t)) (r_key (tiers_run d cfg be b xs t))
     \<and> covers approx be (vs @ concat (map (\<lambda>x. rows (snd x)) xs))
        (q_value (tiers_run d cfg be b xs t)) (r_value (tiers_run d cfg be b xs t))
     \<and> (xs \<noteq> [] \<longrightarrow>
         list_all2 approx (ks @ concat (map (\<lambda>x. rows (fst x)) xs))
           (rows (fst (last (tiers_histories d cfg be b xs t))))
       \<and> list_all2 approx (vs @ concat (map (\<lambda>x. rows (snd x)) xs))
           (rows (snd (last (tiers_histories d cfg be b xs t)))))"
proof (induction xs arbitrary: t ks vs)
  case Nil
  then show ?case by simp
next
  case (Cons x xs)
  note n = next_tiers_covers(1,2) [OF c Cons.prems, where k = "fst x" and v = "snd x"
      and d = d and cfg = cfg and b = b]
  note h = next_tiers_covers(3,4) [OF c Cons.prems, where k = "fst x" and v = "snd x"]
  let ?t' = "next_tiers d cfg be b (fst x) (snd x) t"
  have hs: "tiers_histories d cfg be b xs ?t' = [] \<longleftrightarrow> xs = []"
    using length_tiers_histories [of d cfg be b xs ?t'] by (metis length_0_conv)
  have last: "last (tiers_histories d cfg be b (x # xs) t) =
      (if xs = [] then next_history be (fst x) (snd x) t
       else last (tiers_histories d cfg be b xs ?t'))"
    using hs by simp
  have cc: "ks @ concat (map (\<lambda>x. rows (fst x)) (x # xs))
        = (ks @ rows (fst x)) @ concat (map (\<lambda>x. rows (fst x)) xs)"
    "vs @ concat (map (\<lambda>x. rows (snd x)) (x # xs))
        = (vs @ rows (snd x)) @ concat (map (\<lambda>x. rows (snd x)) xs)"
    by simp_all
  have run: "tiers_run d cfg be b (x # xs) t = tiers_run d cfg be b xs ?t'" by simp
  show ?case
  proof (cases "xs = []")
    case True
    with Cons.IH [OF n] h show ?thesis
      unfolding cc run last by simp
  next
    case False
    with Cons.IH [OF n] show ?thesis
      unfolding cc run last by simp
  qed
qed

lemma first_tiers_covers:
  assumes c: "keeps_positions be approx" "reflp approx"
  shows "covers approx be (rows k) (q_key (first_tiers cfg be b k v)) (r_key (first_tiers cfg be b k v))"
    and "covers approx be (rows v) (q_value (first_tiers cfg be b k v))
           (r_value (first_tiers cfg be b k v))"
    and "list_all2 approx (rows k) (rows (fst (first_history cfg be k v (first_tiers cfg be b k v))))"
    and "list_all2 approx (rows v) (rows (snd (first_history cfg be k v (first_tiers cfg be b k v))))"
proof -
  show k: "covers approx be (rows k) (q_key (first_tiers cfg be b k v))
      (r_key (first_tiers cfg be b k v))"
    using covers_first [OF c(1)] covers_first_sliced [OF c(1)] by (simp add: first_tiers_def)
  show v: "covers approx be (rows v) (q_value (first_tiers cfg be b k v))
      (r_value (first_tiers cfg be b k v))"
    using covers_first [OF c(1)] covers_first_sliced [OF c(1)] by (simp add: first_tiers_def)
  show "list_all2 approx (rows k) (rows (fst (first_history cfg be k v (first_tiers cfg be b k v))))"
    using covers_history_first [OF k c(2)] list_all2_reflp [OF c(2)]
    by (simp add: first_history_def)
  show "list_all2 approx (rows v) (rows (snd (first_history cfg be k v (first_tiers cfg be b k v))))"
    using covers_history_first [OF v c(2)] list_all2_reflp [OF c(2)]
    by (simp add: first_history_def)
qed

text \<open>The size of the residual, and the number of merges.\<close>

lemma tiers_run_bound:
  assumes d: "d \<noteq> 1"
  shows "\<forall>x\<in>set xs. dim (fst x) = d \<and> rows (fst x) \<noteq> []
            \<and> length (rows (snd x)) = length (rows (fst x)) \<Longrightarrow>
     r_key t = zeros0 \<or> dim (r_key t) = d \<Longrightarrow>
     length (rows (r_value t)) = length (rows (r_key t)) \<Longrightarrow>
     length (rows (r_value (tiers_run d cfg be b xs t)))
        = length (rows (r_key (tiers_run d cfg be b xs t)))
     \<and> (xs \<noteq> [] \<longrightarrow> int (length (rows (r_key (tiers_run d cfg be b xs t))))
           \<le> max 0 (residual_length cfg - 2) + shape_m2 (fst (last xs)))
     \<and> residual_length cfg * int (length (filter id (tiers_log d cfg be b xs t)))
           \<le> int (length (rows (r_key t))) + sizes (map fst xs)"
proof (induction xs arbitrary: t)
  case Nil
  then show ?case by (simp add: sizes_def)
next
  case (Cons x xs)
  obtain k v where x: "x = (k, v)" by (cases x)
  with Cons.prems(1) have k: "dim k = d" "rows k \<noteq> []" "length (rows v) = length (rows k)"
    by simp_all
  have xs: "\<forall>x\<in>set xs. dim (fst x) = d \<and> rows (fst x) \<noteq> []
            \<and> length (rows (snd x)) = length (rows (fst x))"
    using Cons.prems(1) by simp
  let ?R = "residual_length cfg"
  let ?t' = "next_tiers d cfg be b k v t"
  have k1: "1 \<le> shape_m2 k" using k(2) by (cases "rows k") (simp_all add: shape_m2_def)
  have run: "tiers_run d cfg be b (x # xs) t = tiers_run d cfg be b xs ?t'" by (simp add: x)
  have sz: "sizes (map fst (x # xs)) = shape_m2 k + sizes (map fst xs)"
    by (simp add: sizes_def x)
  have lastx: "xs \<noteq> [] \<Longrightarrow> last (x # xs) = last xs" by simp
  show ?case
  proof (cases "merge_due d cfg (r_key t)")
    case True
    have r': "r_key ?t' = zeros0" "r_value ?t' = zeros0"
      using True by (simp_all add: next_tiers_merge)
    have cnt: "length (filter id (tiers_log d cfg be b (x # xs) t))
        = Suc (length (filter id (tiers_log d cfg be b xs ?t')))"
      using True by (simp add: x)
    have f': "r_key ?t' = zeros0 \<or> dim (r_key ?t') = d"
      and eq1: "length (rows (r_value ?t')) = length (rows (r_key ?t'))"
      using r' by simp_all
    from Cons.IH [OF xs f' eq1]
    have eq: "length (rows (r_value (tiers_run d cfg be b xs ?t')))
          = length (rows (r_key (tiers_run d cfg be b xs ?t')))"
      and bound: "xs \<noteq> [] \<longrightarrow> int (length (rows (r_key (tiers_run d cfg be b xs ?t'))))
          \<le> max 0 (?R - 2) + shape_m2 (fst (last xs))"
      and count: "?R * int (length (filter id (tiers_log d cfg be b xs ?t')))
          \<le> int (length (rows (r_key ?t'))) + sizes (map fst xs)"
      by blast+
    have b': "int (length (rows (r_key (tiers_run d cfg be b (x # xs) t))))
        \<le> max 0 (?R - 2) + shape_m2 (fst (last (x # xs)))"
    proof (cases "xs = []")
      case True
      with r' k1 show ?thesis by (simp add: x)
    next
      case False
      with bound show ?thesis unfolding run by simp
    qed
    have "?R \<le> int (length (rows (r_key t))) + 1"
      using True by (simp add: merge_due_def shape_m2_def)
    then have "?R * int (length (filter id (tiers_log d cfg be b (x # xs) t)))
        \<le> int (length (rows (r_key t))) + sizes (map fst (x # xs))"
      using count k1 unfolding cnt sz r'(1) by (simp add: algebra_simps)
    with eq b' show ?thesis unfolding run by blast
  next
    case False
    note gr = grown_residual [OF k(1) d Cons.prems(2)]
    have r': "r_key ?t' = cat_m2 [r_key t, k]" "r_value ?t' = cat_m2 [r_value t, v]"
      using False by (simp_all add: next_tiers_merge)
    have f': "r_key ?t' = zeros0 \<or> dim (r_key ?t') = d"
      using gr(1) r' by simp
    have eq1: "length (rows (r_value ?t')) = length (rows (r_key ?t'))"
      using Cons.prems(3) k(3) by (simp add: r' rows_cat_m2)
    have cnt: "length (filter id (tiers_log d cfg be b (x # xs) t))
        = length (filter id (tiers_log d cfg be b xs ?t'))"
      using False by (simp add: x)
    from Cons.IH [OF xs f' eq1]
    have eq: "length (rows (r_value (tiers_run d cfg be b xs ?t')))
          = length (rows (r_key (tiers_run d cfg be b xs ?t')))"
      and bound: "xs \<noteq> [] \<longrightarrow> int (length (rows (r_key (tiers_run d cfg be b xs ?t'))))
          \<le> max 0 (?R - 2) + shape_m2 (fst (last xs))"
      and count: "?R * int (length (filter id (tiers_log d cfg be b xs ?t')))
          \<le> int (length (rows (r_key ?t'))) + sizes (map fst xs)"
      by blast+
    have small: "int (length (rows (r_key t))) \<le> max 0 (?R - 2)"
      using False Cons.prems(2) by (auto simp: merge_due_def shape_m2_def)
    have b': "int (length (rows (r_key (tiers_run d cfg be b (x # xs) t))))
        \<le> max 0 (?R - 2) + shape_m2 (fst (last (x # xs)))"
    proof (cases "xs = []")
      case True
      with small show ?thesis by (simp add: x r' gr(3) shape_m2_def)
    next
      case False
      with bound show ?thesis unfolding run by simp
    qed
    have "?R * int (length (filter id (tiers_log d cfg be b (x # xs) t)))
        \<le> int (length (rows (r_key t))) + sizes (map fst (x # xs))"
      using count unfolding cnt sz r'(1) by (simp add: gr(3) shape_m2_def)
    with eq b' show ?thesis unfolding run by blast
  qed
qed

lemma first_tiers_residual:
  assumes "length (rows v) = length (rows k)"
  shows "r_key (first_tiers cfg be b k v) = zeros0 \<or> dim (r_key (first_tiers cfg be b k v)) = dim k"
    and "length (rows (r_value (first_tiers cfg be b k v)))
          = length (rows (r_key (first_tiers cfg be b k v)))"
    and "length (rows (r_key (first_tiers cfg be b k v))) \<le> length (rows k)"
  using assms by (simp_all add: first_tiers_def slice_from_def)

lemma first_tiers_single:
  assumes "length (rows k) = 1"
  shows "\<not> force_quant cfg \<or> residual_length cfg = 0 \<Longrightarrow> r_key (first_tiers cfg be b k v) = zeros0"
    and "force_quant cfg \<Longrightarrow> 2 \<le> residual_length cfg \<Longrightarrow> r_key (first_tiers cfg be b k v) = k"
proof -
  show "\<not> force_quant cfg \<or> residual_length cfg = 0 \<Longrightarrow> r_key (first_tiers cfg be b k v) = zeros0"
    by (auto simp: first_tiers_def)
  assume f: "force_quant cfg" "2 \<le> residual_length cfg"
  then have "shape_m2 k mod residual_length cfg = 1"
    using assms by (simp add: shape_m2_def)
  with f show "r_key (first_tiers cfg be b k v) = k"
    using slice_from_last_of_one [OF assms] by (simp add: first_tiers_def)
qed

section \<open>Every entry of a layer, by its address\<close>

lemma tiers_at_layer:
  "tiers_at s l None = Inr t \<longleftrightarrow> entry s l (q_key t) (q_value t) (r_key t) (r_value t)"
  by (cases t) (auto simp: tiers_at_def slot_item_def attempt_def entry_def split: sum.splits)

lemma tiers_at_head:
  "heads_entry s l n f \<Longrightarrow> h < n \<Longrightarrow> tiers_at s l (Some h) = Inr (f h)"
  by (simp add: tiers_at_def slot_item_def attempt_def heads_entry_def head_item_map)

lemma tiers_at_fresh:
  "aligned s \<Longrightarrow> length (key_cache s) = l \<Longrightarrow> \<exists>e. tiers_at s l a = Inl e"
  by (cases a)
    (auto simp: tiers_at_def slot_item_def attempt_def layer_item_def head_item_def heads_item_def
      item_def aligned_def)

lemma cat_not_zeros0: "\<not> skipped k \<Longrightarrow> cat_m2 [r, k] \<noteq> zeros0"
  by (cases r; cases k) (auto simp: cat_m2_def skipped_def zeros0_def)

lemma next_tiers_merged_iff:
  assumes "\<not> skipped k"
  shows "next_tiers d cfg be b k v t =
      \<lparr>q_key = quantize be (fst (next_history be k v t)) (axis_key cfg) (bits_key b),
       q_value = quantize be (snd (next_history be k v t)) (axis_value cfg) (bits_value b),
       r_key = zeros0, r_value = zeros0\<rparr> \<longleftrightarrow> merge_due d cfg (r_key t)"
proof (cases "merge_due d cfg (r_key t)")
  case True
  then show ?thesis by (simp add: next_tiers_def)
next
  case False
  have "r_key (next_tiers d cfg be b k v t) \<noteq> zeros0"
    using False cat_not_zeros0 [OF assms] by (simp add: next_tiers_merge)
  with False show ?thesis by auto
qed

lemma first_tiers_merged_iff:
  assumes "dim k \<noteq> 1"
  shows "first_tiers cfg be b k v =
      \<lparr>q_key = quantize be k (axis_key cfg) (bits_key b),
       q_value = quantize be v (axis_value cfg) (bits_value b),
       r_key = zeros0, r_value = zeros0\<rparr> \<longleftrightarrow> \<not> force_quant cfg \<or> residual_length cfg = 0"
proof (cases "force_quant cfg \<and> residual_length cfg \<noteq> 0")
  case True
  have "dim (slice_from k (- (shape_m2 k mod residual_length cfg))) \<noteq> 1"
    using assms by (simp add: slice_from_def)
  then have "r_key (first_tiers cfg be b k v) \<noteq> zeros0"
    using True by (auto simp: first_tiers_def zeros0_def)
  with True show ?thesis by auto
next
  case False
  then show ?thesis by (auto simp: first_tiers_def)
qed

lemma holds_served: "holds cfg s l T \<Longrightarrow> served cfg l a b \<Longrightarrow> tiers_at s l a = Inr (T a)"
  by (cases a)
    (auto simp: holds_def served_def bits_at_def item_def tiers_at_head
      split: option.splits if_splits)

lemma served_bits_of: "served cfg l a b \<Longrightarrow> bits_of cfg l a = b"
  by (simp add: served_def bits_of_def)

lemma fits_block: "dim k = 4 \<Longrightarrow> dim (block_at k a) = dims_at a"
  by (cases a) (auto simp: block_at_def dims_at_def head_of_def)

lemma dims_at_not_1 [simp]: "dims_at a \<noteq> 1"
  by (cases a) (simp_all add: dims_at_def)

text \<open>A call for a layer that has its entries, and a call for a new layer, in either mode.\<close>

lemma step_next:
  assumes r: "ready cfg l" and f: "fits cfg l (k, v, l)" and h: "holds cfg s l T"
  shows "\<exists>s'. update cfg be k v l s =
         (Inr (joined cfg l (\<lambda>a. fst (next_history be (block_at k a) (block_at v a) (T a))),
               joined cfg l (\<lambda>a. snd (next_history be (block_at k a) (block_at v a) (T a)))), s')
       \<and> holds cfg s' l (\<lambda>a. next_tiers (dims_at a) cfg be (bits_of cfg l a)
                                (block_at k a) (block_at v a) (T a))"
proof (cases "per_head_quant cfg")
  case False
  with r obtain b where b: "layer_bits cfg l = Inr b"
    by (auto simp: ready_def split: sum.splits)
  from h False have e: "entry s l (q_key (T None)) (q_value (T None)) (r_key (T None)) (r_value (T None))"
    by (simp add: holds_def tiers_at_layer)
  let ?u = "update cfg be k v l s"
  note ne = next_entry [OF False b e, of be k v]
  have "tiers_at (snd ?u) l None = Inr (next_tiers 4 cfg be b k v (T None))"
    using ne(2,3) by (cases "merge_due 4 cfg (r_key (T None))")
      (simp_all add: tiers_at_layer next_tiers_def next_history_def)
  then have "holds cfg (snd ?u) l (\<lambda>a. next_tiers (dims_at a) cfg be (bits_of cfg l a)
                                (block_at k a) (block_at v a) (T a))"
    using False b by (simp add: holds_def dims_at_def bits_of_def bits_at_def block_at_def)
  moreover have "fst ?u =
      Inr (joined cfg l (\<lambda>a. fst (next_history be (block_at k a) (block_at v a) (T a))),
           joined cfg l (\<lambda>a. snd (next_history be (block_at k a) (block_at v a) (T a))))"
    using ne(1) False by (simp add: joined_def block_at_def next_history_def)
  ultimately show ?thesis
    by (cases ?u) auto
next
  case True
  with r obtain table where t: "per_head_config cfg l = Some table" "table \<noteq> []"
    by (auto simp: ready_def split: option.splits)
  from f True t have k: "dim k = 4" "dim v = 4" "n_heads k = length table" "n_heads v = length table"
    by (simp_all add: fits_def)
  from h True t have e: "heads_entry s l (length table) (\<lambda>h. T (Some h))"
    by (simp add: holds_def)
  from heads_next_update [OF True t k e, of be]
  obtain s' where u: "update cfg be k v l s =
        (Inr (stacked (map (\<lambda>h. fst (next_history be (head_of k h) (head_of v h) (T (Some h))))
                 [0..<length table]),
              stacked (map (\<lambda>h. snd (next_history be (head_of k h) (head_of v h) (T (Some h))))
                 [0..<length table])), s')"
    and e': "heads_entry s' l (length table)
        (\<lambda>h. next_tiers 3 cfg be (table ! h) (head_of k h) (head_of v h) (T (Some h)))"
    by blast
  have "heads_entry s' l (length table)
      (\<lambda>h. next_tiers (dims_at (Some h)) cfg be (bits_of cfg l (Some h))
             (block_at k (Some h)) (block_at v (Some h)) (T (Some h)))"
    by (rule heads_entry_cong [OF e'])
      (simp add: dims_at_def bits_of_def bits_at_def t item_def block_at_def)
  with u True t show ?thesis
    by (auto simp: holds_def joined_def block_at_def)
qed

lemma step_first:
  assumes r: "ready cfg l" and f: "fits cfg l (k, v, l)"
    and s: "aligned s" "length (key_cache s) = l"
  shows "\<exists>s'. update cfg be k v l s =
         (Inr (joined cfg l (\<lambda>a. fst (first_history cfg be (block_at k a) (block_at v a)
                  (first_tiers cfg be (bits_of cfg l a) (block_at k a) (block_at v a)))),
               joined cfg l (\<lambda>a. snd (first_history cfg be (block_at k a) (block_at v a)
                  (first_tiers cfg be (bits_of cfg l a) (block_at k a) (block_at v a))))), s')
       \<and> holds cfg s' l (\<lambda>a. first_tiers cfg be (bits_of cfg l a) (block_at k a) (block_at v a))"
proof (cases "per_head_quant cfg")
  case False
  with r obtain b where b: "layer_bits cfg l = Inr b"
    by (auto simp: ready_def split: sum.splits)
  let ?u = "update cfg be k v l s"
  have "fst ?u = Inr (first_history cfg be k v (first_tiers cfg be b k v))
      \<and> tiers_at (snd ?u) l None = Inr (first_tiers cfg be b k v)"
  proof (cases "force_quant cfg")
    case nf: False
    show ?thesis
      using first_entry_plain [OF False nf b s, of be k v]
      by (simp add: tiers_at_layer first_tiers_def first_history_def nf)
  next
    case fq: True
    show ?thesis
    proof (cases "residual_length cfg = 0")
      case True
      show ?thesis
        using first_entry_force0 [OF False fq True b s, of be k v]
        by (simp add: tiers_at_layer first_tiers_def first_history_def fq True)
    next
      case nz: False
      show ?thesis
        using first_entry_force [OF False fq nz b s, of be k v]
        by (simp add: tiers_at_layer first_tiers_def first_history_def nz fq)
    qed
  qed
  then have "fst ?u =
         Inr (joined cfg l (\<lambda>a. fst (first_history cfg be (block_at k a) (block_at v a)
                  (first_tiers cfg be (bits_of cfg l a) (block_at k a) (block_at v a)))),
              joined cfg l (\<lambda>a. snd (first_history cfg be (block_at k a) (block_at v a)
                  (first_tiers cfg be (bits_of cfg l a) (block_at k a) (block_at v a)))))
      \<and> holds cfg (snd ?u) l
      (\<lambda>a. first_tiers cfg be (bits_of cfg l a) (block_at k a) (block_at v a))"
    using False b by (simp add: holds_def bits_of_def bits_at_def block_at_def joined_def)
  then show ?thesis
    by (cases ?u) auto
next
  case True
  with r obtain table where t: "per_head_config cfg l = Some table" "table \<noteq> []"
    by (auto simp: ready_def split: option.splits)
  from f True t have k: "dim k = 4" "dim v = 4" "n_heads k = length table" "n_heads v = length table"
    by (simp_all add: fits_def)
  from heads_first_update [OF True t k s, of be]
  obtain s' where u: "update cfg be k v l s =
        (Inr (stacked (map (\<lambda>h. fst (first_history cfg be (head_of k h) (head_of v h)
                 (first_tiers cfg be (table ! h) (head_of k h) (head_of v h)))) [0..<length table]),
              stacked (map (\<lambda>h. snd (first_history cfg be (head_of k h) (head_of v h)
                 (first_tiers cfg be (table ! h) (head_of k h) (head_of v h)))) [0..<length table])),
         s')"
    and e': "heads_entry s' l (length table)
        (\<lambda>h. first_tiers cfg be (table ! h) (head_of k h) (head_of v h))"
    by blast
  have "heads_entry s' l (length table)
      (\<lambda>h. first_tiers cfg be (bits_of cfg l (Some h)) (block_at k (Some h)) (block_at v (Some h)))"
    by (rule heads_entry_cong [OF e'])
      (simp add: bits_of_def bits_at_def t item_def block_at_def)
  moreover have b: "\<And>h. h < length table \<Longrightarrow> bits_of cfg l (Some h) = table ! h"
    by (simp add: bits_of_def bits_at_def t item_def)
  have "joined cfg l (\<lambda>a. g (first_history cfg be (block_at k a) (block_at v a)
                  (first_tiers cfg be (bits_of cfg l a) (block_at k a) (block_at v a))))
      = stacked (map (\<lambda>h. g (first_history cfg be (head_of k h) (head_of v h)
                 (first_tiers cfg be (table ! h) (head_of k h) (head_of v h)))) [0..<length table])"
    for g :: "'a tensor \<times> 'a tensor \<Rightarrow> 'a tensor"
  proof -
    have "map (\<lambda>h. g (first_history cfg be (head_of k h) (head_of v h)
                 (first_tiers cfg be (bits_of cfg l (Some h)) (head_of k h) (head_of v h))))
            [0..<length table]
        = map (\<lambda>h. g (first_history cfg be (head_of k h) (head_of v h)
                 (first_tiers cfg be (table ! h) (head_of k h) (head_of v h)))) [0..<length table]"
      by (rule map_cong) (simp_all add: b)
    note m = this
    show "joined cfg l (\<lambda>a. g (first_history cfg be (block_at k a) (block_at v a)
                  (first_tiers cfg be (bits_of cfg l a) (block_at k a) (block_at v a))))
      = stacked (map (\<lambda>h. g (first_history cfg be (head_of k h) (head_of v h)
                 (first_tiers cfg be (table ! h) (head_of k h) (head_of v h)))) [0..<length table])"
      by (simp add: joined_def block_at_def True t m)
  qed
  ultimately show ?thesis
    using u True t by (simp add: holds_def)
qed

lemma served_ready: "served cfg l a b \<Longrightarrow> ready cfg l"
  by (cases a)
    (auto simp: served_def ready_def bits_at_def item_def split: option.splits if_splits)

lemma merged_at_next:
  assumes a: "served cfg l a b" and f: "dim k = 4" and h: "holds cfg s l T"
    and h': "holds cfg s' l (\<lambda>a. next_tiers (dims_at a) cfg be (bits_of cfg l a)
                                (block_at k a) (block_at v a) (T a))"
  shows "merged_at cfg be l a k v s s' \<longleftrightarrow> merge_due (dims_at a) cfg (r_key (T a))"
proof -
  have nsk: "\<not> skipped (block_at k a)"
    using fits_block [OF f, of a] dims_at_not_1 [of a] by (auto simp: skipped_def)
  have b: "bits_at cfg l a = Inr b" using a by (simp add: served_def)
  show ?thesis
    using next_tiers_merged_iff [OF nsk, of "dims_at a" cfg be b "block_at v a" "T a"]
    by (simp add: merged_at_def b full_history_def holds_served [OF h a] holds_served [OF h' a]
        served_bits_of [OF a])
qed

lemma merged_at_first:
  assumes a: "served cfg l a b" and f: "dim k = 4"
    and s: "aligned s" "length (key_cache s) = l"
    and h': "holds cfg s' l (\<lambda>a. first_tiers cfg be (bits_of cfg l a) (block_at k a) (block_at v a))"
  shows "merged_at cfg be l a k v s s' \<longleftrightarrow> \<not> force_quant cfg \<or> residual_length cfg = 0"
proof -
  have d1: "dim (block_at k a) \<noteq> 1"
    using fits_block [OF f, of a] dims_at_not_1 [of a] by simp
  have b: "bits_at cfg l a = Inr b" using a by (simp add: served_def)
  obtain e where e: "tiers_at s l a = Inl e"
    using tiers_at_fresh [OF s] by blast
  show ?thesis
    using first_tiers_merged_iff [OF d1, of cfg be b "block_at v a"]
    by (simp add: merged_at_def b full_history_def e holds_served [OF h' a] served_bits_of [OF a])
qed

lemma tiers_histories_Nil [simp]: "tiers_histories d cfg be b xs t = [] \<longleftrightarrow> xs = []"
  by (cases xs) simp_all

lemma run_next:
  assumes r: "ready cfg l"
  shows "\<forall>c\<in>set calls. fits cfg l c \<Longrightarrow> holds cfg s l T \<Longrightarrow>
     \<exists>rs s'. updates cfg be calls s = (Inr rs, s') \<and> length rs = length calls
       \<and> holds cfg s' l (\<lambda>a. tiers_run (dims_at a) cfg be (bits_of cfg l a) (blocks_at calls a) (T a))
       \<and> (calls \<noteq> [] \<longrightarrow> last rs =
            (joined cfg l (\<lambda>a. fst (last (tiers_histories (dims_at a) cfg be (bits_of cfg l a)
                                            (blocks_at calls a) (T a)))),
             joined cfg l (\<lambda>a. snd (last (tiers_histories (dims_at a) cfg be (bits_of cfg l a)
                                            (blocks_at calls a) (T a))))))
       \<and> ((\<forall>c\<in>set calls. dim (fst c) = 4) \<longrightarrow> (\<forall>a b. served cfg l a b \<longrightarrow>
             merge_log_at cfg be a calls s
               = tiers_log (dims_at a) cfg be b (blocks_at calls a) (T a)))"
proof (induction calls arbitrary: s T)
  case Nil
  then show ?case by (simp add: done_with_def blocks_at_def)
next
  case (Cons c cs)
  obtain k v where c: "c = (k, v, l)" and f: "fits cfg l (k, v, l)"
    using Cons.prems(1) by (cases c) (auto simp: fits_def)
  let ?T1 = "\<lambda>a. next_tiers (dims_at a) cfg be (bits_of cfg l a) (block_at k a) (block_at v a) (T a)"
  let ?r1 = "(joined cfg l (\<lambda>a. fst (next_history be (block_at k a) (block_at v a) (T a))),
              joined cfg l (\<lambda>a. snd (next_history be (block_at k a) (block_at v a) (T a))))"
  from step_next [OF r f Cons.prems(2), of be]
  obtain s1 where u: "update cfg be k v l s = (Inr ?r1, s1)" and h1: "holds cfg s1 l ?T1"
    by blast
  have cs: "\<forall>c\<in>set cs. fits cfg l c" using Cons.prems(1) by simp
  from Cons.IH [OF cs h1]
  obtain rs s' where run: "updates cfg be cs s1 = (Inr rs, s')" and len: "length rs = length cs"
    and h': "holds cfg s' l
        (\<lambda>a. tiers_run (dims_at a) cfg be (bits_of cfg l a) (blocks_at cs a) (?T1 a))"
    and la: "cs \<noteq> [] \<longrightarrow> last rs =
            (joined cfg l (\<lambda>a. fst (last (tiers_histories (dims_at a) cfg be (bits_of cfg l a)
                                            (blocks_at cs a) (?T1 a)))),
             joined cfg l (\<lambda>a. snd (last (tiers_histories (dims_at a) cfg be (bits_of cfg l a)
                                            (blocks_at cs a) (?T1 a)))))"
    and lg: "(\<forall>c\<in>set cs. dim (fst c) = 4) \<longrightarrow> (\<forall>a b. served cfg l a b \<longrightarrow>
        merge_log_at cfg be a cs s1 = tiers_log (dims_at a) cfg be b (blocks_at cs a) (?T1 a))"
    by blast
  have all: "updates cfg be (c # cs) s = (Inr (?r1 # rs), s')"
    using u run c by (simp add: and_then_def done_with_def)
  have hh: "holds cfg s' l
      (\<lambda>a. tiers_run (dims_at a) cfg be (bits_of cfg l a) (blocks_at (c # cs) a) (T a))"
    using h' by (simp add: blocks_at_def c)
  have ll: "last (?r1 # rs) =
            (joined cfg l (\<lambda>a. fst (last (tiers_histories (dims_at a) cfg be (bits_of cfg l a)
                                            (blocks_at (c # cs) a) (T a)))),
             joined cfg l (\<lambda>a. snd (last (tiers_histories (dims_at a) cfg be (bits_of cfg l a)
                                            (blocks_at (c # cs) a) (T a)))))"
  proof (cases "cs = []")
    case True
    then have "rs = []" using len by simp
    then show ?thesis using True by (simp add: blocks_at_def c)
  next
    case False
    then have "rs \<noteq> []" using len by auto
    moreover have "\<And>a. blocks_at cs a \<noteq> []" using False by (simp add: blocks_at_def)
    ultimately show ?thesis using la False by (simp add: blocks_at_def c)
  qed
  have "merge_log_at cfg be a (c # cs) s
      = tiers_log (dims_at a) cfg be b (blocks_at (c # cs) a) (T a)"
    if a: "served cfg l a b" and d: "\<forall>c\<in>set (c # cs). dim (fst c) = 4" for a b
  proof -
    have dk: "dim k = 4" using d c by simp
    have "merge_log_at cfg be a (c # cs) s
        = merged_at cfg be l a k v s s1 # merge_log_at cfg be a cs s1"
      using u c by simp
    also have "\<dots> = merge_due (dims_at a) cfg (r_key (T a))
        # tiers_log (dims_at a) cfg be b (blocks_at cs a) (?T1 a)"
      using merged_at_next [OF a dk Cons.prems(2) h1] lg a d by simp
    also have "\<dots> = tiers_log (dims_at a) cfg be b (blocks_at (c # cs) a) (T a)"
      by (simp add: blocks_at_def c served_bits_of [OF a])
    finally show ?thesis .
  qed
  with all len hh ll show ?case by auto
qed

lemma run_fresh:
  assumes r: "ready cfg l" and s: "aligned s" "length (key_cache s) = l"
    and calls: "\<forall>c\<in>set (first # rest). fits cfg l c"
    and T0: "T0 = (\<lambda>a. first_tiers cfg be (bits_of cfg l a) (block_at (fst first) a)
               (block_at (fst (snd first)) a))"
  shows "\<exists>rs s'. updates cfg be (first # rest) s = (Inr rs, s') \<and> length rs = Suc (length rest)
       \<and> holds cfg s' l (\<lambda>a. tiers_run (dims_at a) cfg be (bits_of cfg l a) (blocks_at rest a) (T0 a))
       \<and> last rs =
            (joined cfg l (\<lambda>a. fst (if rest = []
                then first_history cfg be (block_at (fst first) a) (block_at (fst (snd first)) a) (T0 a)
                else last (tiers_histories (dims_at a) cfg be (bits_of cfg l a)
                             (blocks_at rest a) (T0 a)))),
             joined cfg l (\<lambda>a. snd (if rest = []
                then first_history cfg be (block_at (fst first) a) (block_at (fst (snd first)) a) (T0 a)
                else last (tiers_histories (dims_at a) cfg be (bits_of cfg l a)
                             (blocks_at rest a) (T0 a)))))
       \<and> ((\<forall>c\<in>set (first # rest). dim (fst c) = 4) \<longrightarrow> (\<forall>a b. served cfg l a b \<longrightarrow>
             merge_log_at cfg be a (first # rest) s
               = (\<not> force_quant cfg \<or> residual_length cfg = 0)
                 # tiers_log (dims_at a) cfg be b (blocks_at rest a) (T0 a)))"
proof -
  obtain k v where c: "first = (k, v, l)" and f: "fits cfg l (k, v, l)"
    using calls by (cases first) (auto simp: fits_def)
  have T0': "T0 = (\<lambda>a. first_tiers cfg be (bits_of cfg l a) (block_at k a) (block_at v a))"
    using T0 c by simp
  let ?r1 = "(joined cfg l (\<lambda>a. fst (first_history cfg be (block_at k a) (block_at v a) (T0 a))),
              joined cfg l (\<lambda>a. snd (first_history cfg be (block_at k a) (block_at v a) (T0 a))))"
  from step_first [OF r f s, of be]
  obtain s1 where u: "update cfg be k v l s = (Inr ?r1, s1)" and h1: "holds cfg s1 l T0"
    unfolding T0' by blast
  have cs: "\<forall>c\<in>set rest. fits cfg l c" using calls by simp
  from run_next [OF r cs h1, of be]
  obtain rs s' where run: "updates cfg be rest s1 = (Inr rs, s')" and len: "length rs = length rest"
    and h': "holds cfg s' l
        (\<lambda>a. tiers_run (dims_at a) cfg be (bits_of cfg l a) (blocks_at rest a) (T0 a))"
    and la: "rest \<noteq> [] \<longrightarrow> last rs =
            (joined cfg l (\<lambda>a. fst (last (tiers_histories (dims_at a) cfg be (bits_of cfg l a)
                                            (blocks_at rest a) (T0 a)))),
             joined cfg l (\<lambda>a. snd (last (tiers_histories (dims_at a) cfg be (bits_of cfg l a)
                                            (blocks_at rest a) (T0 a)))))"
    and lg: "(\<forall>c\<in>set rest. dim (fst c) = 4) \<longrightarrow> (\<forall>a b. served cfg l a b \<longrightarrow>
        merge_log_at cfg be a rest s1 = tiers_log (dims_at a) cfg be b (blocks_at rest a) (T0 a))"
    by blast
  have all: "updates cfg be (first # rest) s = (Inr (?r1 # rs), s')"
    using u run c by (simp add: and_then_def done_with_def)
  have ll: "last (?r1 # rs) =
            (joined cfg l (\<lambda>a. fst (if rest = []
                then first_history cfg be (block_at (fst first) a) (block_at (fst (snd first)) a) (T0 a)
                else last (tiers_histories (dims_at a) cfg be (bits_of cfg l a)
                             (blocks_at rest a) (T0 a)))),
             joined cfg l (\<lambda>a. snd (if rest = []
                then first_history cfg be (block_at (fst first) a) (block_at (fst (snd first)) a) (T0 a)
                else last (tiers_histories (dims_at a) cfg be (bits_of cfg l a)
                             (blocks_at rest a) (T0 a)))))"
  proof (cases "rest = []")
    case True
    then have "rs = []" using len by simp
    then show ?thesis using True by (simp add: c)
  next
    case False
    then have "rs \<noteq> []" using len by auto
    then show ?thesis using la False by simp
  qed
  have "merge_log_at cfg be a (first # rest) s
      = (\<not> force_quant cfg \<or> residual_length cfg = 0)
        # tiers_log (dims_at a) cfg be b (blocks_at rest a) (T0 a)"
    if a: "served cfg l a b" and d: "\<forall>c\<in>set (first # rest). dim (fst c) = 4" for a b
  proof -
    have dk: "dim k = 4" using d c by simp
    have h1': "holds cfg s1 l
        (\<lambda>a. first_tiers cfg be (bits_of cfg l a) (block_at k a) (block_at v a))"
      using h1 unfolding T0' .
    have "merge_log_at cfg be a (first # rest) s
        = merged_at cfg be l a k v s s1 # merge_log_at cfg be a rest s1"
      using u c by simp
    also have "\<dots> = (\<not> force_quant cfg \<or> residual_length cfg = 0)
        # tiers_log (dims_at a) cfg be b (blocks_at rest a) (T0 a)"
      using merged_at_first [OF a dk s h1'] lg a d by simp
    finally show ?thesis .
  qed
  with all len h' ll show ?thesis by auto
qed

lemma rows_block_at [simp]: "length (rows (block_at k a)) = length (rows k)"
  by (cases a) (simp_all add: block_at_def head_of_def)

lemma rows_block_at_Nil [simp]: "rows (block_at k a) = [] \<longleftrightarrow> rows k = []"
  by (cases a) (simp_all add: block_at_def head_of_def)

lemma shape_m2_block_at [simp]: "shape_m2 (block_at k a) = shape_m2 k"
  by (simp add: shape_m2_def)

lemma sizes_blocks_at: "sizes (map fst (blocks_at calls a)) = positions calls"
  by (simp add: sizes_def positions_def blocks_at_def comp_def)

lemma last_blocks_at:
  "calls \<noteq> [] \<Longrightarrow> fst (last (blocks_at calls a)) = block_at (fst (last calls)) a"
  by (simp add: blocks_at_def last_map)

lemma blocks_at_Nil [simp]: "blocks_at calls a = [] \<longleftrightarrow> calls = []"
  by (simp add: blocks_at_def)

lemma merge_log_at_first:
  assumes a: "served cfg l a b" and s: "aligned s" "length (key_cache s) = l"
    and calls: "\<forall>c\<in>set calls. fits cfg l c \<and> dim (fst c) = 4 \<and> length (rows (fst c)) = 1"
    and f: "force_quant cfg \<longrightarrow> 2 \<le> residual_length cfg"
  shows "merge_log_at cfg be a calls s =
     map (\<lambda>i. if force_quant cfg then (i + 1) mod nat (residual_length cfg) = 0
              else i mod max 2 (nat (residual_length cfg)) = 0) [0..<length calls]"
proof (cases calls)
  case Nil
  then show ?thesis by simp
next
  case (Cons first rest)
  let ?k = "block_at (fst first) a" and ?v = "block_at (fst (snd first)) a"
  let ?T0 = "\<lambda>a. first_tiers cfg be (bits_of cfg l a) (block_at (fst first) a)
               (block_at (fst (snd first)) a)"
  let ?P = "max 2 (nat (residual_length cfg))"
  let ?flag = "\<not> force_quant cfg \<or> residual_length cfg = 0"
  have fit: "\<forall>c\<in>set (first # rest). fits cfg l c"
    and d4: "\<forall>c\<in>set (first # rest). dim (fst c) = 4"
    using calls Cons by simp_all
  from run_fresh [OF served_ready [OF a] s fit refl, of be] d4 a
  have unf: "merge_log_at cfg be a calls s
      = ?flag # tiers_log (dims_at a) cfg be b (blocks_at rest a) (?T0 a)"
    unfolding Cons by blast
  have xs: "\<forall>x\<in>set (blocks_at rest a). dim (fst x) = dims_at a \<and> length (rows (fst x)) = 1"
    using calls Cons by (auto simp: blocks_at_def fits_block)
  have k: "length (rows ?k) = 1" "dim ?k = dims_at a"
    using calls Cons by (simp_all add: fits_block)
  have len: "length calls = Suc (length rest)" "length (blocks_at rest a) = length rest"
    using Cons by (simp_all add: blocks_at_def)
  show ?thesis
  proof (cases "force_quant cfg")
    case False
    have z: "r_key (?T0 a) = zeros0"
      by (rule first_tiers_single(1) [OF k(1)]) (simp add: False)
    have ih: "tiers_log (dims_at a) cfg be b (blocks_at rest a) (?T0 a)
        = map (\<lambda>i. (0 + 1 + i) mod ?P = 0) [0..<length rest]"
      using tiers_log_phase [OF refl dims_at_not_1 xs, of 0 "?T0 a" cfg be b] z
      by (simp add: len)
    have lhs: "merge_log_at cfg be a calls s
        = True # map (\<lambda>i. Suc i mod ?P = 0) [0..<length rest]"
      unfolding unf ih using False by simp
    have rhs: "map (\<lambda>i. if force_quant cfg then (i + 1) mod nat (residual_length cfg) = 0
              else i mod ?P = 0) [0..<length calls]
        = True # map (\<lambda>i. Suc i mod ?P = 0) [0..<length rest]"
      unfolding len map_upt_Suc using False by simp
    show ?thesis
      unfolding lhs rhs ..
  next
    case True
    with f have R: "2 \<le> residual_length cfg" by simp
    have P: "?P = nat (residual_length cfg)" using R by simp
    have z: "r_key (?T0 a) = ?k"
      by (rule first_tiers_single(2) [OF k(1) True R])
    have ih: "tiers_log (dims_at a) cfg be b (blocks_at rest a) (?T0 a)
        = map (\<lambda>i. (1 + 1 + i) mod ?P = 0) [0..<length rest]"
      using tiers_log_phase [OF refl dims_at_not_1 xs, of 1 "?T0 a" cfg be b] z k R
      by (simp add: len)
    have lhs: "merge_log_at cfg be a calls s
        = False # map (\<lambda>i. (1 + 1 + i) mod ?P = 0) [0..<length rest]"
      unfolding unf ih using True R by simp
    have rhs: "map (\<lambda>i. if force_quant cfg then (i + 1) mod nat (residual_length cfg) = 0
              else i mod ?P = 0) [0..<length calls]
        = False # map (\<lambda>i. (1 + 1 + i) mod ?P = 0) [0..<length rest]"
      unfolding len map_upt_Suc using True R by simp
    show ?thesis
      unfolding lhs rhs ..
  qed
qed

lemma residual_run_at:
  assumes a: "served cfg l a b" and s: "aligned s" "length (key_cache s) = l"
    and calls: "\<forall>c\<in>set (first # rest). fits cfg l c \<and> dim (fst c) = 4 \<and> rows (fst c) \<noteq> []
            \<and> length (rows (fst (snd c))) = length (rows (fst c))"
  shows "\<exists>rs s' t. updates cfg be (first # rest) s = (Inr rs, s')
        \<and> tiers_at s' l a = Inr t \<and> length (rows (r_value t)) = length (rows (r_key t))
        \<and> (rest \<noteq> [] \<longrightarrow>
             int (length (rows (r_key t))) \<le> max 0 (residual_length cfg - 2) + shape_m2 (fst (last rest)))
        \<and> residual_length cfg * int (length (filter id (tl (merge_log_at cfg be a (first # rest) s))))
             \<le> positions (first # rest)"
proof -
  let ?k = "block_at (fst first) a" and ?v = "block_at (fst (snd first)) a"
  let ?T0 = "\<lambda>a. first_tiers cfg be (bits_of cfg l a) (block_at (fst first) a)
               (block_at (fst (snd first)) a)"
  let ?t = "tiers_run (dims_at a) cfg be b (blocks_at rest a) (?T0 a)"
  have fit: "\<forall>c\<in>set (first # rest). fits cfg l c"
    and d4: "\<forall>c\<in>set (first # rest). dim (fst c) = 4"
    using calls by simp_all
  from run_fresh [OF served_ready [OF a] s fit refl, of be] d4 a
  obtain rs s' where run: "updates cfg be (first # rest) s = (Inr rs, s')"
    and h: "holds cfg s' l
       (\<lambda>a. tiers_run (dims_at a) cfg be (bits_of cfg l a) (blocks_at rest a) (?T0 a))"
    and log: "merge_log_at cfg be a (first # rest) s
      = (\<not> force_quant cfg \<or> residual_length cfg = 0)
         # tiers_log (dims_at a) cfg be b (blocks_at rest a) (?T0 a)"
    by blast
  have t: "tiers_at s' l a = Inr ?t"
    using holds_served [OF h a] by (simp add: served_bits_of [OF a])
  have xs: "\<forall>x\<in>set (blocks_at rest a). dim (fst x) = dims_at a \<and> rows (fst x) \<noteq> []
            \<and> length (rows (snd x)) = length (rows (fst x))"
    using calls by (auto simp: blocks_at_def fits_block)
  have k: "length (rows ?v) = length (rows ?k)" "dim ?k = dims_at a"
    using calls by (simp_all add: fits_block)
  note ft = first_tiers_residual [OF k(1), where cfg = cfg and be = be and b = "bits_of cfg l a"]
  from tiers_run_bound [OF dims_at_not_1 xs, of "?T0 a" cfg be b] ft(1,2) k(2)
  have eq: "length (rows (r_value ?t)) = length (rows (r_key ?t))"
    and bound: "blocks_at rest a \<noteq> [] \<longrightarrow> int (length (rows (r_key ?t)))
           \<le> max 0 (residual_length cfg - 2) + shape_m2 (fst (last (blocks_at rest a)))"
    and count: "residual_length cfg
         * int (length (filter id (tiers_log (dims_at a) cfg be b (blocks_at rest a) (?T0 a))))
           \<le> int (length (rows (r_key (?T0 a)))) + sizes (map fst (blocks_at rest a))"
    by simp_all
  have bound': "rest \<noteq> [] \<longrightarrow> int (length (rows (r_key ?t)))
           \<le> max 0 (residual_length cfg - 2) + shape_m2 (fst (last rest))"
    using bound by (simp add: last_blocks_at)
  have "int (length (rows (r_key (?T0 a)))) \<le> shape_m2 (fst first)"
    using ft(3) by (simp add: shape_m2_def)
  then have count': "residual_length cfg
      * int (length (filter id (tl (merge_log_at cfg be a (first # rest) s))))
      \<le> positions (first # rest)"
    using count unfolding log by (simp add: sizes_blocks_at positions_Cons)
  from run t eq bound' count' show ?thesis by blast
qed

lemma history_run_at:
  assumes r: "ready cfg l"
    and c: "keeps_positions be approx" "reflp approx" "transp approx"
    and s: "aligned s" "length (key_cache s) = l"
    and calls: "calls \<noteq> []" "\<forall>c\<in>set calls. fits cfg l c"
  shows "\<exists>rs s' H. updates cfg be calls s = (Inr rs, s') \<and> length rs = length calls
        \<and> last rs = (joined cfg l (\<lambda>a. fst (H a)), joined cfg l (\<lambda>a. snd (H a)))
        \<and> (\<forall>a b. served cfg l a b \<longrightarrow>
             (\<exists>t. tiers_at s' l a = Inr t
                \<and> covers approx be (concat (map (\<lambda>c. rows (block_at (fst c) a)) calls))
                    (q_key t) (r_key t)
                \<and> covers approx be (concat (map (\<lambda>c. rows (block_at (fst (snd c)) a)) calls))
                    (q_value t) (r_value t))
           \<and> list_all2 approx (concat (map (\<lambda>c. rows (block_at (fst c) a)) calls))
                (rows (fst (H a)))
           \<and> list_all2 approx (concat (map (\<lambda>c. rows (block_at (fst (snd c)) a)) calls))
                (rows (snd (H a))))"
proof -
  from calls obtain first rest where cc: "calls = first # rest"
    by (cases calls) auto
  let ?k = "\<lambda>a. block_at (fst first) a" and ?v = "\<lambda>a. block_at (fst (snd first)) a"
  let ?T0 = "\<lambda>a. first_tiers cfg be (bits_of cfg l a) (?k a) (?v a)"
  let ?H = "\<lambda>a. if rest = [] then first_history cfg be (?k a) (?v a) (?T0 a)
                else last (tiers_histories (dims_at a) cfg be (bits_of cfg l a)
                             (blocks_at rest a) (?T0 a))"
  let ?T = "\<lambda>a. tiers_run (dims_at a) cfg be (bits_of cfg l a) (blocks_at rest a) (?T0 a)"
  have fit: "\<forall>c\<in>set (first # rest). fits cfg l c" using calls cc by simp
  from run_fresh [OF r s fit refl, of be]
  obtain rs s' where run: "updates cfg be calls s = (Inr rs, s')"
    and len: "length rs = length calls"
    and h: "holds cfg s' l ?T"
    and la: "last rs = (joined cfg l (\<lambda>a. fst (?H a)), joined cfg l (\<lambda>a. snd (?H a)))"
    unfolding cc by auto
  have main: "\<forall>a b. served cfg l a b \<longrightarrow>
             (\<exists>t. tiers_at s' l a = Inr t
                \<and> covers approx be (concat (map (\<lambda>c. rows (block_at (fst c) a)) calls))
                    (q_key t) (r_key t)
                \<and> covers approx be (concat (map (\<lambda>c. rows (block_at (fst (snd c)) a)) calls))
                    (q_value t) (r_value t))
           \<and> list_all2 approx (concat (map (\<lambda>c. rows (block_at (fst c) a)) calls))
                (rows (fst (?H a)))
           \<and> list_all2 approx (concat (map (\<lambda>c. rows (block_at (fst (snd c)) a)) calls))
                (rows (snd (?H a)))"
  proof (intro allI impI)
    fix a b
    assume a: "served cfg l a b"
    have ks: "concat (map (\<lambda>c. rows (block_at (fst c) a)) calls)
        = rows (?k a) @ concat (map (\<lambda>x. rows (fst x)) (blocks_at rest a))"
      and vs: "concat (map (\<lambda>c. rows (block_at (fst (snd c)) a)) calls)
        = rows (?v a) @ concat (map (\<lambda>x. rows (snd x)) (blocks_at rest a))"
      by (simp_all add: cc blocks_at_def comp_def)
    note f = first_tiers_covers [OF c(1,2), where k = "?k a" and cfg = cfg
        and b = "bits_of cfg l a" and v = "?v a"]
    note n = tiers_run_covers [OF c f(1,2), where d = "dims_at a" and xs = "blocks_at rest a"
        and cfg = cfg and b = "bits_of cfg l a"]
    have t: "tiers_at s' l a = Inr (?T a)"
      by (rule holds_served [OF h a])
    have hk: "list_all2 approx (concat (map (\<lambda>c. rows (block_at (fst c) a)) calls))
                (rows (fst (?H a)))"
      and hv: "list_all2 approx (concat (map (\<lambda>c. rows (block_at (fst (snd c)) a)) calls))
                (rows (snd (?H a)))"
      unfolding ks vs using n f(3,4) by (auto simp: blocks_at_def)
    from t n hk hv show "(\<exists>t. tiers_at s' l a = Inr t
                \<and> covers approx be (concat (map (\<lambda>c. rows (block_at (fst c) a)) calls))
                    (q_key t) (r_key t)
                \<and> covers approx be (concat (map (\<lambda>c. rows (block_at (fst (snd c)) a)) calls))
                    (q_value t) (r_value t))
           \<and> list_all2 approx (concat (map (\<lambda>c. rows (block_at (fst c) a)) calls))
                (rows (fst (?H a)))
           \<and> list_all2 approx (concat (map (\<lambda>c. rows (block_at (fst (snd c)) a)) calls))
                (rows (snd (?H a)))"
      unfolding ks vs by blast
  qed
  show ?thesis
    by (intro exI [of _ rs] exI [of _ s'] exI [of _ ?H] conjI) (rule run len la main)+
qed

lemma first_tiers_force:
  fixes n R :: nat
  assumes "force_quant cfg" and "0 < residual_length cfg"
    and "n = length (rows k)" and "length (rows v) = n"
    and "R = nat (residual_length cfg)" and "n mod R \<noteq> 0"
  shows "first_tiers cfg be b k v =
     \<lparr>q_key = quantize be (take_m2 (n - n mod R) k) (axis_key cfg) (bits_key b),
      q_value = quantize be (take_m2 (n - n mod R) v) (axis_value cfg) (bits_value b),
      r_key = drop_m2 (n - n mod R) k,
      r_value = drop_m2 (n - n mod R) v\<rparr>"
proof -
  let ?t = "shape_m2 k mod residual_length cfg"
  have t: "?t = int (n mod R)"
    using assms by (simp add: shape_m2_def zmod_int)
  have tpos: "0 < ?t" "?t \<le> int (length (rows k))" "?t \<le> int (length (rows v))"
    using assms t by (simp_all add: mod_le_divisor)
  have nt: "nat ?t = n mod R" using t by simp
  have R0: "residual_length cfg \<noteq> 0" using assms(2) by simp
  show ?thesis
    unfolding first_tiers_def take_m2_def drop_m2_def
    by (simp only: assms(1) R0 simp_thms if_True not_False_eq_True
        slice_back [OF tpos(1,2)] slice_back [OF tpos(1,3)] nt assms(3) [symmetric] assms(4))
qed

lemma first_tiers_force0:
  assumes "residual_length cfg = 0"
  shows "first_tiers cfg be b k v =
     \<lparr>q_key = quantize be k (axis_key cfg) (bits_key b),
      q_value = quantize be v (axis_value cfg) (bits_value b),
      r_key = zeros0, r_value = zeros0\<rparr>"
  using assms by (simp add: first_tiers_def)

lemma first_plain_at:
  assumes a: "served cfg l a b" and nf: "\<not> force_quant cfg" and f: "fits cfg l (k, v, l)"
    and s: "aligned s" "length (key_cache s) = l"
  shows "fst (update cfg be k v l s) = Inr (joined cfg l (block_at k), joined cfg l (block_at v))"
    and "tiers_at (snd (update cfg be k v l s)) l a =
           Inr \<lparr>q_key = quantize be (block_at k a) (axis_key cfg) (bits_key b),
                q_value = quantize be (block_at v a) (axis_value cfg) (bits_value b),
                r_key = zeros0, r_value = zeros0\<rparr>"
proof -
  from step_first [OF served_ready [OF a] f s, of be]
  obtain s' where u: "update cfg be k v l s =
         (Inr (joined cfg l (\<lambda>a. fst (first_history cfg be (block_at k a) (block_at v a)
                  (first_tiers cfg be (bits_of cfg l a) (block_at k a) (block_at v a)))),
               joined cfg l (\<lambda>a. snd (first_history cfg be (block_at k a) (block_at v a)
                  (first_tiers cfg be (bits_of cfg l a) (block_at k a) (block_at v a))))), s')"
    and h: "holds cfg s' l
        (\<lambda>a. first_tiers cfg be (bits_of cfg l a) (block_at k a) (block_at v a))"
    by blast
  show "fst (update cfg be k v l s) = Inr (joined cfg l (block_at k), joined cfg l (block_at v))"
    unfolding u using nf by (simp add: first_history_def)
  show "tiers_at (snd (update cfg be k v l s)) l a =
           Inr \<lparr>q_key = quantize be (block_at k a) (axis_key cfg) (bits_key b),
                q_value = quantize be (block_at v a) (axis_value cfg) (bits_value b),
                r_key = zeros0, r_value = zeros0\<rparr>"
    unfolding u using holds_served [OF h a] nf
    by (simp add: first_tiers_def served_bits_of [OF a])
qed

lemma first_force_at:
  assumes a: "served cfg l a b" and fq: "force_quant cfg" and f: "fits cfg l (k, v, l)"
    and s: "aligned s" "length (key_cache s) = l"
  shows "fst (update cfg be k v l s) =
           Inr (joined cfg l (\<lambda>a. cat_m2
                  [dequantize be (q_key (first_tiers cfg be (bits_of cfg l a) (block_at k a) (block_at v a))),
                   r_key (first_tiers cfg be (bits_of cfg l a) (block_at k a) (block_at v a))]),
                joined cfg l (\<lambda>a. cat_m2
                  [dequantize be (q_value (first_tiers cfg be (bits_of cfg l a) (block_at k a) (block_at v a))),
                   r_value (first_tiers cfg be (bits_of cfg l a) (block_at k a) (block_at v a))]))"
    and "tiers_at (snd (update cfg be k v l s)) l a =
           Inr (first_tiers cfg be b (block_at k a) (block_at v a))"
proof -
  from step_first [OF served_ready [OF a] f s, of be]
  obtain s' where u: "update cfg be k v l s =
         (Inr (joined cfg l (\<lambda>a. fst (first_history cfg be (block_at k a) (block_at v a)
                  (first_tiers cfg be (bits_of cfg l a) (block_at k a) (block_at v a)))),
               joined cfg l (\<lambda>a. snd (first_history cfg be (block_at k a) (block_at v a)
                  (first_tiers cfg be (bits_of cfg l a) (block_at k a) (block_at v a))))), s')"
    and h: "holds cfg s' l
        (\<lambda>a. first_tiers cfg be (bits_of cfg l a) (block_at k a) (block_at v a))"
    by blast
  show "fst (update cfg be k v l s) =
           Inr (joined cfg l (\<lambda>a. cat_m2
                  [dequantize be (q_key (first_tiers cfg be (bits_of cfg l a) (block_at k a) (block_at v a))),
                   r_key (first_tiers cfg be (bits_of cfg l a) (block_at k a) (block_at v a))]),
                joined cfg l (\<lambda>a. cat_m2
                  [dequantize be (q_value (first_tiers cfg be (bits_of cfg l a) (block_at k a) (block_at v a))),
                   r_value (first_tiers cfg be (bits_of cfg l a) (block_at k a) (block_at v a))]))"
    unfolding u using fq by (simp add: first_history_def)
  show "tiers_at (snd (update cfg be k v l s)) l a =
           Inr (first_tiers cfg be b (block_at k a) (block_at v a))"
    unfolding u using holds_served [OF h a] by (simp add: served_bits_of [OF a])
qed

lemma next_at:
  assumes r: "ready cfg l" and f: "fits cfg l (k, v, l)" and h: "holds cfg s l T"
  shows "fst (update cfg be k v l s)
             = Inr (joined cfg l (\<lambda>a. cat_m2 [dequantize be (q_key (T a)), r_key (T a), block_at k a]),
                    joined cfg l (\<lambda>a. cat_m2 [dequantize be (q_value (T a)), r_value (T a), block_at v a]))"
  using step_next [OF r f h, of be] by (auto simp: next_history_def)

section \<open>The claims\<close>

text \<open>
  C7. A call for a layer index greater than the number of layer entries fails with the
  error of line 168 (\<open>SequentialAccessError\<close>). This holds in every mode and for every
  block; the call changes nothing in the cache (such an index is not 0, so the counter
  stays too), and nothing in \<^verbatim>\<open>update\<close> catches the error or tries again.
\<close>

theorem layer_skip_fails:
  "length (key_cache s) < layer_idx \<Longrightarrow>
   update cfg be key_states value_states layer_idx s = (Inl SequentialAccessError, s)"
  by (simp add: update_counted counted_def)

theorem layer_skip_fails_witness:
  "length (key_cache (empty_cache :: (int, int tensor) cache)) < 1 \<and>
   update (global_config 4 False) halving (block [7]) (block [9]) 1 empty_cache
     = (Inl SequentialAccessError, empty_cache) \<and>
   update (two_heads_config 4 False) halving (block [7]) (block [9]) 2 empty_cache
     = (Inl SequentialAccessError, empty_cache)"
proof -
  have h: "length (key_cache (empty_cache :: (int, int tensor) cache)) < 1"
    and h2: "length (key_cache (empty_cache :: (int, int tensor) cache)) < 2"
    by (simp_all add: empty_cache_def)
  show ?thesis
    using h layer_skip_fails [OF h] layer_skip_fails [OF h2] by simp
qed

text \<open>
  C10. A call for layer 0 adds \<^verbatim>\<open>key_states.shape[-2]\<close> to \<^verbatim>\<open>_seen_tokens\<close> in its first
  statement, and no later statement assigns the counter: whatever the call does next,
  return or raise, the counter is left increased. The instance below is a per-head call
  whose block has one head where two are configured: it raises the error of line 224
  and leaves the counter at 3.
\<close>

theorem seen_tokens_counted_first:
  "seen_tokens (snd (update cfg be key_states value_states 0 s))
     = seen_tokens s + shape_m2 key_states"
  by (simp add: update_counted seen_tokens_counted update_layer_keeps update_heads_keeps)

theorem seen_tokens_counted_first_witness:
  "update (two_heads_config 4 False) halving (block [7, 8, 9]) (block [1, 2, 3]) 0 empty_cache
     = (Inl ConfigError, empty_cache\<lparr>seen_tokens := 3\<rparr>) \<and>
   seen_tokens (snd (update (two_heads_config 4 False) halving (block [7, 8, 9]) (block [1, 2, 3])
     0 empty_cache)) = seen_tokens (empty_cache :: (int, int tensor) cache) + shape_m2 (block [7, 8, 9])"
proof -
  have "update (two_heads_config 4 False) halving (block [7, 8, 9]) (block [1, 2, 3]) 0 empty_cache
     = (Inl ConfigError, empty_cache\<lparr>seen_tokens := 3\<rparr>)"
    by (simp add: update_counted counted_def update_heads_def run_defs two_heads_config_def
        global_config_def block_def empty_cache_def shape_m2_def)
  then show ?thesis
    using seen_tokens_counted_first [of "two_heads_config 4 False" halving "block [7, 8, 9]"
        "block [1, 2, 3]" "empty_cache"]
    by simp
qed

text \<open>
  C8. In per-head mode, a call that is not a layer skip, with 4-D key and value blocks of
  one head count, for a layer that has a table of heads, fails with the error of line
  224 (\<open>ConfigError\<close>) when that head count is not the length of the table. The test
  stands before the four \<^verbatim>\<open>append([])\<close> of lines 227 to 230: the four lists of the cache
  are as they were, so no per-head entry of the layer has been started.
\<close>

theorem head_count_mismatch_fails:
  assumes "per_head_quant cfg" and "layer_idx \<le> length (key_cache s)"
    and "dim key_states = 4" and "dim value_states = 4"
    and "n_heads key_states = n_heads value_states"
    and "per_head_config cfg layer_idx = Some table"
    and "n_heads key_states \<noteq> length table"
  shows "fst (update cfg be key_states value_states layer_idx s) = Inl ConfigError
       \<and> key_cache (snd (update cfg be key_states value_states layer_idx s)) = key_cache s
       \<and> value_cache (snd (update cfg be key_states value_states layer_idx s)) = value_cache s
       \<and> quantized_key_cache (snd (update cfg be key_states value_states layer_idx s))
           = quantized_key_cache s
       \<and> quantized_value_cache (snd (update cfg be key_states value_states layer_idx s))
           = quantized_value_cache s"
  using assms by (simp add: update_counted update_heads_def run_defs)

theorem head_count_mismatch_fails_witness:
  "per_head_quant (two_heads_config 4 False)
   \<and> dim (Tensor 4 3 [[1, 2, 3::int]]) = 4 \<and> dim (Tensor 4 3 [[4, 5, 6::int]]) = 4
   \<and> n_heads (Tensor 4 3 [[1, 2, 3::int]]) = n_heads (Tensor 4 3 [[4, 5, 6::int]])
   \<and> n_heads (Tensor 4 3 [[1, 2, 3::int]])
        \<noteq> length [\<lparr>bits_key = 4, bits_value = 4\<rparr>, \<lparr>bits_key = 2, bits_value = 2\<rparr>]
   \<and> fst (update (two_heads_config 4 False) halving (Tensor 4 3 [[1, 2, 3]])
        (Tensor 4 3 [[4, 5, 6]]) 0 empty_cache) = Inl ConfigError
   \<and> key_cache (snd (update (two_heads_config 4 False) halving (Tensor 4 3 [[1, 2, 3]])
        (Tensor 4 3 [[4, 5, 6]]) 0 empty_cache)) = []
   \<and> quantized_key_cache (snd (update (two_heads_config 4 False) halving (Tensor 4 3 [[1, 2, 3]])
        (Tensor 4 3 [[4, 5, 6]]) 0 empty_cache)) = []"
proof -
  have h: "per_head_quant (two_heads_config 4 False)"
    "0 \<le> length (key_cache (empty_cache :: (int, int tensor) cache))"
    "dim (Tensor 4 3 [[1, 2, 3::int]]) = 4" "dim (Tensor 4 3 [[4, 5, 6::int]]) = 4"
    "n_heads (Tensor 4 3 [[1, 2, 3::int]]) = n_heads (Tensor 4 3 [[4, 5, 6::int]])"
    "per_head_config (two_heads_config 4 False) 0
        = Some [\<lparr>bits_key = 4, bits_value = 4\<rparr>, \<lparr>bits_key = 2, bits_value = 2\<rparr>]"
    "n_heads (Tensor 4 3 [[1, 2, 3::int]])
        \<noteq> length [\<lparr>bits_key = 4, bits_value = 4\<rparr>, \<lparr>bits_key = 2, bits_value = 2\<rparr>]"
    by (simp_all add: two_heads_config_def global_config_def)
  show ?thesis
    using h head_count_mismatch_fails [OF h, of halving]
    by (simp add: empty_cache_def)
qed

text \<open>
  C9, as the code has it. The constructor of the quanto backend fails with
  \<open>ConfigError\<close> exactly when \<^verbatim>\<open>nbits\<close> is not 2, 4 or 8, or \<^verbatim>\<open>axis_key\<close> or
  \<^verbatim>\<open>axis_value\<close> is not 0 or -1, and succeeds otherwise. \<^verbatim>\<open>get_qtype\<close> gives the three
  integer types for 2, 4 and 8 and returns \<^verbatim>\<open>None\<close>, without raising, for every other
  bit width.
\<close>

theorem quanto_checks:
  "(quanto_init cfg = Inl ConfigError \<or> quanto_init cfg = Inr ())
   \<and> (quanto_init cfg = Inl ConfigError
        \<longleftrightarrow> nbits cfg \<notin> {2, 4, 8} \<or> axis_key cfg \<notin> {0, - 1} \<or> axis_value cfg \<notin> {0, - 1})
   \<and> (get_qtype n = None \<longleftrightarrow> n \<notin> {2, 4, 8})
   \<and> get_qtype 2 = Some qint2 \<and> get_qtype 4 = Some qint4 \<and> get_qtype 8 = Some qint8"
  by (auto simp: quanto_init_def get_qtype_def)

theorem quanto_checks_witness:
  "quanto_init ((global_config 4 False)\<lparr>nbits := 3\<rparr>) = Inl ConfigError
   \<and> quanto_init ((global_config 4 False)\<lparr>axis_key := 1\<rparr>) = Inl ConfigError
   \<and> quanto_init ((global_config 4 False)\<lparr>axis_value := - 1\<rparr>) = Inr ()
   \<and> get_qtype 16 = None"
  using quanto_checks [of "(global_config 4 False)\<lparr>nbits := 3\<rparr>" 16]
    quanto_checks [of "(global_config 4 False)\<lparr>axis_key := 1\<rparr>" 16]
    quanto_checks [of "(global_config 4 False)\<lparr>axis_value := - 1\<rparr>" 16]
  by (auto simp add: global_config_def)

text \<open>
  C9, as stated, fails: a configuration with \<^verbatim>\<open>nbits = 4\<close> and \<^verbatim>\<open>nbits_key = 3\<close> passes the
  constructor, which looks at \<^verbatim>\<open>nbits\<close> only, and the request \<^verbatim>\<open>get_qtype(3)\<close> made for its
  keys returns \<^verbatim>\<open>None\<close> instead of raising.
\<close>

theorem quanto_unchecked_bits:
  "quanto_init ((global_config 4 False)\<lparr>nbits_key := 3\<rparr>) = Inr () \<and> get_qtype 3 = None"
  by (simp add: quanto_init_def get_qtype_def global_config_def)

text \<open>
  C1, as the code has it, for every entry: the entry of a layer in per-layer or global
  mode (address \<open>None\<close>) and the entry of each head in per-head mode (address
  \<open>Some h\<close>). The residual length is \<open>R\<close>, and single positions are appended one at a
  time to a layer that has no entry yet. Without \<^verbatim>\<open>force_quant\<close> the first call quantizes
  its block at once and leaves the residual empty, and the calls that merge are those
  whose number \<open>n\<close> (from 1) has \<open>(n - 1) mod max 2 R = 0\<close>. With \<^verbatim>\<open>force_quant\<close> and
  \<open>R \<ge> 2\<close> the first position stays in the residual, and the calls that merge are those
  with \<open>n mod R = 0\<close>: a merge happens exactly when the residual would reach \<open>R\<close>. With
  \<open>R = 4\<close> and 10 calls, the merges are after calls 1, 5 and 9 without \<^verbatim>\<open>force_quant\<close>,
  and after calls 4 and 8 with it. The list below is indexed from 0: its element \<open>i\<close>
  is call \<open>i + 1\<close>.
\<close>

theorem merge_timing:
  assumes "served cfg l a b" and "aligned s" and "length (key_cache s) = l"
    and "\<forall>c\<in>set calls. fits cfg l c \<and> dim (fst c) = 4 \<and> length (rows (fst c)) = 1"
    and "force_quant cfg \<longrightarrow> 2 \<le> residual_length cfg"
  shows "merge_log_at cfg be a calls s =
     map (\<lambda>i. if force_quant cfg then (i + 1) mod nat (residual_length cfg) = 0
              else i mod max 2 (nat (residual_length cfg)) = 0) [0..<length calls]"
  using assms by (rule merge_log_at_first)

theorem merge_timing_witness:
  "merge_log_at (global_config 4 True) halving None
       (one_by_one 0 [1, 2, 3, 4, 5, 6, 7, 8, 9, 10]) empty_cache
     = [False, False, False, True, False, False, False, True, False, False]
   \<and> merge_log_at (global_config 4 False) halving None
       (one_by_one 0 [1, 2, 3, 4, 5, 6, 7, 8, 9, 10]) empty_cache
     = [True, False, False, False, True, False, False, False, True, False]
   \<and> merge_log_at (global_config 1 False) halving None (one_by_one 0 [1, 2, 3, 4, 5, 6]) empty_cache
     = [True, False, True, False, True, False]
   \<and> merge_log_at (two_heads_config 4 True) halving (Some 1)
       (one_by_one2 0 [(1, 11), (2, 12), (3, 13), (4, 14), (5, 15), (6, 16), (7, 17), (8, 18)])
       empty_cache
     = [False, False, False, True, False, False, False, True]
   \<and> merge_log_at (two_heads_config 3 False) halving (Some 0)
       (one_by_one2 0 [(1, 11), (2, 12), (3, 13), (4, 14), (5, 15), (6, 16), (7, 17), (8, 18)])
       empty_cache
     = [True, False, False, True, False, False, True, False]"
proof -
  have g: "\<And>R f. served (global_config R f) 0 None \<lparr>bits_key = 4, bits_value = 4\<rparr>"
    "\<And>R f. served (two_heads_config R f) 0 (Some 1) \<lparr>bits_key = 2, bits_value = 2\<rparr>"
    "\<And>R f. served (two_heads_config R f) 0 (Some 0) \<lparr>bits_key = 4, bits_value = 4\<rparr>"
    by (simp_all add: served_def bits_at_def layer_bits_def item_def two_heads_config_def
        global_config_def)
  have s: "aligned (empty_cache :: (int, int tensor) cache)"
    "length (key_cache (empty_cache :: (int, int tensor) cache)) = 0"
    by (simp_all add: aligned_def empty_cache_def)
  have c: "\<And>R f xs. \<forall>c\<in>set (one_by_one 0 xs).
      fits (global_config R f) 0 c \<and> dim (fst c) = 4 \<and> length (rows (fst c)) = 1"
    "\<And>R f xs. \<forall>c\<in>set (one_by_one2 0 xs).
      fits (two_heads_config R f) 0 c \<and> dim (fst c) = 4 \<and> length (rows (fst c)) = 1"
    by (simp_all add: one_by_one_def block_def one_by_one2_def block2_def fits_def
        two_heads_config_def global_config_def)
  have f: "force_quant (global_config 4 True) \<longrightarrow> 2 \<le> residual_length (global_config 4 True)"
    "force_quant (global_config 4 False) \<longrightarrow> 2 \<le> residual_length (global_config 4 False)"
    "force_quant (global_config 1 False) \<longrightarrow> 2 \<le> residual_length (global_config 1 False)"
    "force_quant (two_heads_config 4 True) \<longrightarrow> 2 \<le> residual_length (two_heads_config 4 True)"
    "force_quant (two_heads_config 3 False) \<longrightarrow> 2 \<le> residual_length (two_heads_config 3 False)"
    by (simp_all add: global_config_def two_heads_config_def)
  have v: "map (\<lambda>i. if force_quant (global_config 4 True)
                  then (i + 1) mod nat (residual_length (global_config 4 True)) = 0
                  else i mod max 2 (nat (residual_length (global_config 4 True))) = 0)
             [0..<length (one_by_one 0 [1, 2, 3, 4, 5, 6, 7, 8, 9, 10])]
           = [False, False, False, True, False, False, False, True, False, False]"
    "map (\<lambda>i. if force_quant (global_config 4 False)
                  then (i + 1) mod nat (residual_length (global_config 4 False)) = 0
                  else i mod max 2 (nat (residual_length (global_config 4 False))) = 0)
             [0..<length (one_by_one 0 [1, 2, 3, 4, 5, 6, 7, 8, 9, 10])]
           = [True, False, False, False, True, False, False, False, True, False]"
    "map (\<lambda>i. if force_quant (global_config 1 False)
                  then (i + 1) mod nat (residual_length (global_config 1 False)) = 0
                  else i mod max 2 (nat (residual_length (global_config 1 False))) = 0)
             [0..<length (one_by_one 0 [1, 2, 3, 4, 5, 6])]
           = [True, False, True, False, True, False]"
    "map (\<lambda>i. if force_quant (two_heads_config 4 True)
                  then (i + 1) mod nat (residual_length (two_heads_config 4 True)) = 0
                  else i mod max 2 (nat (residual_length (two_heads_config 4 True))) = 0)
             [0..<length (one_by_one2 0
                [(1, 11), (2, 12), (3, 13), (4, 14), (5, 15), (6, 16), (7, 17), (8, 18)])]
           = [False, False, False, True, False, False, False, True]"
    "map (\<lambda>i. if force_quant (two_heads_config 3 False)
                  then (i + 1) mod nat (residual_length (two_heads_config 3 False)) = 0
                  else i mod max 2 (nat (residual_length (two_heads_config 3 False))) = 0)
             [0..<length (one_by_one2 0
                [(1, 11), (2, 12), (3, 13), (4, 14), (5, 15), (6, 16), (7, 17), (8, 18)])]
           = [True, False, False, True, False, False, True, False]"
    by code_simp+
  show ?thesis
    using merge_timing [OF g(1) s c(1) f(1), of halving "[1, 2, 3, 4, 5, 6, 7, 8, 9, 10]"]
      merge_timing [OF g(1) s c(1) f(2), of halving "[1, 2, 3, 4, 5, 6, 7, 8, 9, 10]"]
      merge_timing [OF g(1) s c(1) f(3), of halving "[1, 2, 3, 4, 5, 6]"]
      merge_timing [OF g(2) s c(2) f(4), of halving
        "[(1, 11), (2, 12), (3, 13), (4, 14), (5, 15), (6, 16), (7, 17), (8, 18)]"]
      merge_timing [OF g(3) s c(2) f(5), of halving
        "[(1, 11), (2, 12), (3, 13), (4, 14), (5, 15), (6, 16), (7, 17), (8, 18)]"]
    by (simp only: v simp_thms)
qed

text \<open>
  C1, as stated, fails: in the scenario of the specification (residual length 4, the
  default configuration, one position per call at layer 0, 10 calls) nothing merges
  after calls 4 and 8; the states with a freshly quantized history and an empty residual
  are those after calls 1, 5 and 9.
\<close>

theorem merges_shifted_example:
  "merge_log_at (global_config 4 False) halving None
       (one_by_one 0 [1, 2, 3, 4, 5, 6, 7, 8, 9, 10]) empty_cache
     = [True, False, False, False, True, False, False, False, True, False]"
  by code_simp

text \<open>
  C2, as the code has it, for every entry. The first call for a layer, when
  \<^verbatim>\<open>force_quant\<close> is off, quantizes the whole incoming key and value blocks into the
  quantized tier of the entry, with the bits of the entry, and makes both residuals the
  empty placeholder. It returns the incoming blocks themselves: in per-head mode the
  stack of their per-head slices.
\<close>

theorem first_append_quantizes:
  assumes "served cfg l a b" and "\<not> force_quant cfg"
    and "fits cfg l (key_states, value_states, l)"
    and "aligned s" and "length (key_cache s) = l"
  shows "fst (update cfg be key_states value_states l s)
           = Inr (joined cfg l (block_at key_states), joined cfg l (block_at value_states))
       \<and> tiers_at (snd (update cfg be key_states value_states l s)) l a =
           Inr \<lparr>q_key = quantize be (block_at key_states a) (axis_key cfg) (bits_key b),
                q_value = quantize be (block_at value_states a) (axis_value cfg) (bits_value b),
                r_key = zeros0, r_value = zeros0\<rparr>"
  using first_plain_at [OF assms] by simp

theorem first_append_quantizes_witness:
  "fst (update (global_config 4 False) halving (block [7, 8, 9]) (block [1, 2, 3]) 0 empty_cache)
     = Inr (block [7, 8, 9], block [1, 2, 3])
   \<and> tiers_at (snd (update (global_config 4 False) halving (block [7, 8, 9]) (block [1, 2, 3]) 0
        empty_cache)) 0 None
     = Inr \<lparr>q_key = block [3, 4, 4], q_value = block [0, 1, 1], r_key = zeros0, r_value = zeros0\<rparr>
   \<and> fst (update (two_heads_config 4 False) halving (block2 [(7, 17), (8, 18), (9, 19)])
        (block2 [(1, 11), (2, 12), (3, 13)]) 0 empty_cache)
     = Inr (block2 [(7, 17), (8, 18), (9, 19)], block2 [(1, 11), (2, 12), (3, 13)])
   \<and> tiers_at (snd (update (two_heads_config 4 False) halving (block2 [(7, 17), (8, 18), (9, 19)])
        (block2 [(1, 11), (2, 12), (3, 13)]) 0 empty_cache)) 0 (Some 1)
     = Inr \<lparr>q_key = Tensor 3 1 [[8], [9], [9]], q_value = Tensor 3 1 [[5], [6], [6]],
            r_key = zeros0, r_value = zeros0\<rparr>"
proof -
  have g: "served (global_config 4 False) 0 None \<lparr>bits_key = 4, bits_value = 4\<rparr>"
    "served (two_heads_config 4 False) 0 (Some 1) \<lparr>bits_key = 2, bits_value = 2\<rparr>"
    by (simp_all add: served_def bits_at_def layer_bits_def item_def two_heads_config_def
        global_config_def)
  have n: "\<not> force_quant (global_config 4 False)" "\<not> force_quant (two_heads_config 4 False)"
    by (simp_all add: two_heads_config_def global_config_def)
  have c: "fits (global_config 4 False) 0 (block [7, 8, 9], block [1, 2, 3], 0)"
    "fits (two_heads_config 4 False) 0
       (block2 [(7, 17), (8, 18), (9, 19)], block2 [(1, 11), (2, 12), (3, 13)], 0)"
    by (simp_all add: fits_def block_def block2_def two_heads_config_def global_config_def)
  have s: "aligned (empty_cache :: (int, int tensor) cache)"
    "length (key_cache (empty_cache :: (int, int tensor) cache)) = 0"
    by (simp_all add: aligned_def empty_cache_def)
  have v: "joined (global_config 4 False) 0 (block_at (block [7, 8, 9])) = block [7, 8, 9]"
    "joined (global_config 4 False) 0 (block_at (block [1, 2, 3])) = block [1, 2, 3]"
    "joined (two_heads_config 4 False) 0 (block_at (block2 [(7, 17), (8, 18), (9, 19)]))
       = block2 [(7, 17), (8, 18), (9, 19)]"
    "joined (two_heads_config 4 False) 0 (block_at (block2 [(1, 11), (2, 12), (3, 13)]))
       = block2 [(1, 11), (2, 12), (3, 13)]"
    "quantize halving (block_at (block [7, 8, 9]) None) (axis_key (global_config 4 False))
       (bits_key \<lparr>bits_key = 4, bits_value = 4\<rparr>) = block [3, 4, 4]"
    "quantize halving (block_at (block [1, 2, 3]) None) (axis_value (global_config 4 False))
       (bits_value \<lparr>bits_key = 4, bits_value = 4\<rparr>) = block [0, 1, 1]"
    "quantize halving (block_at (block2 [(7, 17), (8, 18), (9, 19)]) (Some 1))
       (axis_key (two_heads_config 4 False)) (bits_key \<lparr>bits_key = 2, bits_value = 2\<rparr>)
       = Tensor 3 1 [[8], [9], [9]]"
    "quantize halving (block_at (block2 [(1, 11), (2, 12), (3, 13)]) (Some 1))
       (axis_value (two_heads_config 4 False)) (bits_value \<lparr>bits_key = 2, bits_value = 2\<rparr>)
       = Tensor 3 1 [[5], [6], [6]]"
    by code_simp+
  show ?thesis
    using first_append_quantizes [OF g(1) n(1) c(1) s, of halving]
      first_append_quantizes [OF g(2) n(2) c(2) s, of halving]
    by (simp only: v simp_thms)
qed

text \<open>
  C2, as stated, fails: after the first call with the default configuration the residual
  of the layer is the empty placeholder, not the incoming block, and the quantized tier
  holds the quantized block.
\<close>

theorem first_append_residual_empty_example:
  "update (global_config 4 False) halving (block [7, 8, 9]) (block [1, 2, 3]) 0 empty_cache
     = (Inr (block [7, 8, 9], block [1, 2, 3]),
        \<lparr>seen_tokens = 3, key_cache = [Layer zeros0], value_cache = [Layer zeros0],
         quantized_key_cache = [Layer (block [3, 4, 4])],
         quantized_value_cache = [Layer (block [0, 1, 1])]\<rparr>)"
  by code_simp

text \<open>
  C6, as the code has it, for every entry, at the first call for a layer with
  \<^verbatim>\<open>force_quant\<close> on, on key and value blocks of \<open>n\<close> positions. If the residual length
  \<open>R\<close> is positive and \<open>n mod R\<close> is not 0, the first \<open>n - n mod R\<close> positions are
  quantized and the last \<open>n mod R\<close> positions are the residual. If \<open>R\<close> is 0, the whole
  block is quantized and the residual is the empty placeholder. In both cases the call
  returns, for each entry, the dequantized tier followed by the residual. (Blocks whose
  length is a multiple of \<open>R\<close> are not covered here; see \<open>force_quant_whole_groups\<close>.)
\<close>

theorem force_quant_first_append:
  fixes n R :: nat
  assumes "served cfg l a b" and "force_quant cfg"
    and "fits cfg l (key_states, value_states, l)"
    and "aligned s" and "length (key_cache s) = l"
    and "n = length (rows key_states)" and "length (rows value_states) = n"
    and "R = nat (residual_length cfg)"
  shows "(0 < residual_length cfg \<and> n mod R \<noteq> 0 \<longrightarrow>
           tiers_at (snd (update cfg be key_states value_states l s)) l a =
             Inr \<lparr>q_key = quantize be (take_m2 (n - n mod R) (block_at key_states a))
                           (axis_key cfg) (bits_key b),
                  q_value = quantize be (take_m2 (n - n mod R) (block_at value_states a))
                           (axis_value cfg) (bits_value b),
                  r_key = drop_m2 (n - n mod R) (block_at key_states a),
                  r_value = drop_m2 (n - n mod R) (block_at value_states a)\<rparr>
         \<and> fst (update cfg be key_states value_states l s) =
             Inr (joined cfg l (\<lambda>a. cat_m2
                    [dequantize be (quantize be (take_m2 (n - n mod R) (block_at key_states a))
                       (axis_key cfg) (bits_key (bits_of cfg l a))),
                     drop_m2 (n - n mod R) (block_at key_states a)]),
                  joined cfg l (\<lambda>a. cat_m2
                    [dequantize be (quantize be (take_m2 (n - n mod R) (block_at value_states a))
                       (axis_value cfg) (bits_value (bits_of cfg l a))),
                     drop_m2 (n - n mod R) (block_at value_states a)])))
       \<and> (residual_length cfg = 0 \<longrightarrow>
           tiers_at (snd (update cfg be key_states value_states l s)) l a =
             Inr \<lparr>q_key = quantize be (block_at key_states a) (axis_key cfg) (bits_key b),
                  q_value = quantize be (block_at value_states a) (axis_value cfg) (bits_value b),
                  r_key = zeros0, r_value = zeros0\<rparr>
         \<and> fst (update cfg be key_states value_states l s) =
             Inr (joined cfg l (\<lambda>a. cat_m2
                    [dequantize be (quantize be (block_at key_states a)
                       (axis_key cfg) (bits_key (bits_of cfg l a))), zeros0]),
                  joined cfg l (\<lambda>a. cat_m2
                    [dequantize be (quantize be (block_at value_states a)
                       (axis_value cfg) (bits_value (bits_of cfg l a))), zeros0])))"
proof (intro conjI impI)
  assume p: "0 < residual_length cfg \<and> n mod R \<noteq> 0"
  have ft: "first_tiers cfg be b' (block_at key_states a') (block_at value_states a') =
     \<lparr>q_key = quantize be (take_m2 (n - n mod R) (block_at key_states a'))
                (axis_key cfg) (bits_key b'),
      q_value = quantize be (take_m2 (n - n mod R) (block_at value_states a'))
                (axis_value cfg) (bits_value b'),
      r_key = drop_m2 (n - n mod R) (block_at key_states a'),
      r_value = drop_m2 (n - n mod R) (block_at value_states a')\<rparr>" for a' b'
    by (rule first_tiers_force) (use assms p in simp_all)
  show "tiers_at (snd (update cfg be key_states value_states l s)) l a =
             Inr \<lparr>q_key = quantize be (take_m2 (n - n mod R) (block_at key_states a))
                           (axis_key cfg) (bits_key b),
                  q_value = quantize be (take_m2 (n - n mod R) (block_at value_states a))
                           (axis_value cfg) (bits_value b),
                  r_key = drop_m2 (n - n mod R) (block_at key_states a),
                  r_value = drop_m2 (n - n mod R) (block_at value_states a)\<rparr>"
    using first_force_at(2) [OF assms(1-5), of be] by (simp only: ft)
  show "fst (update cfg be key_states value_states l s) =
             Inr (joined cfg l (\<lambda>a. cat_m2
                    [dequantize be (quantize be (take_m2 (n - n mod R) (block_at key_states a))
                       (axis_key cfg) (bits_key (bits_of cfg l a))),
                     drop_m2 (n - n mod R) (block_at key_states a)]),
                  joined cfg l (\<lambda>a. cat_m2
                    [dequantize be (quantize be (take_m2 (n - n mod R) (block_at value_states a))
                       (axis_value cfg) (bits_value (bits_of cfg l a))),
                     drop_m2 (n - n mod R) (block_at value_states a)]))"
    using first_force_at(1) [OF assms(1-5), of be] by (simp add: ft)
next
  assume z: "residual_length cfg = 0"
  note ft = first_tiers_force0 [OF z]
  show "tiers_at (snd (update cfg be key_states value_states l s)) l a =
             Inr \<lparr>q_key = quantize be (block_at key_states a) (axis_key cfg) (bits_key b),
                  q_value = quantize be (block_at value_states a) (axis_value cfg) (bits_value b),
                  r_key = zeros0, r_value = zeros0\<rparr>"
    using first_force_at(2) [OF assms(1-5), of be] by (simp only: ft)
  show "fst (update cfg be key_states value_states l s) =
             Inr (joined cfg l (\<lambda>a. cat_m2
                    [dequantize be (quantize be (block_at key_states a)
                       (axis_key cfg) (bits_key (bits_of cfg l a))), zeros0]),
                  joined cfg l (\<lambda>a. cat_m2
                    [dequantize be (quantize be (block_at value_states a)
                       (axis_value cfg) (bits_value (bits_of cfg l a))), zeros0]))"
    using first_force_at(1) [OF assms(1-5), of be] by (simp add: ft)
qed

theorem force_quant_first_append_witness:
  "tiers_at (snd (update (global_config 3 True) halving (block [1, 2, 3, 4, 5, 6, 7, 8])
       (block [11, 12, 13, 14, 15, 16, 17, 18]) 0 empty_cache)) 0 None
     = Inr \<lparr>q_key = block [0, 1, 1, 2, 2, 3], q_value = block [5, 6, 6, 7, 7, 8],
            r_key = block [7, 8], r_value = block [17, 18]\<rparr>
   \<and> fst (update (global_config 3 True) halving (block [1, 2, 3, 4, 5, 6, 7, 8])
       (block [11, 12, 13, 14, 15, 16, 17, 18]) 0 empty_cache)
     = Inr (block [0, 2, 2, 4, 4, 6, 7, 8], block [10, 12, 12, 14, 14, 16, 17, 18])
   \<and> tiers_at (snd (update (global_config 0 True) halving (block [7, 8, 9]) (block [1, 2, 3]) 0
       empty_cache)) 0 None
     = Inr \<lparr>q_key = block [3, 4, 4], q_value = block [0, 1, 1], r_key = zeros0, r_value = zeros0\<rparr>
   \<and> fst (update (global_config 0 True) halving (block [7, 8, 9]) (block [1, 2, 3]) 0 empty_cache)
     = Inr (block [6, 8, 8], block [0, 2, 2])
   \<and> tiers_at (snd (update (two_heads_config 2 True) halving
       (block2 [(1, 11), (2, 12), (3, 13)]) (block2 [(21, 31), (22, 32), (23, 33)]) 0
       empty_cache)) 0 (Some 1)
     = Inr \<lparr>q_key = Tensor 3 1 [[5], [6]], q_value = Tensor 3 1 [[15], [16]],
            r_key = Tensor 3 1 [[13]], r_value = Tensor 3 1 [[33]]\<rparr>
   \<and> fst (update (two_heads_config 2 True) halving
       (block2 [(1, 11), (2, 12), (3, 13)]) (block2 [(21, 31), (22, 32), (23, 33)]) 0 empty_cache)
     = Inr (block2 [(0, 10), (2, 12), (3, 13)], block2 [(20, 30), (22, 32), (23, 33)])"
proof -
  have g: "\<And>R. served (global_config R True) 0 None \<lparr>bits_key = 4, bits_value = 4\<rparr>"
    "served (two_heads_config 2 True) 0 (Some 1) \<lparr>bits_key = 2, bits_value = 2\<rparr>"
    by (simp_all add: served_def bits_at_def layer_bits_def item_def two_heads_config_def
        global_config_def)
  have q: "\<And>R. force_quant (global_config R True)" "force_quant (two_heads_config 2 True)"
    by (simp_all add: two_heads_config_def global_config_def)
  have c: "\<And>R k v. fits (global_config R True) 0 (k, v, 0)"
    "fits (two_heads_config 2 True) 0
       (block2 [(1, 11), (2, 12), (3, 13)], block2 [(21, 31), (22, 32), (23, 33)], 0)"
    by (simp_all add: fits_def block2_def two_heads_config_def global_config_def)
  have s: "aligned (empty_cache :: (int, int tensor) cache)"
    "length (key_cache (empty_cache :: (int, int tensor) cache)) = 0"
    by (simp_all add: aligned_def empty_cache_def)
  have n: "8 = length (rows (block [1, 2, 3, 4, 5, 6, 7, 8]))"
    "length (rows (block [11, 12, 13, 14, 15, 16, 17, 18])) = 8"
    "3 = length (rows (block [7, 8, 9]))" "length (rows (block [1, 2, 3])) = 3"
    "3 = length (rows (block2 [(1, 11), (2, 12), (3, 13)]))"
    "length (rows (block2 [(21, 31), (22, 32), (23, 33)])) = 3"
    "3 = nat (residual_length (global_config 3 True))"
    "0 = nat (residual_length (global_config 0 True))"
    "2 = nat (residual_length (two_heads_config 2 True))"
    by (simp_all add: block_def block2_def global_config_def two_heads_config_def)
  have r: "0 < residual_length (global_config 3 True) \<and> (8::nat) mod 3 \<noteq> 0"
    "residual_length (global_config 0 True) = 0"
    "0 < residual_length (two_heads_config 2 True) \<and> (3::nat) mod 2 \<noteq> 0"
    by (simp_all add: global_config_def two_heads_config_def)
  have v: "quantize halving (take_m2 (8 - 8 mod 3) (block_at (block [1, 2, 3, 4, 5, 6, 7, 8]) None))
             (axis_key (global_config 3 True)) (bits_key \<lparr>bits_key = 4, bits_value = 4\<rparr>)
           = block [0, 1, 1, 2, 2, 3]"
    "quantize halving (take_m2 (8 - 8 mod 3) (block_at (block [11, 12, 13, 14, 15, 16, 17, 18]) None))
             (axis_value (global_config 3 True)) (bits_value \<lparr>bits_key = 4, bits_value = 4\<rparr>)
           = block [5, 6, 6, 7, 7, 8]"
    "drop_m2 (8 - 8 mod 3) (block_at (block [1, 2, 3, 4, 5, 6, 7, 8]) None) = block [7, 8]"
    "drop_m2 (8 - 8 mod 3) (block_at (block [11, 12, 13, 14, 15, 16, 17, 18]) None)
       = block [17, 18]"
    "joined (global_config 3 True) 0 (\<lambda>a. cat_m2
        [dequantize halving (quantize halving
           (take_m2 (8 - 8 mod 3) (block_at (block [1, 2, 3, 4, 5, 6, 7, 8]) a))
           (axis_key (global_config 3 True)) (bits_key (bits_of (global_config 3 True) 0 a))),
         drop_m2 (8 - 8 mod 3) (block_at (block [1, 2, 3, 4, 5, 6, 7, 8]) a)])
       = block [0, 2, 2, 4, 4, 6, 7, 8]"
    "joined (global_config 3 True) 0 (\<lambda>a. cat_m2
        [dequantize halving (quantize halving
           (take_m2 (8 - 8 mod 3) (block_at (block [11, 12, 13, 14, 15, 16, 17, 18]) a))
           (axis_value (global_config 3 True)) (bits_value (bits_of (global_config 3 True) 0 a))),
         drop_m2 (8 - 8 mod 3) (block_at (block [11, 12, 13, 14, 15, 16, 17, 18]) a)])
       = block [10, 12, 12, 14, 14, 16, 17, 18]"
    "quantize halving (block_at (block [7, 8, 9]) None) (axis_key (global_config 0 True))
       (bits_key \<lparr>bits_key = 4, bits_value = 4\<rparr>) = block [3, 4, 4]"
    "quantize halving (block_at (block [1, 2, 3]) None) (axis_value (global_config 0 True))
       (bits_value \<lparr>bits_key = 4, bits_value = 4\<rparr>) = block [0, 1, 1]"
    "joined (global_config 0 True) 0 (\<lambda>a. cat_m2
        [dequantize halving (quantize halving (block_at (block [7, 8, 9]) a)
           (axis_key (global_config 0 True)) (bits_key (bits_of (global_config 0 True) 0 a))),
         zeros0]) = block [6, 8, 8]"
    "joined (global_config 0 True) 0 (\<lambda>a. cat_m2
        [dequantize halving (quantize halving (block_at (block [1, 2, 3]) a)
           (axis_value (global_config 0 True)) (bits_value (bits_of (global_config 0 True) 0 a))),
         zeros0]) = block [0, 2, 2]"
    "quantize halving (take_m2 (3 - 3 mod 2) (block_at (block2 [(1, 11), (2, 12), (3, 13)]) (Some 1)))
       (axis_key (two_heads_config 2 True)) (bits_key \<lparr>bits_key = 2, bits_value = 2\<rparr>)
       = Tensor 3 1 [[5], [6]]"
    "quantize halving
       (take_m2 (3 - 3 mod 2) (block_at (block2 [(21, 31), (22, 32), (23, 33)]) (Some 1)))
       (axis_value (two_heads_config 2 True)) (bits_value \<lparr>bits_key = 2, bits_value = 2\<rparr>)
       = Tensor 3 1 [[15], [16]]"
    "drop_m2 (3 - 3 mod 2) (block_at (block2 [(1, 11), (2, 12), (3, 13)]) (Some 1))
       = Tensor 3 1 [[13]]"
    "drop_m2 (3 - 3 mod 2) (block_at (block2 [(21, 31), (22, 32), (23, 33)]) (Some 1))
       = Tensor 3 1 [[33]]"
    "joined (two_heads_config 2 True) 0 (\<lambda>a. cat_m2
        [dequantize halving (quantize halving
           (take_m2 (3 - 3 mod 2) (block_at (block2 [(1, 11), (2, 12), (3, 13)]) a))
           (axis_key (two_heads_config 2 True))
           (bits_key (bits_of (two_heads_config 2 True) 0 a))),
         drop_m2 (3 - 3 mod 2) (block_at (block2 [(1, 11), (2, 12), (3, 13)]) a)])
       = block2 [(0, 10), (2, 12), (3, 13)]"
    "joined (two_heads_config 2 True) 0 (\<lambda>a. cat_m2
        [dequantize halving (quantize halving
           (take_m2 (3 - 3 mod 2) (block_at (block2 [(21, 31), (22, 32), (23, 33)]) a))
           (axis_value (two_heads_config 2 True))
           (bits_value (bits_of (two_heads_config 2 True) 0 a))),
         drop_m2 (3 - 3 mod 2) (block_at (block2 [(21, 31), (22, 32), (23, 33)]) a)])
       = block2 [(20, 30), (22, 32), (23, 33)]"
    by code_simp+
  show ?thesis
    using force_quant_first_append [OF g(1) q(1) c(1) s n(1,2,7), of halving]
      force_quant_first_append [OF g(1) q(1) c(1) s n(3,4,8), of halving]
      force_quant_first_append [OF g(2) q(2) c(2) s n(5,6,9), of halving] r
    by (simp only: v simp_thms)
qed

text \<open>
  C6, as stated, fails for the residual length 0: the block does not stay as residual,
  it is quantized whole, and the residual is the empty placeholder.
\<close>

theorem force_quant_zero_residual_example:
  "update (global_config 0 True) halving (block [7, 8, 9]) (block [1, 2, 3]) 0 empty_cache
     = (Inr (block [6, 8, 8], block [0, 2, 2]),
        \<lparr>seen_tokens = 3, key_cache = [Layer zeros0], value_cache = [Layer zeros0],
         quantized_key_cache = [Layer (block [3, 4, 4])],
         quantized_value_cache = [Layer (block [0, 1, 1])]\<rparr>)"
  by code_simp

text \<open>
  When the length of the first block is a multiple of the positive residual length,
  \<^verbatim>\<open>tokens_to_keep\<close> is 0, and the slices \<^verbatim>\<open>[..., :-0, :]\<close> and \<^verbatim>\<open>[..., -0:, :]\<close> of lines 179
  to 182 are the empty block and the whole block: nothing is quantized and every
  position stays in the residual.
\<close>

lemma force_quant_whole_groups:
  assumes "\<not> per_head_quant cfg" and "force_quant cfg" and "layer_bits cfg l = Inr b"
    and "aligned s" and "length (key_cache s) = l"
    and "0 < residual_length cfg"
    and "shape_m2 key_states mod residual_length cfg = 0"
  shows "entry (snd (update cfg be key_states value_states l s)) l
           (quantize be (Tensor (dim key_states) (n_heads key_states) []) (axis_key cfg) (bits_key b))
           (quantize be (Tensor (dim value_states) (n_heads value_states) []) (axis_value cfg)
              (bits_value b))
           key_states value_states"
proof -
  have R0: "residual_length cfg \<noteq> 0" using assms(6) by simp
  have sl: "\<And>x :: 'a tensor. slice_to x (- 0) = Tensor (dim x) (n_heads x) []"
    "\<And>x :: 'a tensor. slice_from x (- 0) = x"
    by (simp_all add: slice_to_def slice_from_def slice_index_def)
  show ?thesis
    using first_entry_force(2) [OF assms(1,2) R0 assms(3,4,5), of be key_states value_states]
    by (simp only: assms(7) sl)
qed

lemma force_quant_whole_groups_example:
  "update (global_config 2 True) halving (block [7, 8, 9, 10]) (block [1, 2, 3, 4]) 0 empty_cache
     = (Inr (block [7, 8, 9, 10], block [1, 2, 3, 4]),
        \<lparr>seen_tokens = 4, key_cache = [Layer (block [7, 8, 9, 10])],
         value_cache = [Layer (block [1, 2, 3, 4])],
         quantized_key_cache = [Layer (block [])],
         quantized_value_cache = [Layer (block [])]\<rparr>)"
  by code_simp

text \<open>
  C4. \<^verbatim>\<open>get_seq_length\<close> returns 0 for a layer index that has no entry (the list of
  entries is not longer than the index), the counter for layer 0, and the counter minus
  one for every other layer with an entry. After a sequence of calls that all returned,
  on a cache whose counter was \<open>seen_tokens s\<close> before (0 for a new cache), the counter
  is that number plus the number of positions appended at layer 0.
\<close>

theorem seq_length_reported:
  assumes "updates cfg be calls s = (Inr rs, s')"
  shows "get_seq_length s' layer_idx =
     (if length (key_cache s') \<le> layer_idx then 0
      else if layer_idx = 0 then seen_tokens s + layer0_positions calls
      else seen_tokens s + layer0_positions calls - 1)"
  using updates_seen_tokens [OF assms] by (simp add: get_seq_length_def)

theorem seq_length_reported_witness:
  "get_seq_length (snd (updates (global_config 4 False) halving
      [(block [1, 2, 3], block [4, 5, 6], 0), (block [1, 2, 3], block [4, 5, 6], 1),
       (block [7], block [8], 0), (block [7], block [8], 1)] empty_cache)) 0 = 4
   \<and> get_seq_length (snd (updates (global_config 4 False) halving
      [(block [1, 2, 3], block [4, 5, 6], 0), (block [1, 2, 3], block [4, 5, 6], 1),
       (block [7], block [8], 0), (block [7], block [8], 1)] empty_cache)) 1 = 3
   \<and> get_seq_length (snd (updates (global_config 4 False) halving
      [(block [1, 2, 3], block [4, 5, 6], 0), (block [1, 2, 3], block [4, 5, 6], 1),
       (block [7], block [8], 0), (block [7], block [8], 1)] empty_cache)) 2 = 0"
proof -
  let ?calls = "[(block [1, 2, 3], block [4, 5, 6], 0::nat), (block [1, 2, 3], block [4, 5, 6], 1),
       (block [7], block [8], 0), (block [7], block [8], 1)]"
  let ?s = "\<lparr>seen_tokens = 4, key_cache = [Layer (block [7]), Layer (block [7])],
       value_cache = [Layer (block [8]), Layer (block [8])],
       quantized_key_cache = [Layer (block [0, 1, 1]), Layer (block [0, 1, 1])],
       quantized_value_cache = [Layer (block [2, 2, 3]), Layer (block [2, 2, 3])]\<rparr>"
  have run: "updates (global_config 4 False) halving ?calls empty_cache
      = (Inr [(block [1, 2, 3], block [4, 5, 6]), (block [1, 2, 3], block [4, 5, 6]),
              (block [0, 2, 2, 7], block [4, 4, 6, 8]), (block [0, 2, 2, 7], block [4, 4, 6, 8])],
         ?s)"
    by code_simp
  have n: "layer0_positions ?calls = 4" "seen_tokens (empty_cache :: (int, int tensor) cache) = 0"
    "length (key_cache ?s) = 2"
    by (simp_all add: layer0_positions_def shape_m2_def block_def empty_cache_def)
  have "get_seq_length ?s 0 = 4" "get_seq_length ?s 1 = 3" "get_seq_length ?s 2 = 0"
    using seq_length_reported [OF run, of 0] seq_length_reported [OF run, of 1]
      seq_length_reported [OF run, of 2]
    unfolding n by simp_all
  then show ?thesis
    by (simp only: run snd_conv simp_thms)
qed

text \<open>
  C3, for every entry. A call for a layer whose entries exist returns, for keys and for
  values and for each entry, the concatenation of the dequantized tier, the residual and
  the new block, whether the call merges or not; in per-head mode these per-head
  histories are returned stacked. For a sequence of calls for a layer without an entry,
  with a codec that keeps positions up to \<open>approx\<close>: every call returns; for each entry,
  the history returned last has one row for each position appended, in the order of the
  calls, each within \<open>approx\<close> of what was appended; and the entry left holds these
  positions, the residual exactly and the quantized tier within \<open>approx\<close>. (The same
  holds for every prefix of the calls, so for every history returned.)
\<close>

theorem history_in_order:
  assumes "ready cfg l"
  shows "(fits cfg l (k, v, l) \<and> holds cfg s1 l T \<longrightarrow>
           fst (update cfg be k v l s1)
             = Inr (joined cfg l (\<lambda>a. cat_m2 [dequantize be (q_key (T a)), r_key (T a), block_at k a]),
                    joined cfg l (\<lambda>a. cat_m2 [dequantize be (q_value (T a)), r_value (T a),
                                              block_at v a])))
       \<and> (keeps_positions be approx \<and> reflp approx \<and> transp approx
           \<and> aligned s \<and> length (key_cache s) = l
           \<and> calls \<noteq> [] \<and> (\<forall>c\<in>set calls. fits cfg l c) \<longrightarrow>
           (\<exists>rs s' H. updates cfg be calls s = (Inr rs, s') \<and> length rs = length calls
              \<and> last rs = (joined cfg l (\<lambda>a. fst (H a)), joined cfg l (\<lambda>a. snd (H a)))
              \<and> (\<forall>a b. served cfg l a b \<longrightarrow>
                   (\<exists>t. tiers_at s' l a = Inr t
                      \<and> covers approx be (concat (map (\<lambda>c. rows (block_at (fst c) a)) calls))
                          (q_key t) (r_key t)
                      \<and> covers approx be (concat (map (\<lambda>c. rows (block_at (fst (snd c)) a)) calls))
                          (q_value t) (r_value t))
                 \<and> list_all2 approx (concat (map (\<lambda>c. rows (block_at (fst c) a)) calls))
                      (rows (fst (H a)))
                 \<and> list_all2 approx (concat (map (\<lambda>c. rows (block_at (fst (snd c)) a)) calls))
                      (rows (snd (H a))))))"
proof (intro conjI impI)
  assume "fits cfg l (k, v, l) \<and> holds cfg s1 l T"
  then show "fst (update cfg be k v l s1)
             = Inr (joined cfg l (\<lambda>a. cat_m2 [dequantize be (q_key (T a)), r_key (T a), block_at k a]),
                    joined cfg l (\<lambda>a. cat_m2 [dequantize be (q_value (T a)), r_value (T a),
                                              block_at v a]))"
    using next_at [OF assms, of k v s1 T be] by blast
next
  assume a: "keeps_positions be approx \<and> reflp approx \<and> transp approx
           \<and> aligned s \<and> length (key_cache s) = l
           \<and> calls \<noteq> [] \<and> (\<forall>c\<in>set calls. fits cfg l c)"
  then show "\<exists>rs s' H. updates cfg be calls s = (Inr rs, s') \<and> length rs = length calls
              \<and> last rs = (joined cfg l (\<lambda>a. fst (H a)), joined cfg l (\<lambda>a. snd (H a)))
              \<and> (\<forall>a b. served cfg l a b \<longrightarrow>
                   (\<exists>t. tiers_at s' l a = Inr t
                      \<and> covers approx be (concat (map (\<lambda>c. rows (block_at (fst c) a)) calls))
                          (q_key t) (r_key t)
                      \<and> covers approx be (concat (map (\<lambda>c. rows (block_at (fst (snd c)) a)) calls))
                          (q_value t) (r_value t))
                 \<and> list_all2 approx (concat (map (\<lambda>c. rows (block_at (fst c) a)) calls))
                      (rows (fst (H a)))
                 \<and> list_all2 approx (concat (map (\<lambda>c. rows (block_at (fst (snd c)) a)) calls))
                      (rows (snd (H a))))"
    using history_run_at [OF assms, of be approx s calls] by blast
qed

theorem history_in_order_witness:
  "fst (update (global_config 2 False) halving (block [3]) (block [103]) 0
       \<lparr>seen_tokens = 2, key_cache = [Layer (block [2])], value_cache = [Layer (block [102])],
        quantized_key_cache = [Layer (block [0])], quantized_value_cache = [Layer (block [50])]\<rparr>)
     = Inr (block [0, 2, 3], block [100, 102, 103])
   \<and> (\<exists>rs s' H t.
         updates (two_heads_config 2 False) halving
           (one_by_one2 0 [(1, 11), (2, 12), (3, 13), (4, 14), (5, 15)]) empty_cache = (Inr rs, s')
       \<and> length rs = length (one_by_one2 0 [(1, 11), (2, 12), (3, 13), (4, 14), (5, 15)])
       \<and> last rs = (joined (two_heads_config 2 False) 0 (\<lambda>a. fst (H a)),
                    joined (two_heads_config 2 False) 0 (\<lambda>a. snd (H a)))
       \<and> tiers_at s' 0 (Some 1) = Inr t
       \<and> covers near halving [[11], [12], [13], [14], [15]] (q_key t) (r_key t)
       \<and> covers near halving [[111], [112], [113], [114], [115]] (q_value t) (r_value t)
       \<and> list_all2 near [[11], [12], [13], [14], [15]] (rows (fst (H (Some 1))))
       \<and> list_all2 near [[111], [112], [113], [114], [115]] (rows (snd (H (Some 1)))))
   \<and> updates (global_config 2 False) halving (one_by_one 0 [1, 2, 3, 4, 5]) empty_cache
     = (Inr [(block [1], block [101]), (block [0, 2], block [100, 102]),
             (block [0, 2, 3], block [100, 102, 103]),
             (block [0, 2, 2, 4], block [100, 102, 102, 104]),
             (block [0, 2, 2, 4, 5], block [100, 102, 102, 104, 105])],
        \<lparr>seen_tokens = 5, key_cache = [Layer zeros0], value_cache = [Layer zeros0],
         quantized_key_cache = [Layer (block [0, 1, 1, 2, 2])],
         quantized_value_cache = [Layer (block [50, 51, 51, 52, 52])]\<rparr>)"
proof -
  let ?s1 = "\<lparr>seen_tokens = 2, key_cache = [Layer (block [2])], value_cache = [Layer (block [102])],
        quantized_key_cache = [Layer (block [0])], quantized_value_cache = [Layer (block [50])]\<rparr>"
  let ?T = "\<lambda>a :: nat option. \<lparr>q_key = block [0], q_value = block [50],
        r_key = block [2], r_value = block [102]\<rparr>"
  let ?calls = "one_by_one2 0 [(1, 11), (2, 12), (3, 13), (4, 14), (5, 15)]"
  have g: "ready (global_config 2 False) 0" "ready (two_heads_config 2 False) 0"
    by (simp_all add: ready_def global_config_def two_heads_config_def layer_bits_def)
  have e1: "fits (global_config 2 False) 0 (block [3], block [103], 0)
      \<and> holds (global_config 2 False) ?s1 0 ?T"
    by (simp add: fits_def holds_def global_config_def tiers_at_def slot_item_def attempt_def
        layer_item_def item_def)
  have v1: "joined (global_config 2 False) 0
        (\<lambda>a. cat_m2 [dequantize halving (q_key (?T a)), r_key (?T a), block_at (block [3]) a])
      = block [0, 2, 3]"
    "joined (global_config 2 False) 0
        (\<lambda>a. cat_m2 [dequantize halving (q_value (?T a)), r_value (?T a), block_at (block [103]) a])
      = block [100, 102, 103]"
    by code_simp+
  have a: "fst (update (global_config 2 False) halving (block [3]) (block [103]) 0 ?s1)
     = Inr (block [0, 2, 3], block [100, 102, 103])"
    using history_in_order [OF g(1), of "block [3]" "block [103]" ?s1 ?T halving] e1
    by (simp only: v1)
  have h: "keeps_positions halving near \<and> reflp near \<and> transp near
      \<and> aligned (empty_cache :: (int, int tensor) cache)
      \<and> length (key_cache (empty_cache :: (int, int tensor) cache)) = 0
      \<and> ?calls \<noteq> [] \<and> (\<forall>c\<in>set ?calls. fits (two_heads_config 2 False) 0 c)"
    by (simp add: halving_keeps_positions near_refl near_trans aligned_def empty_cache_def
        one_by_one2_def block2_def fits_def two_heads_config_def global_config_def)
  have sv: "served (two_heads_config 2 False) 0 (Some 1) \<lparr>bits_key = 2, bits_value = 2\<rparr>"
    by (simp add: served_def bits_at_def item_def two_heads_config_def global_config_def)
  have c: "concat (map (\<lambda>c. rows (block_at (fst c) (Some 1))) ?calls)
        = [[11], [12], [13], [14], [15]]"
    "concat (map (\<lambda>c. rows (block_at (fst (snd c)) (Some 1))) ?calls)
        = [[111], [112], [113], [114], [115]]"
    by code_simp+
  from history_in_order [OF g(2), of _ _ _ _ halving near empty_cache ?calls] h
  obtain rs s' H where run: "updates (two_heads_config 2 False) halving ?calls empty_cache
        = (Inr rs, s')"
    and len: "length rs = length ?calls"
    and la: "last rs = (joined (two_heads_config 2 False) 0 (\<lambda>a. fst (H a)),
                        joined (two_heads_config 2 False) 0 (\<lambda>a. snd (H a)))"
    and al: "\<forall>a b. served (two_heads_config 2 False) 0 a b \<longrightarrow>
                   (\<exists>t. tiers_at s' 0 a = Inr t
                      \<and> covers near halving
                          (concat (map (\<lambda>c. rows (block_at (fst c) a)) ?calls)) (q_key t) (r_key t)
                      \<and> covers near halving
                          (concat (map (\<lambda>c. rows (block_at (fst (snd c)) a)) ?calls))
                          (q_value t) (r_value t))
                 \<and> list_all2 near (concat (map (\<lambda>c. rows (block_at (fst c) a)) ?calls))
                      (rows (fst (H a)))
                 \<and> list_all2 near (concat (map (\<lambda>c. rows (block_at (fst (snd c)) a)) ?calls))
                      (rows (snd (H a)))"
    by blast
  from al [rule_format, OF sv] obtain t where t: "tiers_at s' 0 (Some 1) = Inr t"
    and ck: "covers near halving [[11], [12], [13], [14], [15]] (q_key t) (r_key t)"
    and cv: "covers near halving [[111], [112], [113], [114], [115]] (q_value t) (r_value t)"
    and hk: "list_all2 near [[11], [12], [13], [14], [15]] (rows (fst (H (Some 1))))"
    and hv: "list_all2 near [[111], [112], [113], [114], [115]] (rows (snd (H (Some 1))))"
    unfolding c by blast
  have b: "\<exists>rs s' H t.
         updates (two_heads_config 2 False) halving ?calls empty_cache = (Inr rs, s')
       \<and> length rs = length ?calls
       \<and> last rs = (joined (two_heads_config 2 False) 0 (\<lambda>a. fst (H a)),
                    joined (two_heads_config 2 False) 0 (\<lambda>a. snd (H a)))
       \<and> tiers_at s' 0 (Some 1) = Inr t
       \<and> covers near halving [[11], [12], [13], [14], [15]] (q_key t) (r_key t)
       \<and> covers near halving [[111], [112], [113], [114], [115]] (q_value t) (r_value t)
       \<and> list_all2 near [[11], [12], [13], [14], [15]] (rows (fst (H (Some 1))))
       \<and> list_all2 near [[111], [112], [113], [114], [115]] (rows (snd (H (Some 1))))"
    by (intro exI [of _ rs] exI [of _ s'] exI [of _ H] exI [of _ t] conjI)
      (rule run len la t ck cv hk hv)+
  have d: "updates (global_config 2 False) halving (one_by_one 0 [1, 2, 3, 4, 5]) empty_cache
     = (Inr [(block [1], block [101]), (block [0, 2], block [100, 102]),
             (block [0, 2, 3], block [100, 102, 103]),
             (block [0, 2, 2, 4], block [100, 102, 102, 104]),
             (block [0, 2, 2, 4, 5], block [100, 102, 102, 104, 105])],
        \<lparr>seen_tokens = 5, key_cache = [Layer zeros0], value_cache = [Layer zeros0],
         quantized_key_cache = [Layer (block [0, 1, 1, 2, 2])],
         quantized_value_cache = [Layer (block [50, 51, 51, 52, 52])]\<rparr>)"
    by code_simp
  from a b d show ?thesis by (intro conjI)
qed

text \<open>
  C5, as the code has it, for every entry and a sequence of calls with non-empty 4-D
  blocks for a layer without an entry. Every call returns. After a call that is not the
  first, the residual holds at most \<open>max 0 (R - 2)\<close> positions more than the block of
  that call has: at most \<open>R\<close> positions when the block is a single position and
  \<open>R \<ge> 1\<close>. The calls after the first merge at most once per \<open>R\<close> appended positions:
  \<open>R\<close> times the number of merges is at most the number of positions appended.
\<close>

theorem residual_bounded:
  assumes "served cfg l a b" and "aligned s" and "length (key_cache s) = l"
    and "\<forall>c\<in>set (first # rest). fits cfg l c \<and> dim (fst c) = 4 \<and> rows (fst c) \<noteq> []
            \<and> length (rows (fst (snd c))) = length (rows (fst c))"
  shows "\<exists>rs s' t. updates cfg be (first # rest) s = (Inr rs, s')
        \<and> tiers_at s' l a = Inr t \<and> length (rows (r_value t)) = length (rows (r_key t))
        \<and> (rest \<noteq> [] \<longrightarrow>
             int (length (rows (r_key t)))
               \<le> max 0 (residual_length cfg - 2) + shape_m2 (fst (last rest)))
        \<and> (rest \<noteq> [] \<and> shape_m2 (fst (last rest)) = 1 \<and> 1 \<le> residual_length cfg \<longrightarrow>
             int (length (rows (r_key t))) \<le> residual_length cfg)
        \<and> residual_length cfg
             * int (length (filter id (tl (merge_log_at cfg be a (first # rest) s))))
             \<le> positions (first # rest)"
proof -
  from residual_run_at [OF assms, of be]
  obtain rs s' t where run: "updates cfg be (first # rest) s = (Inr rs, s')"
    and t: "tiers_at s' l a = Inr t" and eq: "length (rows (r_value t)) = length (rows (r_key t))"
    and bound: "rest \<noteq> [] \<longrightarrow>
        int (length (rows (r_key t))) \<le> max 0 (residual_length cfg - 2) + shape_m2 (fst (last rest))"
    and count: "residual_length cfg
        * int (length (filter id (tl (merge_log_at cfg be a (first # rest) s))))
        \<le> positions (first # rest)"
    by blast
  have "rest \<noteq> [] \<and> shape_m2 (fst (last rest)) = 1 \<and> 1 \<le> residual_length cfg \<longrightarrow>
      int (length (rows (r_key t))) \<le> residual_length cfg"
    using bound by auto
  with run t eq bound count show ?thesis by blast
qed

theorem residual_bounded_witness:
  "(\<exists>rs s' t.
      updates (global_config 3 False) halving (one_by_one 0 [1, 2, 3, 4, 5, 6]) empty_cache = (Inr rs, s')
    \<and> tiers_at s' 0 None = Inr t \<and> length (rows (r_value t)) = length (rows (r_key t))
    \<and> int (length (rows (r_key t))) \<le> 3
    \<and> 3 * int (length (filter id (tl (merge_log_at (global_config 3 False) halving None
          (one_by_one 0 [1, 2, 3, 4, 5, 6]) empty_cache)))) \<le> 6)
   \<and> (\<exists>rs s' t.
      updates (two_heads_config 3 False) halving
        (one_by_one2 0 [(1, 11), (2, 12), (3, 13), (4, 14), (5, 15), (6, 16)]) empty_cache = (Inr rs, s')
    \<and> tiers_at s' 0 (Some 1) = Inr t \<and> length (rows (r_value t)) = length (rows (r_key t))
    \<and> int (length (rows (r_key t))) \<le> 3
    \<and> 3 * int (length (filter id (tl (merge_log_at (two_heads_config 3 False) halving (Some 1)
          (one_by_one2 0 [(1, 11), (2, 12), (3, 13), (4, 14), (5, 15), (6, 16)]) empty_cache)))) \<le> 6)"
proof -
  let ?c1 = "(block [1], block [101], 0 :: nat)"
  let ?r1 = "one_by_one 0 [2, 3, 4, 5, 6]"
  let ?c2 = "(block2 [(1, 11)], block2 [(101, 111)], 0 :: nat)"
  let ?r2 = "one_by_one2 0 [(2, 12), (3, 13), (4, 14), (5, 15), (6, 16)]"
  have g: "served (global_config 3 False) 0 None \<lparr>bits_key = 4, bits_value = 4\<rparr>"
    "served (two_heads_config 3 False) 0 (Some 1) \<lparr>bits_key = 2, bits_value = 2\<rparr>"
    by (simp_all add: served_def bits_at_def layer_bits_def item_def two_heads_config_def
        global_config_def)
  have s: "aligned (empty_cache :: (int, int tensor) cache)"
    "length (key_cache (empty_cache :: (int, int tensor) cache)) = 0"
    by (simp_all add: aligned_def empty_cache_def)
  have o: "one_by_one 0 [1, 2, 3, 4, 5, 6] = ?c1 # ?r1"
    "one_by_one2 0 [(1, 11), (2, 12), (3, 13), (4, 14), (5, 15), (6, 16)] = ?c2 # ?r2"
    by (simp_all add: one_by_one_def one_by_one2_def)
  have c: "\<forall>c\<in>set (?c1 # ?r1).
      fits (global_config 3 False) 0 c \<and> dim (fst c) = 4 \<and> rows (fst c) \<noteq> []
      \<and> length (rows (fst (snd c))) = length (rows (fst c))"
    "\<forall>c\<in>set (?c2 # ?r2).
      fits (two_heads_config 3 False) 0 c \<and> dim (fst c) = 4 \<and> rows (fst c) \<noteq> []
      \<and> length (rows (fst (snd c))) = length (rows (fst c))"
    by (simp_all add: one_by_one_def block_def one_by_one2_def block2_def fits_def
        global_config_def two_heads_config_def)
  have n: "?r1 \<noteq> []" "shape_m2 (fst (last ?r1)) = 1"
    "residual_length (global_config 3 False) = 3" "positions (?c1 # ?r1) = 6"
    "?r2 \<noteq> []" "shape_m2 (fst (last ?r2)) = 1"
    "residual_length (two_heads_config 3 False) = 3" "positions (?c2 # ?r2) = 6"
    by (simp_all add: one_by_one_def block_def one_by_one2_def block2_def shape_m2_def
        global_config_def two_heads_config_def positions_def)
  from residual_bounded [OF g(1) s c(1), of halving]
  obtain rs s' t
    where run: "updates (global_config 3 False) halving (?c1 # ?r1) empty_cache = (Inr rs, s')"
      and e: "tiers_at s' 0 None = Inr t"
      and eq: "length (rows (r_value t)) = length (rows (r_key t))"
      and b: "?r1 \<noteq> [] \<and> shape_m2 (fst (last ?r1)) = 1
          \<and> 1 \<le> residual_length (global_config 3 False) \<longrightarrow>
          int (length (rows (r_key t))) \<le> residual_length (global_config 3 False)"
      and cnt: "residual_length (global_config 3 False)
          * int (length (filter id (tl (merge_log_at (global_config 3 False) halving None
              (?c1 # ?r1) empty_cache))))
          \<le> positions (?c1 # ?r1)"
    by blast
  have b': "int (length (rows (r_key t))) \<le> 3"
    using b n(1) unfolding n(2) n(3) by simp
  note cnt' = cnt [unfolded n(3) n(4)]
  have first: "\<exists>rs s' t.
      updates (global_config 3 False) halving (one_by_one 0 [1, 2, 3, 4, 5, 6]) empty_cache = (Inr rs, s')
    \<and> tiers_at s' 0 None = Inr t \<and> length (rows (r_value t)) = length (rows (r_key t))
    \<and> int (length (rows (r_key t))) \<le> 3
    \<and> 3 * int (length (filter id (tl (merge_log_at (global_config 3 False) halving None
          (one_by_one 0 [1, 2, 3, 4, 5, 6]) empty_cache)))) \<le> 6"
    unfolding o using run e eq b' cnt' by blast
  from residual_bounded [OF g(2) s c(2), of halving]
  obtain rs2 s2 t2
    where run2: "updates (two_heads_config 3 False) halving (?c2 # ?r2) empty_cache = (Inr rs2, s2)"
      and e2: "tiers_at s2 0 (Some 1) = Inr t2"
      and eq2: "length (rows (r_value t2)) = length (rows (r_key t2))"
      and b2: "?r2 \<noteq> [] \<and> shape_m2 (fst (last ?r2)) = 1
          \<and> 1 \<le> residual_length (two_heads_config 3 False) \<longrightarrow>
          int (length (rows (r_key t2))) \<le> residual_length (two_heads_config 3 False)"
      and cnt2: "residual_length (two_heads_config 3 False)
          * int (length (filter id (tl (merge_log_at (two_heads_config 3 False) halving (Some 1)
              (?c2 # ?r2) empty_cache))))
          \<le> positions (?c2 # ?r2)"
    by blast
  have b2': "int (length (rows (r_key t2))) \<le> 3"
    using b2 n(5) unfolding n(6) n(7) by simp
  note cnt2' = cnt2 [unfolded n(7) n(8)]
  have second: "\<exists>rs s' t.
      updates (two_heads_config 3 False) halving
        (one_by_one2 0 [(1, 11), (2, 12), (3, 13), (4, 14), (5, 15), (6, 16)]) empty_cache = (Inr rs, s')
    \<and> tiers_at s' 0 (Some 1) = Inr t \<and> length (rows (r_value t)) = length (rows (r_key t))
    \<and> int (length (rows (r_key t))) \<le> 3
    \<and> 3 * int (length (filter id (tl (merge_log_at (two_heads_config 3 False) halving (Some 1)
          (one_by_one2 0 [(1, 11), (2, 12), (3, 13), (4, 14), (5, 15), (6, 16)]) empty_cache)))) \<le> 6"
    unfolding o using run2 e2 eq2 b2' cnt2' by blast
  from first second show ?thesis by (rule conjI)
qed

text \<open>
  C5, as stated, fails for blocks of more than one position: with residual length 4, a
  block of 10 positions appended to a layer that has an entry stays whole in the
  residual.
\<close>

theorem residual_overflow_example:
  "updates (global_config 4 False) halving
      [(block [1], block [101], 0),
       (block [2, 3, 4, 5, 6, 7, 8, 9, 10, 11], block [2, 3, 4, 5, 6, 7, 8, 9, 10, 11], 0)]
      empty_cache
     = (Inr [(block [1], block [101]),
             (block [0, 2, 3, 4, 5, 6, 7, 8, 9, 10, 11], block [100, 2, 3, 4, 5, 6, 7, 8, 9, 10, 11])],
        \<lparr>seen_tokens = 11,
         key_cache = [Layer (block [2, 3, 4, 5, 6, 7, 8, 9, 10, 11])],
         value_cache = [Layer (block [2, 3, 4, 5, 6, 7, 8, 9, 10, 11])],
         quantized_key_cache = [Layer (block [0])],
         quantized_value_cache = [Layer (block [50])]\<rparr>)"
  by code_simp

end
